(* ===== verification/Prelude.thy ===== *)
theory Prelude
  imports Complex_Main "HOL-Library.AList"
begin

text \<open>
  Shared vocabulary of the development: the JavaScript values the TypeScript code calls
  \<open>unknown\<close>, property access and string conversion on them, the effect layer in which the
  services are written (external calls that may fail, a clock, fresh identifiers, exceptions),
  and the weakest-precondition equations that execute such code symbolically.

  Strings are lists of 8-bit characters, standing for JavaScript code units below 256;
  numbers are the integers among JavaScript's numbers.
\<close>

section \<open>Hint collections\<close>

named_theorems wp_eqs \<open>weakest-precondition equations of the effect layer\<close>
named_theorems js_defs \<open>definitions of JavaScript value access\<close>

section \<open>JavaScript values\<close>

text \<open>
  A value of type \<open>unknown\<close>. \<open>JBuf\<close> is a Node Buffer with its text, \<open>JErr\<close> an instance of
  \<open>Error\<close> (or of a subclass, named by the constructor's name) with its own properties.
\<close>

datatype jsval =
    JUndef
  | JNull
  | JBool bool
  | JNum int
  | JStr string
  | JBuf string
  | JArr "jsval list"
  | JObj "(string \<times> jsval) list"
  | JErr string "(string \<times> jsval) list"

text \<open>\<open>typeof v === 'object' && v !== null\<close>.\<close>

fun is_object :: "jsval \<Rightarrow> bool" where
  "is_object (JBuf _) = True"
| "is_object (JArr _) = True"
| "is_object (JObj _) = True"
| "is_object (JErr _ _) = True"
| "is_object _ = False"

text \<open>\<open>v instanceof Error\<close>.\<close>

fun is_error :: "jsval \<Rightarrow> bool" where
  "is_error (JErr _ _) = True"
| "is_error _ = False"

fun props :: "jsval \<Rightarrow> (string \<times> jsval) list" where
  "props (JObj kvs) = kvs"
| "props (JErr _ kvs) = kvs"
| "props _ = []"

text \<open>\<open>v[k]\<close>: \<open>undefined\<close> when the property is absent, and \<open>k in v\<close>.\<close>

definition get_prop :: "string \<Rightarrow> jsval \<Rightarrow> jsval" where
  "get_prop k v = (case map_of (props v) k of None \<Rightarrow> JUndef | Some x \<Rightarrow> x)"

definition has_prop :: "string \<Rightarrow> jsval \<Rightarrow> bool" where
  "has_prop k v \<longleftrightarrow> map_of (props v) k \<noteq> None"

text \<open>\<open>typeof v === 'string'\<close>, read as the string when it is one.\<close>

fun as_string :: "jsval \<Rightarrow> string option" where
  "as_string (JStr s) = Some s"
| "as_string _ = None"

text \<open>\<open>typeof v === 'number'\<close>.\<close>

fun as_number :: "jsval \<Rightarrow> int option" where
  "as_number (JNum n) = Some n"
| "as_number _ = None"

text \<open>\<open>a ?? b\<close>: the right operand only for \<open>null\<close> and \<open>undefined\<close>.\<close>

fun nullish :: "jsval \<Rightarrow> jsval \<Rightarrow> jsval" where
  "nullish JUndef d = d"
| "nullish JNull d = d"
| "nullish v _ = v"

text \<open>\<open>s ?? d\<close> on a nullable string.\<close>

definition or_else :: "'a option \<Rightarrow> 'a \<Rightarrow> 'a" where
  "or_else v d = (case v of None \<Rightarrow> d | Some x \<Rightarrow> x)"

lemma or_else_simps [simp]: "or_else None d = d" "or_else (Some x) d = x"
  by (simp_all add: or_else_def)

definition of_opt :: "string option \<Rightarrow> jsval" where
  "of_opt v = (case v of None \<Rightarrow> JNull | Some s \<Rightarrow> JStr s)"

subsection \<open>Text of a value\<close>

definition digit_char :: "nat \<Rightarrow> char" where
  "digit_char n = char_of (48 + n)"

fun show_nat :: "nat \<Rightarrow> string" where
  "show_nat n = (if n < 10 then [digit_char n] else show_nat (n div 10) @ [digit_char (n mod 10)])"

declare show_nat.simps [simp del]

definition show_int :: "int \<Rightarrow> string" where
  "show_int i = (if i < 0 then CHR ''-'' # show_nat (nat (- i)) else show_nat (nat i))"

fun join_with :: "string \<Rightarrow> string list \<Rightarrow> string" where
  "join_with sep [] = []"
| "join_with sep [x] = x"
| "join_with sep (x # y # ys) = x @ sep @ join_with sep (y # ys)"

text \<open>
  \<open>String(v)\<close>; an element of an array that is \<open>null\<close> or \<open>undefined\<close> contributes the empty
  string, an Error its name and message.
\<close>

fun js_String :: "jsval \<Rightarrow> string" where
  "js_String JUndef = ''undefined''"
| "js_String JNull = ''null''"
| "js_String (JBool b) = (if b then ''true'' else ''false'')"
| "js_String (JNum i) = show_int i"
| "js_String (JStr s) = s"
| "js_String (JBuf s) = s"
| "js_String (JArr vs) =
     join_with '','' (map (\<lambda>v. if v = JUndef \<or> v = JNull then [] else js_String v) vs)"
| "js_String (JObj _) = ''[object Object]''"
| "js_String (JErr c kvs) =
     (case map_of kvs ''message'' of Some (JStr m) \<Rightarrow> c @ '': '' @ m | _ \<Rightarrow> c)"

text \<open>\<open>err instanceof Error ? err.message : String(err)\<close>.\<close>

fun err_message :: "jsval \<Rightarrow> string" where
  "err_message (JErr c kvs) = (case map_of kvs ''message'' of Some (JStr m) \<Rightarrow> m | _ \<Rightarrow> [])"
| "err_message v = js_String v"

text \<open>An Error with a message only, as \<open>new Error(msg)\<close> builds it.\<close>

definition new_Error :: "string \<Rightarrow> jsval" where
  "new_Error msg = JErr ''Error'' [(''message'', JStr msg)]"

definition type_error :: jsval where
  "type_error = JErr ''TypeError'' [(''message'', JStr ''Cannot read properties of undefined'')]"

lemmas [js_defs] = get_prop_def has_prop_def new_Error_def

subsection \<open>Reading numbers out of text\<close>

definition is_digit :: "char \<Rightarrow> bool" where
  "is_digit c \<longleftrightarrow> 48 \<le> (of_char c :: nat) \<and> (of_char c :: nat) \<le> 57"

definition digit_value :: "char \<Rightarrow> int" where
  "digit_value c = int (of_char c :: nat) - 48"

text \<open>The white space that \<open>trim\<close> and \<open>parseInt\<close> skip, among code units below 256.\<close>

definition is_js_space :: "char \<Rightarrow> bool" where
  "is_js_space c \<longleftrightarrow> (of_char c :: nat) \<in> {9, 10, 11, 12, 13, 32, 160}"

definition js_trim :: "string \<Rightarrow> string" where
  "js_trim s = rev (dropWhile is_js_space (rev (dropWhile is_js_space s)))"

definition digits_value :: "string \<Rightarrow> int" where
  "digits_value ds = foldl (\<lambda>acc c. 10 * acc + digit_value c) 0 ds"

text \<open>\<open>Number.parseInt(s, 10)\<close>; \<open>None\<close> is \<open>NaN\<close>.\<close>

definition js_parseInt :: "string \<Rightarrow> int option" where
  "js_parseInt s =
     (let t = dropWhile is_js_space s;
          neg = (case t of c # _ \<Rightarrow> c = CHR ''-'' | [] \<Rightarrow> False);
          u = (case t of c # r \<Rightarrow> if c = CHR ''-'' \<or> c = CHR ''+'' then r else t | [] \<Rightarrow> []);
          ds = takeWhile is_digit u
      in if ds = [] then None
         else Some (if neg then - digits_value ds else digits_value ds))"

subsection \<open>JSON\<close>

text \<open>
  A value after \<open>JSON.stringify\<close> and back: members that are \<open>undefined\<close> are dropped, \<open>undefined\<close>
  elements of an array become \<open>null\<close>, an Error is an object with its own members.
\<close>

fun json_of :: "jsval \<Rightarrow> jsval" where
  "json_of (JArr vs) = JArr (map (\<lambda>v. if v = JUndef then JNull else json_of v) vs)"
| "json_of (JObj kvs) = JObj (map (\<lambda>(k, v). (k, json_of v)) (filter (\<lambda>(k, v). v \<noteq> JUndef) kvs))"
| "json_of (JErr c kvs) = JObj (map (\<lambda>(k, v). (k, json_of v)) (filter (\<lambda>(k, v). v \<noteq> JUndef) kvs))"
| "json_of v = v"

section \<open>Metrics\<close>

type_synonym labels = "(string \<times> string) list"

text \<open>What a service reports to its metrics registry, in order; durations are in milliseconds.\<close>

datatype metric_event =
    Inc string labels
  | SetGauge string labels int
  | Observe string labels int

section \<open>The effect layer\<close>

text \<open>
  What an external call does: it succeeds; it reports back-pressure (a publish that returns
  \<open>false\<close>; every other call ignores the difference to success); it fails without effect (the
  promise rejects, the call throws); or it takes effect and its answer is lost, so that the
  caller sees an error all the same.
\<close>

datatype outcome = Done | Refused | Fails jsval | Lost jsval

text \<open>
  The world a service runs in: its own memory, and what the outside decides, call by call:
  the outcome of the n-th external call, the time at which it is made, the n-th random UUID, and
  what the OpenTelemetry propagator injects in the ambient context (\<open>None\<close>) or in a context
  extracted from a carrier. Theorems quantify over all of them.
\<close>

record 'd world =
  mem :: 'd
  calls :: nat
  uuids :: nat
  outcomes :: "nat \<Rightarrow> outcome"
  clock :: "nat \<Rightarrow> int"
  fresh :: "nat \<Rightarrow> string"
  otel_inject :: "(string \<times> string) list option \<Rightarrow> (string \<times> string) list"

text \<open>A computation of the service: a thrown error or a result, and the world afterwards.\<close>

type_synonym ('d, 'a) io = "'d world \<Rightarrow> (jsval + 'a) \<times> 'd world"

definition ret :: "'a \<Rightarrow> ('d, 'a) io" where
  "ret x = (\<lambda>w. (Inr x, w))"

definition throw :: "jsval \<Rightarrow> ('d, 'a) io" where
  "throw e = (\<lambda>w. (Inl e, w))"

definition bind :: "('d, 'a) io \<Rightarrow> ('a \<Rightarrow> ('d, 'b) io) \<Rightarrow> ('d, 'b) io" where
  "bind m f = (\<lambda>w. case m w of (Inl e, w') \<Rightarrow> (Inl e, w') | (Inr x, w') \<Rightarrow> f x w')"

definition andThen :: "('d, 'a) io \<Rightarrow> ('d, 'b) io \<Rightarrow> ('d, 'b) io" where
  "andThen m n = bind m (\<lambda>_. n)"

text \<open>\<open>try { m } catch (e) { h e }\<close>.\<close>

definition catching :: "('d, 'a) io \<Rightarrow> (jsval \<Rightarrow> ('d, 'a) io) \<Rightarrow> ('d, 'a) io" where
  "catching m h = (\<lambda>w. case m w of (Inl e, w') \<Rightarrow> h e w' | (Inr x, w') \<Rightarrow> (Inr x, w'))"

text \<open>\<open>try { m } finally { n }\<close>: an error of the finaliser wins.\<close>

definition finally_do :: "('d, 'a) io \<Rightarrow> ('d, unit) io \<Rightarrow> ('d, 'a) io" where
  "finally_do m n = (\<lambda>w. case m w of (r, w') \<Rightarrow>
     (case n w' of (Inl e, w'') \<Rightarrow> (Inl e, w'') | (Inr _, w'') \<Rightarrow> (r, w'')))"

definition gets :: "('d \<Rightarrow> 'a) \<Rightarrow> ('d, 'a) io" where
  "gets f = (\<lambda>w. (Inr (f (mem w)), w))"

definition modify :: "('d \<Rightarrow> 'd) \<Rightarrow> ('d, unit) io" where
  "modify f = (\<lambda>w. (Inr (), w\<lparr>mem := f (mem w)\<rparr>))"

text \<open>One external call; \<open>True\<close> unless it reports back-pressure.\<close>

definition external :: "('d, bool) io" where
  "external = (\<lambda>w. (case outcomes w (calls w) of
       Done \<Rightarrow> Inr True | Refused \<Rightarrow> Inr False | Fails e \<Rightarrow> Inl e | Lost e \<Rightarrow> Inl e,
       w\<lparr>calls := Suc (calls w)\<rparr>))"

text \<open>
  A request that acts on the memory (a statement on the database, a message to the broker):
  \<open>f\<close>, given the time of the call, says what the other side answers and does.
\<close>

definition request :: "(int \<Rightarrow> 'd \<Rightarrow> (jsval + 'a) \<times> 'd) \<Rightarrow> ('d, 'a) io" where
  "request f = (\<lambda>w.
     let w1 = w\<lparr>calls := Suc (calls w)\<rparr>;
         (r, m) = f (clock w (calls w)) (mem w)
     in case outcomes w (calls w) of
          Done \<Rightarrow> (r, w1\<lparr>mem := m\<rparr>)
        | Refused \<Rightarrow> (r, w1\<lparr>mem := m\<rparr>)
        | Fails e \<Rightarrow> (Inl e, w1)
        | Lost e \<Rightarrow> (Inl e, w1\<lparr>mem := m\<rparr>))"

text \<open>\<open>new Date()\<close> and \<open>randomUUID()\<close>.\<close>

definition now_ms :: "('d, int) io" where
  "now_ms = (\<lambda>w. (Inr (clock w (calls w)), w))"

definition randomUUID :: "('d, string) io" where
  "randomUUID = (\<lambda>w. (Inr (fresh w (uuids w)), w\<lparr>uuids := Suc (uuids w)\<rparr>))"

text \<open>\<open>for (const x of xs) await f(x)\<close>.\<close>

fun for_each :: "('b \<Rightarrow> ('d, unit) io) \<Rightarrow> 'b list \<Rightarrow> ('d, unit) io" where
  "for_each f [] = ret ()"
| "for_each f (x # xs) = andThen (f x) (for_each f xs)"

definition when_do :: "bool \<Rightarrow> ('d, unit) io \<Rightarrow> ('d, unit) io" where
  "when_do b m = (if b then m else ret ())"

section \<open>Weakest preconditions\<close>

text \<open>
  \<open>wp m Q E w\<close>: run from \<open>w\<close>, \<open>m\<close> ends with a result that satisfies \<open>Q\<close> or with an error that
  satisfies \<open>E\<close>. Every computation of the layer is total, so this is total correctness.
\<close>

definition wp :: "('d, 'a) io \<Rightarrow> ('a \<Rightarrow> 'd world \<Rightarrow> bool) \<Rightarrow> (jsval \<Rightarrow> 'd world \<Rightarrow> bool)
    \<Rightarrow> 'd world \<Rightarrow> bool" where
  "wp m Q E w \<longleftrightarrow> (case m w of (Inl e, w') \<Rightarrow> E e w' | (Inr x, w') \<Rightarrow> Q x w')"

lemma wp_ret [wp_eqs]: "wp (ret x) Q E w \<longleftrightarrow> Q x w"
  by (simp add: wp_def ret_def)

lemma wp_throw [wp_eqs]: "wp (throw e) Q E w \<longleftrightarrow> E e w"
  by (simp add: wp_def throw_def)

lemma wp_bind [wp_eqs]: "wp (bind m f) Q E w \<longleftrightarrow> wp m (\<lambda>x. wp (f x) Q E) E w"
  by (simp add: wp_def bind_def split: prod.splits sum.splits)

lemma wp_andThen [wp_eqs]: "wp (andThen m n) Q E w \<longleftrightarrow> wp m (\<lambda>_. wp n Q E) E w"
  by (simp add: andThen_def wp_bind)

lemma wp_catch [wp_eqs]: "wp (catching m h) Q E w \<longleftrightarrow> wp m Q (\<lambda>e. wp (h e) Q E) w"
  by (simp add: wp_def catching_def split: prod.splits sum.splits)

lemma wp_finally [wp_eqs]:
  "wp (finally_do m n) Q E w \<longleftrightarrow>
     wp m (\<lambda>x. wp n (\<lambda>_. Q x) E) (\<lambda>e. wp n (\<lambda>_. E e) E) w"
  by (simp add: wp_def finally_do_def split: prod.splits sum.splits)

lemma wp_gets [wp_eqs]: "wp (gets f) Q E w \<longleftrightarrow> Q (f (mem w)) w"
  by (simp add: wp_def gets_def)

lemma wp_modify [wp_eqs]: "wp (modify f) Q E w \<longleftrightarrow> Q () (w\<lparr>mem := f (mem w)\<rparr>)"
  by (simp add: wp_def modify_def)

lemma wp_now_ms [wp_eqs]: "wp now_ms Q E w \<longleftrightarrow> Q (clock w (calls w)) w"
  by (simp add: wp_def now_ms_def)

lemma wp_randomUUID [wp_eqs]:
  "wp randomUUID Q E w \<longleftrightarrow> Q (fresh w (uuids w)) (w\<lparr>uuids := Suc (uuids w)\<rparr>)"
  by (simp add: wp_def randomUUID_def)

lemma wp_external [wp_eqs]:
  "wp external Q E w \<longleftrightarrow>
     (case outcomes w (calls w) of
        Done \<Rightarrow> Q True (w\<lparr>calls := Suc (calls w)\<rparr>)
      | Refused \<Rightarrow> Q False (w\<lparr>calls := Suc (calls w)\<rparr>)
      | Fails e \<Rightarrow> E e (w\<lparr>calls := Suc (calls w)\<rparr>)
      | Lost e \<Rightarrow> E e (w\<lparr>calls := Suc (calls w)\<rparr>))"
  by (simp add: wp_def external_def split: outcome.splits)

lemma wp_request [wp_eqs]:
  "wp (request f) Q E w \<longleftrightarrow>
     (let w1 = w\<lparr>calls := Suc (calls w)\<rparr>;
          (r, m) = f (clock w (calls w)) (mem w)
      in case outcomes w (calls w) of
           Done \<Rightarrow> (case r of Inl e \<Rightarrow> E e (w1\<lparr>mem := m\<rparr>) | Inr x \<Rightarrow> Q x (w1\<lparr>mem := m\<rparr>))
         | Refused \<Rightarrow> (case r of Inl e \<Rightarrow> E e (w1\<lparr>mem := m\<rparr>) | Inr x \<Rightarrow> Q x (w1\<lparr>mem := m\<rparr>))
         | Fails e \<Rightarrow> E e w1
         | Lost e \<Rightarrow> E e (w1\<lparr>mem := m\<rparr>))"
  by (simp add: wp_def request_def Let_def split: prod.splits outcome.splits)

lemma wp_when_do [wp_eqs]: "wp (when_do b m) Q E w \<longleftrightarrow> (if b then wp m Q E w else Q () w)"
  by (simp add: when_do_def wp_ret)

lemma wp_if [wp_eqs]:
  "wp (if b then m else n) Q E w \<longleftrightarrow> (if b then wp m Q E w else wp n Q E w)"
  by simp

lemma wp_case_option [wp_eqs]:
  "wp (case x of None \<Rightarrow> m | Some y \<Rightarrow> f y) Q E w \<longleftrightarrow>
     (case x of None \<Rightarrow> wp m Q E w | Some y \<Rightarrow> wp (f y) Q E w)"
  by (cases x) simp_all

lemma wp_case_sum [wp_eqs]:
  "wp (case x of Inl a \<Rightarrow> f a | Inr b \<Rightarrow> g b) Q E w \<longleftrightarrow>
     (case x of Inl a \<Rightarrow> wp (f a) Q E w | Inr b \<Rightarrow> wp (g b) Q E w)"
  by (cases x) simp_all

lemma wp_Let [wp_eqs]: "wp (let x = v in f x) Q E w \<longleftrightarrow> (let x = v in wp (f x) Q E w)"
  by (simp add: Let_def)

lemma wp_for_each_Nil [wp_eqs]: "wp (for_each f []) Q E w \<longleftrightarrow> Q () w"
  by (simp add: wp_ret)

lemma wp_for_each_Cons [wp_eqs]:
  "wp (for_each f (x # xs)) Q E w \<longleftrightarrow> wp (f x) (\<lambda>_. wp (for_each f xs) Q E) E w"
  by (simp add: wp_andThen)

text \<open>The same equations where the world is not yet applied, as in a postcondition.\<close>

lemma wp_funs [wp_eqs]:
  "wp (ret x) Q E = Q x" "wp (throw e) Q E = E e"
  "wp (bind m f) Q E = wp m (\<lambda>x. wp (f x) Q E) E"
  "wp (andThen m n) Q E = wp m (\<lambda>_. wp n Q E) E"
  "wp (catching m h) Q E = wp m Q (\<lambda>e. wp (h e) Q E)"
  by (simp_all add: fun_eq_iff wp_ret wp_throw wp_bind wp_andThen wp_catch)

text \<open>Consequence, conjunction, and the loop rule.\<close>

lemma wp_mono:
  assumes "wp m Q E w"
    and "\<And>x w'. Q x w' \<Longrightarrow> Q' x w'" and "\<And>e w'. E e w' \<Longrightarrow> E' e w'"
  shows "wp m Q' E' w"
  using assms by (auto simp: wp_def split: prod.splits sum.splits)

lemma wp_conj: "wp m Q E w \<Longrightarrow> wp m Q' E' w \<Longrightarrow>
    wp m (\<lambda>x w. Q x w \<and> Q' x w) (\<lambda>e w. E e w \<and> E' e w) w"
  by (auto simp: wp_def split: prod.splits sum.splits)

lemma wp_for_each:
  assumes step: "\<And>x w. x \<in> set xs \<Longrightarrow> I w \<Longrightarrow> wp (f x) (\<lambda>_. I) E w"
    and "I w"
  shows "wp (for_each f xs) (\<lambda>_. I) E w"
  using assms
proof (induction xs arbitrary: w)
  case Nil
  then show ?case by (simp add: wp_eqs)
next
  case (Cons x xs)
  have "wp (f x) (\<lambda>_. I) E w" using Cons.prems by simp
  then have "wp (f x) (\<lambda>_. wp (for_each f xs) (\<lambda>_. I) E) E w"
    by (rule wp_mono) (use Cons in auto)
  then show ?case by (simp add: wp_andThen)
qed

text \<open>Reading a run off a weakest precondition, and back.\<close>

lemma wp_result: "wp m Q E w \<Longrightarrow> m w = (Inr x, w') \<Longrightarrow> Q x w'"
  by (simp add: wp_def)

lemma wp_error: "wp m Q E w \<Longrightarrow> m w = (Inl e, w') \<Longrightarrow> E e w'"
  by (simp add: wp_def)

lemma wp_snd: "wp m (\<lambda>_ w'. P w') (\<lambda>_ w'. P w') w \<longleftrightarrow> P (snd (m w))"
  by (simp add: wp_def split: prod.splits sum.splits)

lemma wp_run: "wp m (\<lambda>x w'. P (Inr x) w') (\<lambda>e w'. P (Inl e) w') w \<longleftrightarrow> P (fst (m w)) (snd (m w))"
  by (simp add: wp_def split: prod.splits sum.splits)

lemmas io_defs = ret_def throw_def bind_def andThen_def catching_def finally_do_def gets_def
  modify_def external_def request_def now_ms_def randomUUID_def when_do_def

text \<open>A fresh world in which every external call succeeds, for concrete runs.\<close>

definition start_world :: "'d \<Rightarrow> 'd world" where
  "start_world m = \<lparr>mem = m, calls = 0, uuids = 0, outcomes = \<lambda>_. Done, clock = \<lambda>n. int n,
     fresh = \<lambda>n. show_nat n, otel_inject = \<lambda>c. or_else c []\<rparr>"

lemma start_world_sel [simp]:
  "mem (start_world m) = m" "calls (start_world m) = 0" "uuids (start_world m) = 0"
  "outcomes (start_world m) = (\<lambda>_. Done)" "clock (start_world m) = (\<lambda>n. int n)"
  "fresh (start_world m) = show_nat" "otel_inject (start_world m) = (\<lambda>c. or_else c [])"
  by (simp_all add: start_world_def)

section \<open>Lists and association lists\<close>

text \<open>\<open>{ ...a, ...b }\<close>: the members of \<open>b\<close> written over those of \<open>a\<close>.\<close>

definition spread :: "(string \<times> 'v) list \<Rightarrow> (string \<times> 'v) list \<Rightarrow> (string \<times> 'v) list" where
  "spread a b = foldl (\<lambda>acc (k, v). AList.update k v acc) a b"

lemma map_of_spread: "map_of (spread a b) = map_of a ++ map_of (rev b)"
  by (induction b arbitrary: a) (auto simp: spread_def map_add_def update_conv' fun_eq_iff
      split: option.splits)

lemma map_of_update [simp]: "map_of (AList.update k v kvs) = (map_of kvs)(k \<mapsto> v)"
  by (rule update_conv')

lemma filter_update_disjoint:
  "(\<And>x. x \<in> set xs \<Longrightarrow> P x \<Longrightarrow> f x = x) \<Longrightarrow> (\<And>x. x \<in> set xs \<Longrightarrow> \<not> P x \<Longrightarrow> \<not> P (f x)) \<Longrightarrow>
     filter P (map f xs) = filter P xs"
  by (induction xs) auto

lemma sorted_key_filter: "sorted (map f xs) \<Longrightarrow> sorted (map f (filter P xs))"
  by (induction xs) auto

section \<open>Step relations\<close>

text \<open>
  What every system of interleaved steps of this development provides: a condition that each step keeps.
  It then holds along every schedule, in particular in every state reachable from one where it holds.
\<close>

locale step_system =
  fixes step :: "'s \<Rightarrow> 's \<Rightarrow> bool" and inv :: "'s \<Rightarrow> bool"
  assumes step_keeps: "step s s' \<Longrightarrow> inv s \<Longrightarrow> inv s'"
begin

lemma schedule_keeps: "step\<^sup>*\<^sup>* s s' \<Longrightarrow> inv s \<Longrightarrow> inv s'"
  by (induction rule: rtranclp_induct) (auto intro: step_keeps)

end

end
