(* ===== verification/Topology.thy ===== *)
theory Topology
  imports Prelude
begin

text \<open>
  The shared RabbitMQ contract, \<open>libs/contracts/src/topology/topology.ts\<close>: the names of
  exchanges, queues and routing keys, the retry curve, and the decision where an outbox row is
  published; and \<open>apps/messaging/src/reliability/topology.service.ts\<close>, which declares that
  topology at start-up. The broker is not part of the repository: how it routes is a parameter,
  restricted by the law \<open>amqp_routing\<close> (the AMQP rules for direct and fanout exchanges).
\<close>

section \<open>Names\<close>

record exchange_names =
  ex_MAIN :: string
  ex_DLX :: string
  ex_DLQ :: string
  ex_EVENTS :: string

definition EXCHANGES :: exchange_names where
  "EXCHANGES = \<lparr>ex_MAIN = ''messaging.direct'', ex_DLX = ''messaging.dlx'',
     ex_DLQ = ''messaging.dlq.exchange'', ex_EVENTS = ''messaging.events''\<rparr>"

record queue_names =
  q_WORK :: string
  q_RETRY :: string
  q_DLQ :: string
  q_EVENTS_AUDIT :: string

definition QUEUES :: queue_names where
  "QUEUES = \<lparr>q_WORK = ''messaging.work'', q_RETRY = ''messaging.retry.q'',
     q_DLQ = ''messaging.dlq'', q_EVENTS_AUDIT = ''messaging.events.audit''\<rparr>"

record routing_key_names =
  rk_WORK :: string
  rk_RETRY :: string
  rk_DEAD :: string

definition ROUTING_KEYS :: routing_key_names where
  "ROUTING_KEYS = \<lparr>rk_WORK = ''messaging.work'', rk_RETRY = ''messaging.retry'',
     rk_DEAD = ''messaging.dead''\<rparr>"

lemmas topology_names = EXCHANGES_def QUEUES_def ROUTING_KEYS_def

section \<open>The retry curve\<close>

record retry_config =
  MAX_ATTEMPTS :: int
  BASE_DELAY_MS :: rat
  MAX_DELAY_MS :: rat

definition RETRY_CONFIG :: retry_config where
  "RETRY_CONFIG = \<lparr>MAX_ATTEMPTS = 5, BASE_DELAY_MS = 2000, MAX_DELAY_MS = 30000\<rparr>"

text \<open>
  \<open>Math.pow(2, attempt - 1)\<close> is a fraction for an attempt below 1 (the attempt number can come
  from a message header), hence a rational number of milliseconds.
\<close>

definition retryDelayMs :: "int \<Rightarrow> rat" where
  "retryDelayMs attempt =
     min (BASE_DELAY_MS RETRY_CONFIG * 2 powi (attempt - 1)) (MAX_DELAY_MS RETRY_CONFIG)"

lemma retryDelayMs_pos: "0 < retryDelayMs n"
  by (simp add: retryDelayMs_def RETRY_CONFIG_def)

lemma retryDelayMs_le_max: "retryDelayMs n \<le> 30000"
  by (simp add: retryDelayMs_def RETRY_CONFIG_def)

lemma retryDelayMs_mono: "m \<le> n \<Longrightarrow> retryDelayMs m \<le> retryDelayMs n"
proof -
  assume "m \<le> n"
  then have "(2::rat) powi (m - 1) \<le> 2 powi (n - 1)"
    by (intro power_int_increasing) auto
  then show ?thesis by (simp add: retryDelayMs_def RETRY_CONFIG_def min_def)
qed

lemma retryDelayMs_1: "retryDelayMs 1 = 2000"
  by (simp add: retryDelayMs_def RETRY_CONFIG_def)

lemma retryDelayMs_ge_base: "1 \<le> n \<Longrightarrow> 2000 \<le> retryDelayMs n"
  using retryDelayMs_mono [of 1 n] by (simp add: retryDelayMs_1)

lemma retryDelayMs_cap: "5 \<le> n \<Longrightarrow> retryDelayMs n = 30000"
proof -
  have "retryDelayMs 5 = 30000"
    by (simp add: retryDelayMs_def RETRY_CONFIG_def)
  moreover assume "5 \<le> n"
  then have "retryDelayMs 5 \<le> retryDelayMs n" by (rule retryDelayMs_mono)
  ultimately show ?thesis using retryDelayMs_le_max [of n] by simp
qed

text \<open>Below the cap the delay doubles with every attempt.\<close>

lemma retryDelayMs_double:
  assumes "n < 4"
  shows "retryDelayMs (n + 1) = 2 * retryDelayMs n"
proof -
  have eq: "(2::rat) powi n = 2 * 2 powi (n - 1)"
    using power_int_add_1 [of "2::rat" "n - 1"] by simp
  have "(2::rat) powi n \<le> 2 powi 3"
    using assms by (intro power_int_increasing) auto
  then have "(2::rat) powi n \<le> 8" by simp
  with eq show ?thesis by (simp add: retryDelayMs_def RETRY_CONFIG_def min_def)
qed

section \<open>Command or domain event\<close>

definition COMMAND_EVENT_TYPES :: "string set" where
  "COMMAND_EVENT_TYPES = {''CreateMessageEvent.v1'', ''CreateMessageEvent.v2''}"

datatype route_kind = Command | DomainEvent

record OutboxRoute =
  exchange :: string
  routingKey :: string
  kind :: route_kind

definition resolveOutboxRoute :: "string \<Rightarrow> OutboxRoute" where
  "resolveOutboxRoute eventType =
     (if eventType \<in> COMMAND_EVENT_TYPES
      then \<lparr>exchange = ex_MAIN EXCHANGES, routingKey = rk_WORK ROUTING_KEYS, kind = Command\<rparr>
      else \<lparr>exchange = ex_EVENTS EXCHANGES, routingKey = '''', kind = DomainEvent\<rparr>)"

lemma kind_resolveOutboxRoute:
  "kind (resolveOutboxRoute t) = Command \<longleftrightarrow> t \<in> COMMAND_EVENT_TYPES"
  by (simp add: resolveOutboxRoute_def)

section \<open>Declaring the topology\<close>

text \<open>
  The declarations made on the channel: an exchange with its type, a queue with its arguments,
  a binding. Every declaration of the service is durable.
\<close>

datatype decl =
    AssertExchange string string
  | AssertQueue string "(string \<times> string) list"
  | BindQueue string string string

text \<open>\<open>assertTopology\<close>, declaration by declaration.\<close>

definition topology_decls :: "decl list" where
  "topology_decls =
    [AssertExchange (ex_DLX EXCHANGES) ''fanout'',
     AssertExchange (ex_DLQ EXCHANGES) ''direct'',
     AssertExchange (ex_MAIN EXCHANGES) ''direct'',
     AssertQueue (q_DLQ QUEUES) [(''x-queue-type'', ''classic'')],
     BindQueue (q_DLQ QUEUES) (ex_DLQ EXCHANGES) (rk_DEAD ROUTING_KEYS),
     AssertQueue (q_RETRY QUEUES)
       [(''x-dead-letter-exchange'', ex_MAIN EXCHANGES),
        (''x-dead-letter-routing-key'', rk_WORK ROUTING_KEYS)],
     BindQueue (q_RETRY QUEUES) (ex_MAIN EXCHANGES) (rk_RETRY ROUTING_KEYS),
     AssertQueue (q_WORK QUEUES) [(''x-dead-letter-exchange'', ex_DLX EXCHANGES)],
     BindQueue (q_WORK QUEUES) (ex_MAIN EXCHANGES) (rk_WORK ROUTING_KEYS),
     BindQueue (q_DLQ QUEUES) (ex_DLX EXCHANGES) '''',
     AssertExchange (ex_EVENTS EXCHANGES) ''fanout'',
     AssertQueue (q_EVENTS_AUDIT QUEUES) [],
     BindQueue (q_EVENTS_AUDIT QUEUES) (ex_EVENTS EXCHANGES) '''']"

text \<open>
  What the consumer of the work queue declares when the messaging service starts
  (\<open>apps/messaging/src/main.ts\<close>): the queue by its name, without arguments.
\<close>

definition consumer_decl :: decl where
  "consumer_decl = AssertQueue ''messaging.work'' []"

text \<open>The service's memory: what it has declared, and whether its connection is open.\<close>

record topology_mem =
  declared :: "decl list"
  topo_conn_open :: bool

definition declare_one :: "decl \<Rightarrow> (topology_mem, unit) io" where
  "declare_one d = andThen external (modify (\<lambda>m. m\<lparr>declared := declared m @ [d]\<rparr>))"

definition assertTopology :: "(topology_mem, unit) io" where
  "assertTopology = for_each declare_one topology_decls"

text \<open>
  \<open>onModuleInit\<close>: connect, open a channel, assert, close the channel; an error is rethrown, and
  the connection, if there is one, is closed in any case (an error of that close is ignored).
\<close>

definition topology_onModuleInit :: "(topology_mem, unit) io" where
  "topology_onModuleInit =
     finally_do
       (andThen external
         (andThen (modify (\<lambda>m. m\<lparr>topo_conn_open := True\<rparr>))
           (andThen external
             (andThen assertTopology (andThen external (ret ()))))))
       (bind (gets topo_conn_open) (\<lambda>opened.
          when_do opened
            (catching
              (andThen external (modify (\<lambda>m. m\<lparr>topo_conn_open := False\<rparr>)))
              (\<lambda>_. ret ()))))"

lemma wp_declare_all:
  assumes "declared (mem w) = ds0"
  shows "wp (for_each declare_one ds)
    (\<lambda>_ w'. declared (mem w') = ds0 @ ds \<and> topo_conn_open (mem w') = topo_conn_open (mem w))
    (\<lambda>_ w'. topo_conn_open (mem w') = topo_conn_open (mem w)) w"
  using assms
proof (induction ds arbitrary: ds0 w)
  case Nil
  then show ?case by (simp add: wp_eqs)
next
  case (Cons d ds)
  show ?case
  proof (cases "\<exists>e. outcomes w (calls w) = Fails e \<or> outcomes w (calls w) = Lost e")
    case True
    then show ?thesis by (auto simp: wp_for_each_Cons declare_one_def wp_eqs)
  next
    case False
    let ?w = "w\<lparr>calls := Suc (calls w), mem := (mem w)\<lparr>declared := ds0 @ [d]\<rparr>\<rparr>"
    from False have "wp (for_each declare_one (d # ds)) Q E w = wp (for_each declare_one ds) Q E ?w"
      for Q E
      using Cons.prems by (simp add: wp_for_each_Cons declare_one_def wp_eqs split: outcome.split)
    with Cons.IH [of ?w "ds0 @ [d]"] show ?thesis by simp
  qed
qed

section \<open>Routing over the declared topology\<close>

text \<open>
  The broker's routing, given the declarations, an exchange and a routing key: the queues a
  message lands in. The law is the AMQP rule for the two exchange types the service uses.
\<close>

type_synonym routing = "decl list \<Rightarrow> string \<Rightarrow> string \<Rightarrow> string set"

definition amqp_routing :: "routing \<Rightarrow> bool" where
  "amqp_routing route \<longleftrightarrow> (\<forall>ds ex key q. q \<in> route ds ex key \<longleftrightarrow>
     (AssertExchange ex ''fanout'' \<in> set ds \<and> (\<exists>k. BindQueue q ex k \<in> set ds)) \<or>
     (AssertExchange ex ''direct'' \<in> set ds \<and> BindQueue q ex key \<in> set ds))"

text \<open>
  Where a queue dead-letters a message: to its dead-letter exchange, with its dead-letter
  routing key, or the key the message came with.
\<close>

definition queue_args :: "decl list \<Rightarrow> string \<Rightarrow> (string \<times> string) list" where
  "queue_args ds q = concat (map (\<lambda>d. case d of AssertQueue q' args \<Rightarrow>
     (if q' = q then args else []) | _ \<Rightarrow> []) ds)"

definition dead_letter_to :: "routing \<Rightarrow> decl list \<Rightarrow> string \<Rightarrow> string \<Rightarrow> string set" where
  "dead_letter_to route ds q key =
     (case map_of (queue_args ds q) ''x-dead-letter-exchange'' of
        None \<Rightarrow> {}
      | Some ex \<Rightarrow>
          route ds ex (or_else (map_of (queue_args ds q) ''x-dead-letter-routing-key'') key))"

text \<open>The queues a message published to an exchange can ever be in, by any number of hops.\<close>

inductive can_reach :: "routing \<Rightarrow> decl list \<Rightarrow> string \<Rightarrow> string \<Rightarrow> string \<Rightarrow> bool"
  for route ds ex key where
  published: "q \<in> route ds ex key \<Longrightarrow> can_reach route ds ex key q"
| dead_lettered: "can_reach route ds ex key q \<Longrightarrow> q' \<in> dead_letter_to route ds q k \<Longrightarrow>
    can_reach route ds ex key q'"

text \<open>An executable routing function that satisfies the law.\<close>

definition amqp_route :: routing where
  "amqp_route ds ex key = set (concat (map (\<lambda>d. case d of BindQueue q ex' k \<Rightarrow>
     (if ex' = ex \<and> (AssertExchange ex ''fanout'' \<in> set ds
         \<or> AssertExchange ex ''direct'' \<in> set ds \<and> k = key) then [q] else []) | _ \<Rightarrow> []) ds))"

lemma amqp_route_ok: "amqp_routing amqp_route"
  unfolding amqp_routing_def amqp_route_def
  by (force split: decl.splits if_splits)

lemma queue_args_topology:
  "queue_args topology_decls (q_DLQ QUEUES) = [(''x-queue-type'', ''classic'')]"
  "queue_args topology_decls (q_RETRY QUEUES) =
     [(''x-dead-letter-exchange'', ex_MAIN EXCHANGES),
      (''x-dead-letter-routing-key'', rk_WORK ROUTING_KEYS)]"
  "queue_args topology_decls (q_WORK QUEUES) = [(''x-dead-letter-exchange'', ex_DLX EXCHANGES)]"
  "queue_args topology_decls (q_EVENTS_AUDIT QUEUES) = []"
  by (simp_all add: queue_args_def topology_decls_def topology_names)

lemma route_topology:
  assumes "amqp_routing route"
  shows "route topology_decls (ex_MAIN EXCHANGES) (rk_WORK ROUTING_KEYS) = {q_WORK QUEUES}"
    and "route topology_decls (ex_MAIN EXCHANGES) (rk_RETRY ROUTING_KEYS) = {q_RETRY QUEUES}"
    and "route topology_decls (ex_DLX EXCHANGES) k = {q_DLQ QUEUES}"
    and "route topology_decls (ex_EVENTS EXCHANGES) k = {q_EVENTS_AUDIT QUEUES}"
proof -
  from assms have iff: "\<And>ds ex key q. q \<in> route ds ex key \<longleftrightarrow>
     (AssertExchange ex ''fanout'' \<in> set ds \<and> (\<exists>k. BindQueue q ex k \<in> set ds)) \<or>
     (AssertExchange ex ''direct'' \<in> set ds \<and> BindQueue q ex key \<in> set ds)"
    unfolding amqp_routing_def by blast
  show "route topology_decls (ex_MAIN EXCHANGES) (rk_WORK ROUTING_KEYS) = {q_WORK QUEUES}"
    by (rule set_eqI) (simp add: iff topology_decls_def topology_names)
  show "route topology_decls (ex_MAIN EXCHANGES) (rk_RETRY ROUTING_KEYS) = {q_RETRY QUEUES}"
    by (rule set_eqI) (simp add: iff topology_decls_def topology_names)
  show "route topology_decls (ex_DLX EXCHANGES) k = {q_DLQ QUEUES}"
    by (rule set_eqI) (simp add: iff topology_decls_def topology_names)
  show "route topology_decls (ex_EVENTS EXCHANGES) k = {q_EVENTS_AUDIT QUEUES}"
    by (rule set_eqI) (simp add: iff topology_decls_def topology_names)
qed

lemma dead_letter_topology:
  assumes "amqp_routing route"
  shows "dead_letter_to route topology_decls (q_WORK QUEUES) k = {q_DLQ QUEUES}"
    and "dead_letter_to route topology_decls (q_RETRY QUEUES) k = {q_WORK QUEUES}"
    and "dead_letter_to route topology_decls (q_DLQ QUEUES) k = {}"
    and "dead_letter_to route topology_decls (q_EVENTS_AUDIT QUEUES) k = {}"
  by (simp_all add: dead_letter_to_def queue_args_topology route_topology [OF assms])

lemma events_reach_audit_only:
  assumes "amqp_routing route" and "can_reach route topology_decls (ex_EVENTS EXCHANGES) key q"
  shows "q = q_EVENTS_AUDIT QUEUES"
  using assms(2)
  by (induction rule: can_reach.induct)
    (use assms(1) in \<open>auto simp: route_topology dead_letter_topology\<close>)

section \<open>Properties\<close>

text \<open>
  C13: Routing isolation. Under any broker routing that obeys the AMQP rules, on the topology the
  service declares, a command published where \<open>resolveOutboxRoute\<close> sends it lands in the work
  queue and nowhere else, and a message of any other event type can only ever be in the audit
  queue: no number of dead-letter hops takes it to the work queue.
\<close>

theorem domain_event_never_reaches_work:
  assumes "amqp_routing route" and "r = resolveOutboxRoute eventType"
  shows "(eventType \<in> COMMAND_EVENT_TYPES \<longrightarrow>
            route topology_decls (exchange r) (routingKey r) = {q_WORK QUEUES}) \<and>
         (eventType \<notin> COMMAND_EVENT_TYPES \<longrightarrow>
            (\<forall>q. can_reach route topology_decls (exchange r) (routingKey r) q \<longleftrightarrow>
                 q = q_EVENTS_AUDIT QUEUES))"
proof (intro conjI impI allI)
  assume "eventType \<in> COMMAND_EVENT_TYPES"
  with assms show "route topology_decls (exchange r) (routingKey r) = {q_WORK QUEUES}"
    by (simp add: resolveOutboxRoute_def route_topology)
next
  fix q assume "eventType \<notin> COMMAND_EVENT_TYPES"
  with assms(2) have r: "exchange r = ex_EVENTS EXCHANGES" by (simp add: resolveOutboxRoute_def)
  show "can_reach route topology_decls (exchange r) (routingKey r) q \<longleftrightarrow> q = q_EVENTS_AUDIT QUEUES"
    unfolding r using events_reach_audit_only [OF assms(1)]
    by (auto intro: can_reach.published simp: route_topology [OF assms(1)])
qed

theorem domain_event_never_reaches_work_witness:
  "route_kind.Command = kind (resolveOutboxRoute ''CreateMessageEvent.v1'') \<and>
   amqp_route topology_decls ''messaging.direct'' ''messaging.work'' = {''messaging.work''} \<and>
   \<not> can_reach amqp_route topology_decls ''messaging.events'' [] ''messaging.work''"
  using domain_event_never_reaches_work
      [OF amqp_route_ok refl, of "''CreateMessageEvent.v1''"]
    domain_event_never_reaches_work [OF amqp_route_ok refl, of "''MessagePersisted''"]
  by (simp add: resolveOutboxRoute_def COMMAND_EVENT_TYPES_def topology_names)

text \<open>
  Dead-letter paths. A message nacked without requeue on the work queue goes to the
  dead-letter queue and nowhere else; a retry copy whose delay expires goes back to the work
  queue and nowhere else; the dead-letter queue and the audit queue dead-letter nothing, so no
  poison message circulates.
\<close>

theorem dead_letter_paths:
  assumes "amqp_routing route"
  shows "dead_letter_to route topology_decls (q_WORK QUEUES) k = {q_DLQ QUEUES} \<and>
    dead_letter_to route topology_decls (q_RETRY QUEUES) k = {q_WORK QUEUES} \<and>
    dead_letter_to route topology_decls (q_DLQ QUEUES) k = {} \<and>
    dead_letter_to route topology_decls (q_EVENTS_AUDIT QUEUES) k = {}"
  using dead_letter_topology [OF assms] by simp

theorem dead_letter_paths_witness:
  "dead_letter_to amqp_route topology_decls ''messaging.work'' ''messaging.work''
     = {''messaging.dlq''} \<and>
   dead_letter_to amqp_route topology_decls ''messaging.retry.q'' ''messaging.retry''
     = {''messaging.work''}"
  using dead_letter_paths [OF amqp_route_ok, of "''messaging.work''"]
    dead_letter_paths [OF amqp_route_ok, of "''messaging.retry''"]
  by (simp add: topology_names)

text \<open>
  The retry curve. From the first attempt on, the delay is between the base of two seconds
  and the cap of thirty seconds, never shrinks from one attempt to the next, doubles while it is
  below the cap, and is the cap from the fifth attempt on.
\<close>

theorem retry_curve:
  assumes "1 \<le> n"
  shows "2000 \<le> retryDelayMs n \<and> retryDelayMs n \<le> 30000 \<and>
    retryDelayMs n \<le> retryDelayMs (n + 1) \<and>
    (n < 4 \<longrightarrow> retryDelayMs (n + 1) = 2 * retryDelayMs n) \<and>
    (5 \<le> n \<longrightarrow> retryDelayMs n = 30000)"
  using assms
  by (simp add: retryDelayMs_ge_base retryDelayMs_le_max retryDelayMs_mono retryDelayMs_double
      retryDelayMs_cap)

theorem retry_curve_witness:
  "(1::int) \<le> 3 \<and> retryDelayMs (3 + 1) = 2 * retryDelayMs 3 \<and> retryDelayMs 3 \<le> 30000"
  using retry_curve [of 3] by simp

text \<open>
  Topology start-up. If the initialiser returns, the service has made exactly the
  declarations of its topology, in order; so an error of the broker at any point makes it throw
  and the service does not start.
\<close>

theorem topology_init_complete:
  assumes "topology_onModuleInit w = (Inr (), w')" and "declared (mem w) = []"
  shows "declared (mem w') = topology_decls"
proof -
  have loop: "wp assertTopology (\<lambda>_ w1. declared (mem w1) = topology_decls) (\<lambda>_ _. True) w0"
    if "declared (mem w0) = []" for w0
    using wp_declare_all [OF that, of topology_decls]
    unfolding assertTopology_def by (rule wp_mono) auto
  have "wp topology_onModuleInit (\<lambda>_ w1. declared (mem w1) = topology_decls) (\<lambda>_ _. True) w"
    unfolding topology_onModuleInit_def using assms(2)
    by (auto simp: wp_eqs split: outcome.split intro!: wp_mono [OF loop])
  with assms(1) show ?thesis by (auto dest: wp_result)
qed

theorem topology_init_complete_witness:
  "declared (mem (snd (topology_onModuleInit
     (start_world \<lparr>declared = [], topo_conn_open = False\<rparr>)))) = topology_decls"
proof -
  let ?w = "start_world \<lparr>declared = [], topo_conn_open = False\<rparr>"
  have "fst (topology_onModuleInit ?w) = Inr ()"
    by (simp add: topology_onModuleInit_def assertTopology_def topology_decls_def declare_one_def
        io_defs)
  then have "topology_onModuleInit ?w = (Inr (), snd (topology_onModuleInit ?w))"
    by (metis prod.collapse)
  then show ?thesis by (rule topology_init_complete) simp
qed

text \<open>
  The work queue is declared twice, with different arguments: with a dead letter exchange by the
  topology service, with none by the consumer. AMQP refuses a declaration that differs from the queue
  that exists.
\<close>

theorem work_queue_declared_differently:
  "\<exists>name args. AssertQueue name args \<in> set topology_decls \<and> consumer_decl = AssertQueue name [] \<and> args \<noteq> []"
  by (auto simp: topology_decls_def consumer_decl_def QUEUES_def)

end
