(* ===== verification/Retry_Policy.thy ===== *)
theory Retry_Policy
  imports Topology
begin

text \<open>
  \<open>libs/contracts/src/outbox/outbox-retry-policy.ts\<close>: what follows a failed publish of an
  outbox row, when a lock is stale, and the identifier of a relay instance. Times are
  milliseconds since the epoch; the reference time is an argument, as in the source.
\<close>

datatype FailureOutcome =
    Retry (nextRetryAt: int) (newAttempts: int)
  | DeadLetter (newAttempts: int)

definition computeFailureOutcome :: "int \<Rightarrow> int \<Rightarrow> int \<Rightarrow> FailureOutcome" where
  "computeFailureOutcome attemptsBefore maxAttempts now =
     (let newAttempts = attemptsBefore + 1 in
      if newAttempts \<ge> maxAttempts then DeadLetter newAttempts
      else let delayMs = retryDelayMs newAttempts
           in Retry (now + \<lfloor>delayMs\<rfloor>) newAttempts)"

text \<open>The default of \<open>maxAttempts\<close>.\<close>

definition computeFailureOutcome_default :: "int \<Rightarrow> int \<Rightarrow> FailureOutcome" where
  "computeFailureOutcome_default attemptsBefore now =
     computeFailureOutcome attemptsBefore (MAX_ATTEMPTS RETRY_CONFIG) now"

definition isLockStale :: "int \<Rightarrow> int \<Rightarrow> int \<Rightarrow> bool" where
  "isLockStale lockedAt ttlMs now \<longleftrightarrow> now - lockedAt > ttlMs"

definition hex_digit :: "nat \<Rightarrow> char" where
  "hex_digit n = (if n < 10 then char_of (48 + n) else char_of (87 + n))"

text \<open>\<open>hostname:pid:random\<close>, the random bytes in hexadecimal.\<close>

definition generateInstanceId :: "string \<Rightarrow> nat \<Rightarrow> nat list \<Rightarrow> string" where
  "generateInstanceId hostname pid bytes =
     hostname @ '':'' @ show_nat pid @ '':'' @
     concat (map (\<lambda>b. [hex_digit (b div 16), hex_digit (b mod 16)]) bytes)"

lemma newAttempts_computeFailureOutcome [simp]:
  "newAttempts (computeFailureOutcome a m t) = a + 1"
  by (simp add: computeFailureOutcome_def Let_def)

lemma computeFailureOutcome_cases:
  "(a + 1 < m \<and> computeFailureOutcome a m t = Retry (t + \<lfloor>retryDelayMs (a + 1)\<rfloor>) (a + 1)) \<or>
   (m \<le> a + 1 \<and> computeFailureOutcome a m t = DeadLetter (a + 1))"
  by (simp add: computeFailureOutcome_def Let_def)

lemma retry_delay_floor: "0 \<le> a \<Longrightarrow> 2000 \<le> \<lfloor>retryDelayMs (a + 1)\<rfloor> \<and> \<lfloor>retryDelayMs (a + 1)\<rfloor> \<le> 30000"
  using retryDelayMs_ge_base [of "a + 1"] retryDelayMs_le_max [of "a + 1"]
  by (simp add: le_floor_iff floor_le_iff)

text \<open>
  C31: The retry budget. A row with budget left is dead-lettered by a failure exactly when
  that failure is number \<open>maxAttempts\<close>; every earlier failure schedules it again, between two and
  thirty seconds later.
\<close>

theorem failure_budget:
  assumes "0 \<le> attempts" and "attempts < maxAttempts"
  shows "(computeFailureOutcome attempts maxAttempts now = DeadLetter (attempts + 1)
            \<longleftrightarrow> attempts + 1 = maxAttempts) \<and>
    (attempts + 1 < maxAttempts \<longrightarrow>
       (\<exists>t. computeFailureOutcome attempts maxAttempts now = Retry t (attempts + 1) \<and>
            now + 2000 \<le> t \<and> t \<le> now + 30000))"
  using assms retry_delay_floor [of attempts]
  by (auto simp: computeFailureOutcome_def Let_def)

theorem failure_budget_witness:
  "computeFailureOutcome 4 5 1000 = DeadLetter 5 \<and>
   computeFailureOutcome 0 5 1000 \<noteq> DeadLetter 1"
  using failure_budget [of 4 5 1000] failure_budget [of 0 5 1000] by simp

end
