(* ===== verification/Outbox_Table.thy ===== *)
theory Outbox_Table
  imports Retry_Policy "HOL-Library.Multiset"
begin

text \<open>
  The outbox table (\<open>apps/messaging/src/entities/outbox-event.entity.ts\<close>; the gateway's table has
  the same columns) and the SQL statements that the relay, the admin services and the
  transaction services run on it, each one atomic. The table is a list of rows; its order is the
  order in which the database happens to deliver rows that a query leaves unordered.
\<close>

section \<open>What a query resolves to\<close>

text \<open>
  What the database library resolves an \<open>UPDATE ... RETURNING\<close> to is a parameter: the rows, as the source
  annotates its raw queries, or the pair of the rows and their number, as TypeORM documents it for PostgreSQL
  since 0.3. \<open>found\<close> is \<open>result.length > 0\<close>, given whether a row was hit: a pair always has two elements.
\<close>

datatype driver_result = RowsOnly | RowsAndCount

definition found :: "driver_result \<Rightarrow> bool \<Rightarrow> bool" where
  "found d hit = (case d of RowsOnly \<Rightarrow> hit | RowsAndCount \<Rightarrow> True)"

section \<open>Rows\<close>

datatype OutboxStatus = Pending | Sent | Failed

record outbox_row =
  row_id :: int
  event_type :: string
  payload :: jsval
  correlation_id :: "string option"
  status :: OutboxStatus
  attempts :: int
  last_error :: "string option"
  created_at :: int
  sent_at :: "int option"
  locked_at :: "int option"
  locked_by :: "string option"
  next_retry_at :: int
  max_attempts :: int
  event_id :: "string option"
  lock_version :: int
  trace_context :: "(string \<times> string) list option"

type_synonym outbox_table = "outbox_row list"

text \<open>What \<open>claimBatch\<close> returns of a row.\<close>

record ClaimedRow =
  c_id :: int
  c_event_type :: string
  c_payload :: jsval
  c_correlation_id :: "string option"
  c_attempts :: int
  c_max_attempts :: int
  c_lock_version :: int
  c_trace_context :: "(string \<times> string) list option"
  c_event_id :: "string option"

definition returning :: "outbox_row \<Rightarrow> ClaimedRow" where
  "returning r = \<lparr>c_id = row_id r, c_event_type = event_type r, c_payload = payload r,
     c_correlation_id = correlation_id r, c_attempts = attempts r,
     c_max_attempts = max_attempts r, c_lock_version = lock_version r,
     c_trace_context = trace_context r, c_event_id = event_id r\<rparr>"

lemma returning_sel [simp]:
  "c_id (returning r) = row_id r" "c_event_type (returning r) = event_type r"
  "c_payload (returning r) = payload r" "c_correlation_id (returning r) = correlation_id r"
  "c_attempts (returning r) = attempts r" "c_max_attempts (returning r) = max_attempts r"
  "c_lock_version (returning r) = lock_version r"
  "c_trace_context (returning r) = trace_context r" "c_event_id (returning r) = event_id r"
  by (simp_all add: returning_def)

text \<open>
  An UPDATE: the rows that satisfy the condition are replaced, the others stay; and the rows it
  returns, as updated.
\<close>

definition update_where :: "(outbox_row \<Rightarrow> bool) \<Rightarrow> (outbox_row \<Rightarrow> outbox_row) \<Rightarrow>
    outbox_table \<Rightarrow> outbox_table" where
  "update_where P f t = map (\<lambda>r. if P r then f r else r) t"

definition matching :: "(outbox_row \<Rightarrow> bool) \<Rightarrow> outbox_table \<Rightarrow> outbox_table" where
  "matching P t = filter P t"

lemma length_update_where [simp]: "length (update_where P f t) = length t"
  by (simp add: update_where_def)

lemma update_where_Nil [simp]: "update_where P f [] = []"
  by (simp add: update_where_def)

lemma update_where_Cons [simp]:
  "update_where P f (r # t) = (if P r then f r else r) # update_where P f t"
  by (simp add: update_where_def)

lemma set_update_where: "set (update_where P f t) = (\<lambda>r. if P r then f r else r) ` set t"
  by (simp add: update_where_def)

lemma map_update_where:
  "(\<And>r. P r \<Longrightarrow> g (f r) = g r) \<Longrightarrow> map g (update_where P f t) = map g t"
  by (simp add: update_where_def)

lemma update_where_id: "(\<And>r. r \<in> set t \<Longrightarrow> \<not> P r) \<Longrightarrow> update_where P f t = t"
  by (induction t) auto

section \<open>The relay's statements\<close>

text \<open>
  \<open>SELECT id ... WHERE status = 'pending' AND next_retry_at <= now() ORDER BY next_retry_at ASC
  LIMIT n FOR UPDATE SKIP LOCKED\<close>: rows that a concurrent transaction has locked at this moment
  (\<open>contended\<close>) are skipped.
\<close>

definition claimable :: "int \<Rightarrow> (int \<Rightarrow> bool) \<Rightarrow> outbox_row \<Rightarrow> bool" where
  "claimable now contended r \<longleftrightarrow>
     status r = Pending \<and> next_retry_at r \<le> now \<and> \<not> contended (row_id r)"

definition select_claim_ids :: "int \<Rightarrow> (int \<Rightarrow> bool) \<Rightarrow> nat \<Rightarrow> outbox_table \<Rightarrow> int list" where
  "select_claim_ids now contended n t =
     map row_id (take n (sort_key next_retry_at (filter (claimable now contended) t)))"

definition lock_row :: "int \<Rightarrow> string \<Rightarrow> outbox_row \<Rightarrow> outbox_row" where
  "lock_row now inst r =
     r\<lparr>locked_at := Some now, locked_by := Some inst, lock_version := lock_version r + 1\<rparr>"

text \<open>The claiming UPDATE and the rows it returns.\<close>

definition sql_claim :: "int \<Rightarrow> (int \<Rightarrow> bool) \<Rightarrow> nat \<Rightarrow> string \<Rightarrow> outbox_table \<Rightarrow>
    ClaimedRow list \<times> outbox_table" where
  "sql_claim now contended n inst t =
     (let ids = select_claim_ids now contended n t;
          P = (\<lambda>r. row_id r \<in> set ids)
      in (map (\<lambda>r. returning (lock_row now inst r)) (matching P t),
          update_where P (lock_row now inst) t))"

text \<open>\<open>WHERE id = $1 AND lock_version = $2\<close>: the compare-and-swap condition.\<close>

definition cas :: "int \<Rightarrow> int \<Rightarrow> outbox_row \<Rightarrow> bool" where
  "cas i v r \<longleftrightarrow> row_id r = i \<and> lock_version r = v"

definition sent_row :: "int \<Rightarrow> outbox_row \<Rightarrow> outbox_row" where
  "sent_row now r =
     r\<lparr>status := Sent, sent_at := Some now, locked_at := None, locked_by := None\<rparr>"

definition sql_mark_sent :: "int \<Rightarrow> int \<Rightarrow> int \<Rightarrow> outbox_table \<Rightarrow> bool \<times> outbox_table" where
  "sql_mark_sent now i v t = (matching (cas i v) t \<noteq> [], update_where (cas i v) (sent_row now) t)"

definition failed_row :: "OutboxStatus \<Rightarrow> int \<Rightarrow> string \<Rightarrow> int \<Rightarrow> outbox_row \<Rightarrow> outbox_row" where
  "failed_row st n err retry_at r =
     r\<lparr>status := st, attempts := n, last_error := Some err, next_retry_at := retry_at,
       locked_at := None, locked_by := None\<rparr>"

definition sql_mark_failed :: "OutboxStatus \<Rightarrow> int \<Rightarrow> string \<Rightarrow> int \<Rightarrow> int \<Rightarrow> int \<Rightarrow> outbox_table \<Rightarrow>
    bool \<times> outbox_table" where
  "sql_mark_failed st n err retry_at i v t =
     (matching (cas i v) t \<noteq> [], update_where (cas i v) (failed_row st n err retry_at) t)"

text \<open>
  \<open>status = 'pending' AND locked_at IS NOT NULL AND locked_at < now() - ttl\<close>: the reaper.
\<close>

definition lock_expired :: "int \<Rightarrow> int \<Rightarrow> outbox_row \<Rightarrow> bool" where
  "lock_expired now ttl r \<longleftrightarrow> status r = Pending \<and>
     (case locked_at r of None \<Rightarrow> False | Some l \<Rightarrow> l < now - ttl)"

definition unlock_row :: "outbox_row \<Rightarrow> outbox_row" where
  "unlock_row r = r\<lparr>locked_at := None, locked_by := None\<rparr>"

definition sql_reap :: "int \<Rightarrow> int \<Rightarrow> outbox_table \<Rightarrow> nat \<times> outbox_table" where
  "sql_reap now ttl t =
     (length (matching (lock_expired now ttl) t), update_where (lock_expired now ttl) unlock_row t)"

definition sql_count_pending :: "outbox_table \<Rightarrow> nat" where
  "sql_count_pending t = length (matching (\<lambda>r. status r = Pending) t)"

section \<open>The operator's statements\<close>

definition replay_row :: "int \<Rightarrow> outbox_row \<Rightarrow> outbox_row" where
  "replay_row now r = r\<lparr>status := Pending, attempts := 0, next_retry_at := now,
     locked_at := None, locked_by := None\<rparr>"

definition sql_replay :: "(outbox_row \<Rightarrow> bool) \<Rightarrow> int \<Rightarrow> outbox_table \<Rightarrow> int list \<times> outbox_table" where
  "sql_replay P now t = (map row_id (matching P t), update_where P (replay_row now) t)"

definition failed_with_id :: "int \<Rightarrow> outbox_row \<Rightarrow> bool" where
  "failed_with_id i r \<longleftrightarrow> row_id r = i \<and> status r = Failed"

definition failed_of_type :: "string option \<Rightarrow> outbox_row \<Rightarrow> bool" where
  "failed_of_type ty r \<longleftrightarrow> status r = Failed \<and>
     (case ty of None \<Rightarrow> True | Some s \<Rightarrow> event_type r = s)"

section \<open>Facts about the statements\<close>

lemma row_id_updates [simp]:
  "row_id (lock_row now inst r) = row_id r" "row_id (sent_row now r) = row_id r"
  "row_id (failed_row st n e a r) = row_id r" "row_id (unlock_row r) = row_id r"
  "row_id (replay_row now r) = row_id r"
  by (simp_all add: lock_row_def sent_row_def failed_row_def unlock_row_def replay_row_def)

lemma lock_version_updates [simp]:
  "lock_version (lock_row now inst r) = lock_version r + 1"
  "lock_version (sent_row now r) = lock_version r"
  "lock_version (failed_row st n e a r) = lock_version r"
  "lock_version (unlock_row r) = lock_version r"
  "lock_version (replay_row now r) = lock_version r"
  by (simp_all add: lock_row_def sent_row_def failed_row_def unlock_row_def replay_row_def)

lemma status_updates [simp]:
  "status (lock_row now inst r) = status r" "status (sent_row now r) = Sent"
  "status (failed_row st n e a r) = st" "status (unlock_row r) = status r"
  "status (replay_row now r) = Pending"
  by (simp_all add: lock_row_def sent_row_def failed_row_def unlock_row_def replay_row_def)

lemma attempts_updates [simp]:
  "attempts (lock_row now inst r) = attempts r" "attempts (sent_row now r) = attempts r"
  "attempts (failed_row st n e a r) = n" "attempts (unlock_row r) = attempts r"
  "attempts (replay_row now r) = 0"
  "max_attempts (lock_row now inst r) = max_attempts r"
  "max_attempts (sent_row now r) = max_attempts r"
  "max_attempts (failed_row st n e a r) = max_attempts r"
  "max_attempts (unlock_row r) = max_attempts r"
  "max_attempts (replay_row now r) = max_attempts r"
  by (simp_all add: lock_row_def sent_row_def failed_row_def unlock_row_def replay_row_def)

lemma retry_updates [simp]:
  "next_retry_at (lock_row now inst r) = next_retry_at r"
  "next_retry_at (unlock_row r) = next_retry_at r"
  "next_retry_at (replay_row now r) = now"
  "next_retry_at (failed_row st n e a r) = a"
  "locked_at (lock_row now inst r) = Some now" "locked_at (unlock_row r) = None"
  by (simp_all add: lock_row_def sent_row_def failed_row_def unlock_row_def replay_row_def)

text \<open>What the business wrote into a row, which no later statement changes.\<close>

definition content :: "outbox_row \<Rightarrow> string \<times> jsval \<times> string option \<times> string option
    \<times> (string \<times> string) list option" where
  "content r = (event_type r, payload r, correlation_id r, event_id r, trace_context r)"

lemma content_updates [simp]:
  "content (lock_row now inst r) = content r" "content (sent_row now r) = content r"
  "content (failed_row st n e a r) = content r" "content (unlock_row r) = content r"
  "content (replay_row now r) = content r"
  by (simp_all add: content_def lock_row_def sent_row_def failed_row_def unlock_row_def
      replay_row_def)

definition key_of :: "outbox_row \<Rightarrow> int \<times> int" where
  "key_of r = (row_id r, lock_version r)"

lemma ids_update_where [simp]:
  "map row_id (snd (sql_claim now c n inst t)) = map row_id t"
  "map row_id (snd (sql_mark_sent now i v t)) = map row_id t"
  "map row_id (snd (sql_mark_failed st k e a i v t)) = map row_id t"
  "map row_id (snd (sql_reap now ttl t)) = map row_id t"
  "map row_id (snd (sql_replay P now t)) = map row_id t"
  by (simp_all add: sql_claim_def sql_mark_sent_def sql_mark_failed_def sql_reap_def
      sql_replay_def map_update_where Let_def)

lemma contents_update_where:
  "map content (snd (sql_claim now c n inst t)) = map content t"
  "map content (snd (sql_mark_sent now i v t)) = map content t"
  "map content (snd (sql_mark_failed st k e a i v t)) = map content t"
  "map content (snd (sql_reap now ttl t)) = map content t"
  "map content (snd (sql_replay P now t)) = map content t"
  by (simp_all add: sql_claim_def sql_mark_sent_def sql_mark_failed_def sql_reap_def
      sql_replay_def map_update_where Let_def)

lemma length_select_claim_ids: "length (select_claim_ids now c n t) \<le> n"
  by (simp add: select_claim_ids_def)

lemma select_claim_ids_claimable:
  "i \<in> set (select_claim_ids now c n t) \<Longrightarrow> \<exists>r\<in>set t. row_id r = i \<and> claimable now c r"
proof -
  assume "i \<in> set (select_claim_ids now c n t)"
  then obtain r where "r \<in> set (take n (sort_key next_retry_at (filter (claimable now c) t)))"
    and i: "i = row_id r"
    by (auto simp: select_claim_ids_def)
  then have "r \<in> set (sort_key next_retry_at (filter (claimable now c) t))"
    by (blast dest: in_set_takeD)
  with i show ?thesis by auto
qed

lemma distinct_ids_row: "distinct (map row_id t) \<Longrightarrow> r \<in> set t \<Longrightarrow> r' \<in> set t \<Longrightarrow>
    row_id r = row_id r' \<Longrightarrow> r = r'"
  by (auto simp: distinct_map inj_on_def)

lemma distinct_map_sort_key: "distinct (map f xs) \<Longrightarrow> distinct (map f (sort_key k xs))"
proof -
  assume "distinct (map f xs)"
  moreover have "mset (map f (sort_key k xs)) = mset (map f xs)" by simp
  ultimately show ?thesis by (metis mset_eq_imp_distinct_iff)
qed

lemma distinct_select_claim_ids:
  assumes "distinct (map row_id t)"
  shows "distinct (select_claim_ids now c n t)"
proof -
  have "distinct (map row_id (filter (claimable now c) t))"
    using assms by (rule distinct_map_filter)
  then have "distinct (map row_id (sort_key next_retry_at (filter (claimable now c) t)))"
    by (rule distinct_map_sort_key)
  then show ?thesis by (simp add: select_claim_ids_def take_map [symmetric] distinct_take)
qed

lemma claimed_ids_map:
  "map c_id (fst (sql_claim now c n inst t)) =
     map row_id (filter (\<lambda>r. row_id r \<in> set (select_claim_ids now c n t)) t)"
  by (simp add: sql_claim_def Let_def matching_def)

lemma matching_ids:
  assumes "distinct (map row_id t)" and "set ids \<subseteq> row_id ` set t" and "distinct ids"
  shows "length (filter (\<lambda>r. row_id r \<in> set ids) t) = length ids"
proof -
  let ?f = "filter (\<lambda>r. row_id r \<in> set ids) t"
  have d: "distinct (map row_id ?f)" using assms(1) by (rule distinct_map_filter)
  have "set (map row_id ?f) = set ids" using assms(2) by auto
  with d assms(3) have "length (map row_id ?f) = length ids"
    by (metis distinct_card)
  then show ?thesis by simp
qed

text \<open>A claim takes as many due, uncontended rows as the batch allows.\<close>

lemma length_sql_claim:
  assumes "distinct (map row_id t)"
  shows "length (fst (sql_claim now c n inst t)) = min n (length (filter (claimable now c) t))"
proof -
  have "set (select_claim_ids now c n t) \<subseteq> row_id ` set t"
    by (auto dest: select_claim_ids_claimable)
  from matching_ids [OF assms this distinct_select_claim_ids [OF assms]]
  show ?thesis by (simp add: sql_claim_def Let_def matching_def select_claim_ids_def min.commute)
qed

lemma sql_claim_row:
  assumes "cr \<in> set (fst (sql_claim now c n inst t))"
  obtains r where "r \<in> set t" "row_id r \<in> set (select_claim_ids now c n t)"
    "cr = returning (lock_row now inst r)"
  using assms by (auto simp: sql_claim_def Let_def matching_def)

text \<open>With distinct identifiers a compare-and-swap touches one row at most.\<close>

lemma mark_sent_other:
  "r \<in> set t \<Longrightarrow> \<not> cas i v r \<Longrightarrow> r \<in> set (snd (sql_mark_sent now i v t))"
  by (force simp: sql_mark_sent_def set_update_where)

lemma mark_sent_fenced:
  "\<not> fst (sql_mark_sent now i v t) \<Longrightarrow> snd (sql_mark_sent now i v t) = t"
  by (auto simp: sql_mark_sent_def matching_def filter_empty_conv intro: update_where_id)

lemma mark_failed_fenced:
  "\<not> fst (sql_mark_failed st n e a i v t) \<Longrightarrow> snd (sql_mark_failed st n e a i v t) = t"
  by (auto simp: sql_mark_failed_def matching_def filter_empty_conv intro: update_where_id)

text \<open>The lock version of a row, by identifier.\<close>

definition version_of :: "outbox_table \<Rightarrow> int \<Rightarrow> int option" where
  "version_of t i = map_of (map key_of t) i"

lemma version_of_row:
  "distinct (map row_id t) \<Longrightarrow> r \<in> set t \<Longrightarrow> version_of t (row_id r) = Some (lock_version r)"
  unfolding version_of_def key_of_def by (intro map_of_is_SomeI) (auto simp: comp_def)

lemma version_of_update_where:
  "(\<And>r. P r \<Longrightarrow> row_id (f r) = row_id r \<and> lock_version (f r) = lock_version r) \<Longrightarrow>
     version_of (update_where P f t) i = version_of t i"
proof -
  assume "\<And>r. P r \<Longrightarrow> row_id (f r) = row_id r \<and> lock_version (f r) = lock_version r"
  then have "map key_of (update_where P f t) = map key_of t"
    by (simp add: map_update_where key_of_def)
  then show ?thesis by (simp add: version_of_def)
qed

lemma version_of_claim:
  "version_of (snd (sql_claim now c n inst t)) i =
     (if i \<in> set (select_claim_ids now c n t)
      then map_option (\<lambda>v. v + 1) (version_of t i) else version_of t i)"
proof -
  define ids where "ids = set (select_claim_ids now c n t)"
  have "version_of (update_where (\<lambda>r. row_id r \<in> ids) (lock_row now inst) t) i =
     (if i \<in> ids then map_option (\<lambda>v. v + 1) (version_of t i) else version_of t i)"
    by (induction t) (auto simp: version_of_def key_of_def)
  then show ?thesis by (simp add: sql_claim_def Let_def ids_def)
qed

lemma version_of_iff:
  assumes "distinct (map row_id t)"
  shows "version_of t i = Some v \<longleftrightarrow> (\<exists>r\<in>set t. row_id r = i \<and> lock_version r = v)"
proof
  assume "version_of t i = Some v"
  then show "\<exists>r\<in>set t. row_id r = i \<and> lock_version r = v"
    by (auto simp: version_of_def key_of_def dest!: map_of_SomeD)
next
  assume "\<exists>r\<in>set t. row_id r = i \<and> lock_version r = v"
  then show "version_of t i = Some v" using version_of_row [OF assms] by blast
qed

lemma cas_version:
  "distinct (map row_id t) \<Longrightarrow> fst (sql_mark_sent now i v t) \<longleftrightarrow> version_of t i = Some v"
  by (auto simp: sql_mark_sent_def matching_def cas_def filter_empty_conv version_of_iff)

lemma cas_version_failed:
  "distinct (map row_id t) \<Longrightarrow> fst (sql_mark_failed st n e a i v t) \<longleftrightarrow> version_of t i = Some v"
  using cas_version [of t 0 i v] by (simp add: sql_mark_sent_def sql_mark_failed_def)

text \<open>The batch is the oldest part of what is due.\<close>

lemma sorted_take_drop_le:
  assumes "sorted (map k xs)" and "x \<in> set (take n xs)" and "y \<in> set (drop n xs)"
  shows "k x \<le> k y"
proof -
  have "sorted (map k (take n xs) @ map k (drop n xs))"
    using assms(1) by (simp flip: map_append)
  with assms(2,3) show ?thesis by (auto simp: sorted_append)
qed

lemma claim_oldest_first:
  assumes "row_id r \<in> set (select_claim_ids now c n t)" and "r \<in> set t"
    and "distinct (map row_id t)"
    and "r' \<in> set t" and "claimable now c r'" and "row_id r' \<notin> set (select_claim_ids now c n t)"
  shows "next_retry_at r \<le> next_retry_at r'"
proof -
  let ?s = "sort_key next_retry_at (filter (claimable now c) t)"
  from assms(1) obtain q where q: "q \<in> set (take n ?s)" "row_id q = row_id r"
    by (auto simp: select_claim_ids_def)
  then have "q \<in> set t" by (auto dest!: in_set_takeD)
  with q(2) assms(2,3) have "q = r" by (blast intro: distinct_ids_row)
  have "r' \<in> set ?s" using assms(4,5) by simp
  then have "r' \<in> set (take n ?s) \<or> r' \<in> set (drop n ?s)"
    by (metis append_take_drop_id Un_iff set_append)
  with assms(6) have "r' \<in> set (drop n ?s)" by (auto simp: select_claim_ids_def)
  with q(1) \<open>q = r\<close> show ?thesis
    by (intro sorted_take_drop_le [of next_retry_at ?s _ n]) auto
qed

lemma select_claim_ids_row:
  assumes "row_id r \<in> set (select_claim_ids now c n t)" and "r \<in> set t"
    and "distinct (map row_id t)"
  shows "claimable now c r"
  using select_claim_ids_claimable [OF assms(1)] distinct_ids_row [OF assms(3,2)] by metis

section \<open>Insertion\<close>

text \<open>A row as INSERT makes it: what the writer gives, and the column defaults.\<close>

definition new_outbox_row :: "int \<Rightarrow> int \<Rightarrow> string \<Rightarrow> jsval \<Rightarrow> string option \<Rightarrow> string option \<Rightarrow>
    (string \<times> string) list option \<Rightarrow> outbox_row" where
  "new_outbox_row now i ty pl corr eid tc = \<lparr>row_id = i, event_type = ty, payload = pl,
     correlation_id = corr, status = Pending, attempts = 0, last_error = None, created_at = now,
     sent_at = None, locked_at = None, locked_by = None, next_retry_at = now, max_attempts = 5,
     event_id = eid, lock_version = 0, trace_context = tc\<rparr>"

lemma new_outbox_row_sel [simp]:
  "row_id (new_outbox_row now i ty pl corr eid tc) = i"
  "status (new_outbox_row now i ty pl corr eid tc) = Pending"
  "attempts (new_outbox_row now i ty pl corr eid tc) = 0"
  "max_attempts (new_outbox_row now i ty pl corr eid tc) = 5"
  "lock_version (new_outbox_row now i ty pl corr eid tc) = 0"
  "event_id (new_outbox_row now i ty pl corr eid tc) = eid"
  "event_type (new_outbox_row now i ty pl corr eid tc) = ty"
  "payload (new_outbox_row now i ty pl corr eid tc) = pl"
  "correlation_id (new_outbox_row now i ty pl corr eid tc) = corr"
  "trace_context (new_outbox_row now i ty pl corr eid tc) = tc"
  by (simp_all add: new_outbox_row_def)

end
