(* ===== verification/Tracing.thy ===== *)
theory Tracing
  imports Prelude
begin

text \<open>
  Trace-context propagation over AMQP headers, \<open>libs/common/src/tracing/amqp-propagation.ts\<close>.
  What the OpenTelemetry propagator injects is the world's \<open>otel_inject\<close>; \<open>ctx\<close> is the carrier of
  the context in force, \<open>None\<close> for the ambient one.
\<close>

type_synonym carrier = "(string \<times> string) list"

definition injectTraceContext :: "carrier option \<Rightarrow> (string \<times> jsval) list \<Rightarrow>
    ('d, (string \<times> jsval) list) io" where
  "injectTraceContext ctx headers =
     (\<lambda>w. (Inr (spread headers (map (\<lambda>(k, v). (k, JStr v)) (otel_inject w ctx))), w))"

definition captureTraceContextCarrier :: "('d, carrier) io" where
  "captureTraceContextCarrier = (\<lambda>w. (Inr (otel_inject w None), w))"

text \<open>The carrier \<open>extractTraceContext\<close> hands to the propagator: the string-valued headers.\<close>

fun extractTraceContext :: "(string \<times> jsval) list \<Rightarrow> carrier" where
  "extractTraceContext [] = []"
| "extractTraceContext ((k, v) # kvs) =
     (case as_string v of None \<Rightarrow> extractTraceContext kvs
      | Some s \<Rightarrow> (k, s) # extractTraceContext kvs)"

lemma extractTraceContext_strings [simp]:
  "extractTraceContext (map (\<lambda>(k, v). (k, JStr v)) c) = c"
  by (induction c) auto

lemma wp_injectTraceContext [wp_eqs]:
  "wp (injectTraceContext ctx hs) Q E w \<longleftrightarrow>
     Q (spread hs (map (\<lambda>(k, v). (k, JStr v)) (otel_inject w ctx))) w"
  by (simp add: wp_def injectTraceContext_def)

lemma wp_captureTraceContextCarrier [wp_eqs]:
  "wp captureTraceContextCarrier Q E w \<longleftrightarrow> Q (otel_inject w None) w"
  by (simp add: wp_def captureTraceContextCarrier_def)

end
