(* ===== verification/Amqp_Client.thy ===== *)
theory Amqp_Client
  imports Tracing
begin

text \<open>
  The lazily connected publisher that the two outbox relays and the retry publisher keep
  (\<open>getChannel\<close>, \<open>connectAmqp\<close>/\<open>connect\<close>, \<open>closeAmqp\<close>/\<open>onModuleDestroy\<close> of
  \<open>apps/messaging/src/outbox/outbox-relay.service.ts\<close>,
  \<open>apps/gateway/src/outbox/gateway-outbox-relay.service.ts\<close> and
  \<open>apps/messaging/src/reliability/retry-publisher.service.ts\<close>): the memory each of them extends,
  and the calls on a confirm channel of amqplib. A connection is named by its number, and so is
  the one channel opened on it.
\<close>

record amqp_message =
  m_exchange :: string
  m_routingKey :: string
  m_body :: jsval
  m_persistent :: bool
  m_contentType :: string
  m_expiration :: "string option"
  m_headers :: "(string \<times> jsval) list"

text \<open>
  \<open>connecting\<close> is the cached promise, once settled; \<open>handlers\<close> are the connections that have
  \<open>error\<close> and \<open>close\<close> handlers; \<open>published\<close> is what was written to a channel, in order, and
  \<open>confirmed\<close> what the broker has confirmed of it.
\<close>

record amqp_client =
  amqpConnection :: "nat option"
  amqpChannel :: "nat option"
  connecting :: "(jsval + unit) option"
  handlers :: "nat list"
  opened_conns :: nat
  published :: "(nat \<times> amqp_message) list"
  unconfirmed :: "(nat \<times> amqp_message) list"
  confirmed :: "(nat \<times> amqp_message) list"

definition amqp_client_init :: amqp_client where
  "amqp_client_init = \<lparr>amqpConnection = None, amqpChannel = None, connecting = None,
     handlers = [], opened_conns = 0, published = [], unconfirmed = [], confirmed = []\<rparr>"

section \<open>Connecting\<close>

text \<open>\<open>amqplib.connect(url)\<close>: a new connection, or an error.\<close>

definition amqp_connect :: "('a amqp_client_scheme, nat) io" where
  "amqp_connect = andThen external
     (bind (gets opened_conns) (\<lambda>c.
        andThen (modify (\<lambda>m. m\<lparr>opened_conns := Suc c\<rparr>)) (ret c)))"

text \<open>
  The handlers are registered last, when the confirm channel exists: a connection whose
  \<open>createConfirmChannel\<close> fails is kept without them.
\<close>

definition connectAmqp :: "('a amqp_client_scheme, unit) io" where
  "connectAmqp = bind amqp_connect (\<lambda>conn.
     andThen (modify (\<lambda>m. m\<lparr>amqpConnection := Some conn\<rparr>))
       (andThen external
         (andThen (modify (\<lambda>m. m\<lparr>amqpChannel := Some conn\<rparr>))
           (modify (\<lambda>m. m\<lparr>handlers := conn # handlers m\<rparr>)))))"

text \<open>The handlers' \<open>reset\<close>, when the connection \<open>conn\<close> errs or closes.\<close>

definition connection_lost :: "nat \<Rightarrow> 'a amqp_client_scheme \<Rightarrow> 'a amqp_client_scheme" where
  "connection_lost conn m =
     (if conn \<in> set (handlers m)
      then m\<lparr>amqpChannel := None, amqpConnection := None, connecting := None\<rparr> else m)"

text \<open>A promise that is kept in a field, and \<open>await\<close> on it.\<close>

definition settle :: "('d, unit) io \<Rightarrow> ('d, jsval + unit) io" where
  "settle p = catching (andThen p (ret (Inr ()))) (\<lambda>e. ret (Inl e))"

definition await :: "jsval + unit \<Rightarrow> ('d, unit) io" where
  "await r = (case r of Inl e \<Rightarrow> throw e | Inr _ \<Rightarrow> ret ())"

definition getChannel :: "('a amqp_client_scheme, nat option) io" where
  "getChannel = bind (gets amqpChannel) (\<lambda>ch.
     case ch of
       Some c \<Rightarrow> ret (Some c)
     | None \<Rightarrow> bind (gets connecting) (\<lambda>p.
         case p of
           Some r \<Rightarrow> andThen (await r) (gets amqpChannel)
         | None \<Rightarrow> bind (settle connectAmqp) (\<lambda>r.
             andThen (modify (\<lambda>m. m\<lparr>connecting := Some r\<rparr>))
               (andThen (await r) (gets amqpChannel)))))"

text \<open>\<open>closeAmqp\<close>: each handle is closed if there is one; an error ends it silently.\<close>

definition closeAmqp :: "('a amqp_client_scheme, unit) io" where
  "closeAmqp = catching
     (bind (gets amqpChannel) (\<lambda>ch.
        andThen (when_do (ch \<noteq> None) (andThen external (ret ())))
          (bind (gets amqpConnection) (\<lambda>conn.
             when_do (conn \<noteq> None) (andThen external (ret ()))))))
     (\<lambda>_. ret ())"

section \<open>The confirm channel\<close>

text \<open>
  \<open>ch.publish(...)\<close> is synchronous: it throws on a channel that is closed, or buffers the message
  and returns whether the buffer has room left; a message reported as \<open>false\<close> is buffered as
  well. On \<open>undefined\<close> the method call throws.
\<close>

definition ch_publish :: "nat option \<Rightarrow> amqp_message \<Rightarrow> ('a amqp_client_scheme, bool) io" where
  "ch_publish ch msg = (case ch of
       None \<Rightarrow> throw type_error
     | Some c \<Rightarrow> bind external (\<lambda>ok.
         andThen (modify (\<lambda>m. m\<lparr>published := published m @ [(c, msg)],
                                unconfirmed := unconfirmed m @ [(c, msg)]\<rparr>))
           (ret ok)))"

text \<open>\<open>ch.waitForConfirms()\<close>: everything written to the channel so far is confirmed.\<close>

definition ch_waitForConfirms :: "nat option \<Rightarrow> ('a amqp_client_scheme, unit) io" where
  "ch_waitForConfirms ch = (case ch of
       None \<Rightarrow> throw type_error
     | Some c \<Rightarrow> request (\<lambda>_ m.
         (Inr (), m\<lparr>confirmed := confirmed m @ filter (\<lambda>p. fst p = c) (unconfirmed m),
                    unconfirmed := filter (\<lambda>p. fst p \<noteq> c) (unconfirmed m)\<rparr>)))"

section \<open>Facts\<close>

lemma wp_await [wp_eqs]:
  "wp (await r) Q E w \<longleftrightarrow> (case r of Inl e \<Rightarrow> E e w | Inr _ \<Rightarrow> Q () w)"
  by (cases r) (simp_all add: await_def wp_eqs)

lemma wp_settle [wp_eqs]:
  "wp (settle p) Q E w \<longleftrightarrow> wp p (\<lambda>_. Q (Inr ())) (\<lambda>e. Q (Inl e)) w"
  by (simp add: settle_def wp_def io_defs split: prod.split sum.split)

text \<open>
  The part of a client that connecting leaves alone: what was published and confirmed, and all
  that an extension of the record adds.
\<close>

definition same_log :: "'a amqp_client_scheme \<Rightarrow> 'a amqp_client_scheme \<Rightarrow> bool" where
  "same_log m m' \<longleftrightarrow> published m' = published m \<and> unconfirmed m' = unconfirmed m \<and>
     confirmed m' = confirmed m \<and> amqp_client.more m' = amqp_client.more m"

lemma same_log_refl [simp]: "same_log m m"
  by (simp add: same_log_def)

lemma same_log_trans: "same_log a b \<Longrightarrow> same_log b c \<Longrightarrow> same_log a c"
  by (simp add: same_log_def)

lemma same_log_updates [simp]:
  "same_log m (m'\<lparr>amqpConnection := a\<rparr>) = same_log m m'"
  "same_log m (m'\<lparr>amqpChannel := a\<rparr>) = same_log m m'"
  "same_log m (m'\<lparr>connecting := p\<rparr>) = same_log m m'"
  "same_log m (m'\<lparr>handlers := hs\<rparr>) = same_log m m'"
  "same_log m (m'\<lparr>opened_conns := k\<rparr>) = same_log m m'"
  by (simp_all add: same_log_def)

text \<open>
  \<open>getChannel\<close> only touches the connection state, and makes no UUID; on success the channel it
  returns is the cached one.
\<close>

lemma getChannel_frame:
  "wp getChannel
     (\<lambda>ch w'. same_log (mem w) (mem w') \<and> ch = amqpChannel (mem w') \<and> otel_inject w' = otel_inject w
        \<and> outcomes w' = outcomes w \<and> clock w' = clock w)
     (\<lambda>e w'. same_log (mem w) (mem w') \<and> otel_inject w' = otel_inject w
        \<and> outcomes w' = outcomes w \<and> clock w' = clock w) w"
  by (simp add: getChannel_def connectAmqp_def amqp_connect_def wp_eqs split: option.split sum.split
      outcome.split)

text \<open>
  The client is usable when it has a channel, or has never tried to connect, or its cached
  promise is resolved and the channel is there.
\<close>

definition stuck :: "'a amqp_client_scheme \<Rightarrow> jsval \<Rightarrow> bool" where
  "stuck m e \<longleftrightarrow> amqpChannel m = None \<and> connecting m = Some (Inl e)"

lemma getChannel_stuck: "stuck (mem w) e \<Longrightarrow> getChannel w = (Inl e, w)"
  by (simp add: getChannel_def stuck_def io_defs await_def)

lemma getChannel_cached: "amqpChannel (mem w) = Some c \<Longrightarrow> getChannel w = (Inr (Some c), w)"
  by (simp add: getChannel_def io_defs)

lemma getChannel_fails:
  "amqpChannel (mem w) = None \<Longrightarrow> connecting (mem w) = None \<Longrightarrow>
   wp getChannel (\<lambda>ch w'. ch \<noteq> None) (\<lambda>e w'. stuck (mem w') e \<and> handlers (mem w') = handlers (mem w)) w"
  by (simp add: getChannel_def connectAmqp_def amqp_connect_def wp_eqs stuck_def split: outcome.split)

text \<open>
  C35: A failed first connect is final. When the first attempt to connect fails, the rejected
  promise stays cached: every later request for the channel fails with the same error, without
  one call to the broker, however the broker does by then. No handler was registered for the
  failed attempt, so no event of a connection clears it either.
\<close>

theorem failed_connect_is_final:
  assumes "mem w = amqp_client_init" and "getChannel w = (Inl e, w1)" and "mem w2 = mem w1"
  shows "getChannel w2 = (Inl e, w2) \<and> (\<forall>conn. connection_lost conn (mem w2) = mem w2)"
proof -
  have "wp getChannel (\<lambda>ch w'. ch \<noteq> None) (\<lambda>e w'. stuck (mem w') e \<and> handlers (mem w') = []) w"
    using getChannel_fails [of w] assms(1) by (simp add: amqp_client_init_def)
  from wp_error [OF this assms(2)] assms(3)
  show ?thesis by (simp add: getChannel_stuck connection_lost_def)
qed

definition refused_world :: "amqp_client world" where
  "refused_world = (start_world amqp_client_init)\<lparr>outcomes := \<lambda>n.
     if n = 0 then Fails (new_Error ''ECONNREFUSED'') else Done\<rparr>"

theorem failed_connect_is_final_witness:
  "let w1 = snd (getChannel refused_world)
   in fst (getChannel w1) = Inl (new_Error ''ECONNREFUSED'') \<and> calls (snd (getChannel w1)) = 1"
proof -
  let ?e = "new_Error ''ECONNREFUSED''"
  let ?w1 = "refused_world\<lparr>calls := 1, mem := amqp_client_init\<lparr>connecting := Some (Inl ?e)\<rparr>\<rparr>"
  have run: "getChannel refused_world = (Inl ?e, ?w1)"
    by (simp add: refused_world_def getChannel_def connectAmqp_def amqp_connect_def settle_def
        await_def io_defs amqp_client_init_def start_world_def)
  have "mem refused_world = amqp_client_init" by (simp add: refused_world_def)
  from failed_connect_is_final [OF this run refl] run show ?thesis by simp
qed

end
