(* ===== verification/Outbox_Relay.thy ===== *)
theory Outbox_Relay
  imports Outbox_Table Amqp_Client
begin

text \<open>
  The outbox relay, \<open>apps/messaging/src/outbox/outbox-relay.service.ts\<close>: poll the table, publish
  each claimed row on a confirm channel, mark it sent or failed. The gateway's relay
  (\<open>apps/gateway/src/outbox/gateway-outbox-relay.service.ts\<close>) is the same class over other
  configuration keys, another header name and another metric label; what differs is the
  argument \<open>relay_params\<close>, and the last section instantiates it for both services.

  What an \<open>UPDATE ... RETURNING\<close> resolves to is the parameter \<open>pg_update\<close>: the rows, as the source
  annotates it, or the pair of the rows and their number, as TypeORM documents it. \<open>markSent\<close> and
  \<open>markFailedAttempt\<close> read its length, and \<open>runRelayTick\<close> loops over what the claim resolved to.
\<close>

section \<open>Parameters and state\<close>

record relay_params =
  service_label :: string
  id_header :: string
  what_row :: string
  key_POLL :: string
  key_BATCH :: string
  key_LOCK_TTL :: string
  key_GAUGE :: string
  key_REAPER :: string

definition DEFAULT_POLL_INTERVAL_MS :: int where
  "DEFAULT_POLL_INTERVAL_MS = 5000"

definition DEFAULT_BATCH_SIZE :: int where
  "DEFAULT_BATCH_SIZE = 25"

definition DEFAULT_LOCK_TTL_MS :: int where
  "DEFAULT_LOCK_TTL_MS = 60000"

definition DEFAULT_GAUGE_REFRESH_MS :: int where
  "DEFAULT_GAUGE_REFRESH_MS = 10000"

definition DEFAULT_REAPER_INTERVAL_MS :: int where
  "DEFAULT_REAPER_INTERVAL_MS = 30000"


text \<open>
  The service: its AMQP client, the table it polls, what the driver resolves an update to and the rows other
  transactions hold locks on at the moment, its configuration, its identifier, its timers and the metrics it reported.
\<close>

record relay_mem = amqp_client +
  table :: outbox_table
  pg_update :: driver_result
  contended :: "int \<Rightarrow> bool"
  config :: "(string \<times> string) list"
  instanceId :: string
  timers :: "(string \<times> int) list"
  metrics :: "metric_event list"

text \<open>\<open>cfg\<close>: a missing, empty or unreadable setting falls back to the default.\<close>

definition cfg :: "(string \<times> string) list \<Rightarrow> string \<Rightarrow> int \<Rightarrow> int" where
  "cfg conf key dflt = (case map_of conf key of
       None \<Rightarrow> dflt
     | Some raw \<Rightarrow> if raw = '''' then dflt
                  else (case js_parseInt raw of None \<Rightarrow> dflt | Some n \<Rightarrow> n))"

definition report :: "metric_event \<Rightarrow> (relay_mem, unit) io" where
  "report ev = modify (\<lambda>m. m\<lparr>metrics := metrics m @ [ev]\<rparr>)"

section \<open>Statements\<close>

text \<open>PostgreSQL refuses a negative LIMIT.\<close>

definition limit_error :: jsval where
  "limit_error = JErr ''QueryFailedError''
     [(''message'', JStr ''LIMIT must not be negative''), (''code'', JStr ''2201W'')]"

text \<open>\<open>claimBatch\<close>, given as the rows the statement returns; what they arrive in is added in \<open>loop_items\<close>.\<close>

definition claimBatch :: "relay_params \<Rightarrow> (relay_mem, ClaimedRow list) io" where
  "claimBatch P = bind (gets (\<lambda>m. cfg (config m) (key_BATCH P) DEFAULT_BATCH_SIZE)) (\<lambda>batchSize.
     request (\<lambda>now m.
       if batchSize < 0 then (Inl limit_error, m)
       else let (rows, t) = sql_claim now (contended m) (nat batchSize) (instanceId m) (table m)
            in (Inr rows, m\<lparr>table := t\<rparr>)))"

definition markSent :: "int \<Rightarrow> int \<Rightarrow> (relay_mem, bool) io" where
  "markSent i expectedLockVersion = request (\<lambda>now m.
     let (hit, t) = sql_mark_sent now i expectedLockVersion (table m) in (Inr (found (pg_update m) hit), m\<lparr>table := t\<rparr>))"

text \<open>
  \<open>markFailedAttempt\<close>: the outcome is computed at the service's clock; the compare-and-swap that
  records it may itself fail, and then the error leaves the method.
\<close>

definition markFailedAttempt :: "relay_params \<Rightarrow> ClaimedRow \<Rightarrow> jsval \<Rightarrow> (relay_mem, unit) io" where
  "markFailedAttempt P row err = bind now_ms (\<lambda>now.
     let errMsg = err_message err;
         outcome = computeFailureOutcome (c_attempts row) (c_max_attempts row) now;
         newStatus = (case outcome of DeadLetter _ \<Rightarrow> Failed | Retry _ _ \<Rightarrow> Pending);
         nextRetryAt = (case outcome of Retry t _ \<Rightarrow> t | DeadLetter _ \<Rightarrow> now)
     in bind (request (\<lambda>_ m.
               let (hit, t) = sql_mark_failed newStatus (newAttempts outcome) errMsg nextRetryAt
                                (c_id row) (c_lock_version row) (table m)
               in (Inr (found (pg_update m) hit), m\<lparr>table := t\<rparr>)))
          (\<lambda>stillOwned.
             when_do (\<not> stillOwned)
               (report (Inc ''outbox_fenced_publishes_total'' [(''service'', service_label P)]))))"

text \<open>\<open>reapStaleLocks\<close> and \<open>refreshPendingGauge\<close> log an error and return.\<close>

definition reapStaleLocks :: "relay_params \<Rightarrow> (relay_mem, unit) io" where
  "reapStaleLocks P = bind (gets (\<lambda>m. cfg (config m) (key_LOCK_TTL P) DEFAULT_LOCK_TTL_MS)) (\<lambda>ttlMs.
     catching
       (andThen (request (\<lambda>now m.
          let (n, t) = sql_reap now ttlMs (table m) in (Inr n, m\<lparr>table := t\<rparr>))) (ret ()))
       (\<lambda>_. ret ()))"

definition refreshPendingGauge :: "relay_params \<Rightarrow> (relay_mem, unit) io" where
  "refreshPendingGauge P = catching
     (bind (request (\<lambda>_ m. (Inr (sql_count_pending (table m)), m))) (\<lambda>count.
        report (SetGauge ''outbox_pending_events'' [(''service'', service_label P)] (int count))))
     (\<lambda>_. ret ())"

section \<open>Publishing one row\<close>

text \<open>The headers of the message before the trace context goes in.\<close>

definition publish_headers :: "relay_params \<Rightarrow> ClaimedRow \<Rightarrow> (string \<times> jsval) list" where
  "publish_headers P row =
    [(''x-event-type'', JStr (c_event_type row)),
     (''x-correlation-id'', JStr (or_else (c_correlation_id row) '''')),
     (id_header P, JStr (show_int (c_id row))),
     (''x-event-id'', JStr (or_else (c_event_id row) ''''))]"

text \<open>The context in force while the headers are built: the restored one, if it was captured.\<close>

definition restored_context :: "ClaimedRow \<Rightarrow> carrier option" where
  "restored_context row = (case c_trace_context row of
       None \<Rightarrow> None
     | Some tc \<Rightarrow> Some (extractTraceContext (map (\<lambda>(k, v). (k, JStr v)) tc)))"

definition row_message :: "ClaimedRow \<Rightarrow> (string \<times> jsval) list \<Rightarrow> amqp_message" where
  "row_message row headers =
     (let route = resolveOutboxRoute (c_event_type row)
      in \<lparr>m_exchange = exchange route, m_routingKey = routingKey route,
          m_body = json_of (c_payload row), m_persistent = True,
          m_contentType = ''application/json'', m_expiration = None, m_headers = headers\<rparr>)"

definition publishWithRestoredTrace :: "relay_params \<Rightarrow> nat option \<Rightarrow> ClaimedRow \<Rightarrow>
    (relay_mem, bool) io" where
  "publishWithRestoredTrace P ch row =
     bind (injectTraceContext (restored_context row) (publish_headers P row)) (\<lambda>headers.
       ch_publish ch (row_message row headers))"

definition back_pressure :: "relay_params \<Rightarrow> ClaimedRow \<Rightarrow> jsval" where
  "back_pressure P row =
     new_Error (''channel.publish() returned false (back-pressure) for '' @ what_row P
       @ '' id='' @ show_int (c_id row))"

definition publishOne :: "relay_params \<Rightarrow> ClaimedRow \<Rightarrow> (relay_mem, unit) io" where
  "publishOne P row = catching
     (bind getChannel (\<lambda>ch.
        bind (publishWithRestoredTrace P ch row) (\<lambda>published.
          if \<not> published then throw (back_pressure P row)
          else andThen (ch_waitForConfirms ch)
            (bind (markSent (c_id row) (c_lock_version row)) (\<lambda>stillOwned.
               when_do (\<not> stillOwned)
                 (report (Inc ''outbox_fenced_publishes_total''
                    [(''service'', service_label P)])))))))
     (\<lambda>err. markFailedAttempt P row err)"

text \<open>
  What the loop of a tick runs over: the claimed rows, or the two elements of the pair. Neither element has
  the members of a row: \<open>JSON.stringify(undefined)\<close> is undefined, which \<open>Buffer.from\<close> refuses with a
  \<open>TypeError\<close>; and the update that records the failure gets \<open>NaN\<close> for the integer \<open>attempts\<close>, which
  PostgreSQL refuses.
\<close>

datatype loop_item = ClaimedItem ClaimedRow | RowsItem "ClaimedRow list" | CountItem nat

definition loop_items :: "driver_result \<Rightarrow> ClaimedRow list \<Rightarrow> loop_item list" where
  "loop_items d rows = (case d of
       RowsOnly \<Rightarrow> map ClaimedItem rows
     | RowsAndCount \<Rightarrow> [RowsItem rows, CountItem (length rows)])"

definition nan_error :: jsval where
  "nan_error = JErr ''QueryFailedError''
     [(''message'', JStr ''invalid input syntax for type integer: NaN''), (''code'', JStr ''22P02'')]"

definition publish_no_row :: "(relay_mem, unit) io" where
  "publish_no_row = catching (bind getChannel (\<lambda>_. throw type_error)) (\<lambda>_. request (\<lambda>_ m. (Inl nan_error, m)))"

fun publish_item :: "relay_params \<Rightarrow> loop_item \<Rightarrow> (relay_mem, unit) io" where
  "publish_item P (ClaimedItem row) = publishOne P row"
| "publish_item P (RowsItem _) = publish_no_row"
| "publish_item P (CountItem _) = publish_no_row"

text \<open>
  \<open>runRelayTick\<close>: an error of the claim ends the tick quietly; an error that escapes
  \<open>publishOne\<close> escapes the tick.
\<close>

definition runRelayTick :: "relay_params \<Rightarrow> (relay_mem, unit) io" where
  "runRelayTick P =
     bind (catching (bind (claimBatch P) (\<lambda>rows. bind (gets pg_update) (\<lambda>d. ret (Some (loop_items d rows)))))
         (\<lambda>_. ret None)) (\<lambda>claimed.
       case claimed of
         None \<Rightarrow> ret ()
       | Some rows \<Rightarrow> if rows = [] then ret () else for_each (publish_item P) rows)"

section \<open>Lifecycle\<close>

definition relay_onModuleInit :: "relay_params \<Rightarrow> (relay_mem, unit) io" where
  "relay_onModuleInit P =
     andThen (modify (\<lambda>m. m\<lparr>timers :=
       [(''publish'', cfg (config m) (key_POLL P) DEFAULT_POLL_INTERVAL_MS),
        (''gauge'', cfg (config m) (key_GAUGE P) DEFAULT_GAUGE_REFRESH_MS),
        (''reaper'', cfg (config m) (key_REAPER P) DEFAULT_REAPER_INTERVAL_MS)]\<rparr>))
       (refreshPendingGauge P)"

definition relay_onModuleDestroy :: "(relay_mem, unit) io" where
  "relay_onModuleDestroy = andThen (modify (\<lambda>m. m\<lparr>timers := []\<rparr>)) closeAmqp"

section \<open>The two services\<close>

definition messaging_relay :: relay_params where
  "messaging_relay = \<lparr>service_label = ''messaging'', id_header = ''x-outbox-id'',
     what_row = ''outbox'',
     key_POLL = ''OUTBOX_POLL_INTERVAL_MS'', key_BATCH = ''OUTBOX_BATCH_SIZE'',
     key_LOCK_TTL = ''OUTBOX_LOCK_TTL_MS'', key_GAUGE = ''OUTBOX_GAUGE_REFRESH_MS'',
     key_REAPER = ''OUTBOX_REAPER_INTERVAL_MS''\<rparr>"

definition gateway_relay :: relay_params where
  "gateway_relay = \<lparr>service_label = ''gateway'', id_header = ''x-gateway-outbox-id'',
     what_row = ''gateway outbox'',
     key_POLL = ''GATEWAY_OUTBOX_POLL_INTERVAL_MS'', key_BATCH = ''GATEWAY_OUTBOX_BATCH_SIZE'',
     key_LOCK_TTL = ''GATEWAY_OUTBOX_LOCK_TTL_MS'', key_GAUGE = ''GATEWAY_OUTBOX_GAUGE_REFRESH_MS'',
     key_REAPER = ''GATEWAY_OUTBOX_REAPER_INTERVAL_MS''\<rparr>"

definition gw_onModuleInit :: "(relay_mem, unit) io" where
  "gw_onModuleInit = relay_onModuleInit gateway_relay"

definition gw_onModuleDestroy :: "(relay_mem, unit) io" where
  "gw_onModuleDestroy = relay_onModuleDestroy"

definition gw_runRelayTick :: "(relay_mem, unit) io" where
  "gw_runRelayTick = runRelayTick gateway_relay"

definition gw_claimBatch :: "(relay_mem, ClaimedRow list) io" where
  "gw_claimBatch = claimBatch gateway_relay"

definition gw_publishOne :: "ClaimedRow \<Rightarrow> (relay_mem, unit) io" where
  "gw_publishOne = publishOne gateway_relay"

definition gw_markSent :: "int \<Rightarrow> int \<Rightarrow> (relay_mem, bool) io" where
  "gw_markSent = markSent"

definition gw_markFailedAttempt :: "ClaimedRow \<Rightarrow> jsval \<Rightarrow> (relay_mem, unit) io" where
  "gw_markFailedAttempt = markFailedAttempt gateway_relay"

definition gw_reapStaleLocks :: "(relay_mem, unit) io" where
  "gw_reapStaleLocks = reapStaleLocks gateway_relay"

definition gw_refreshPendingGauge :: "(relay_mem, unit) io" where
  "gw_refreshPendingGauge = refreshPendingGauge gateway_relay"

definition gw_getChannel :: "(relay_mem, nat option) io" where
  "gw_getChannel = getChannel"

definition gw_connectAmqp :: "(relay_mem, unit) io" where
  "gw_connectAmqp = connectAmqp"

definition gw_closeAmqp :: "(relay_mem, unit) io" where
  "gw_closeAmqp = closeAmqp"


section \<open>What one publish can do\<close>

text \<open>The message of a row in a world, with the trace context it carries.\<close>

definition the_message :: "relay_params \<Rightarrow> ClaimedRow \<Rightarrow> relay_mem world \<Rightarrow> amqp_message" where
  "the_message P row w = row_message row (spread (publish_headers P row)
     (map (\<lambda>(k, v). (k, JStr v)) (otel_inject w (restored_context row))))"

text \<open>The table after a failed attempt was recorded at time \<open>now\<close>.\<close>

definition failed_status :: "FailureOutcome \<Rightarrow> OutboxStatus" where
  "failed_status oc = (case oc of DeadLetter _ \<Rightarrow> Failed | Retry _ _ \<Rightarrow> Pending)"

definition failed_retry_at :: "int \<Rightarrow> FailureOutcome \<Rightarrow> int" where
  "failed_retry_at now oc = (case oc of Retry t _ \<Rightarrow> t | DeadLetter _ \<Rightarrow> now)"

definition failed_table :: "ClaimedRow \<Rightarrow> string \<Rightarrow> int \<Rightarrow> outbox_table \<Rightarrow> outbox_table" where
  "failed_table row msg now t =
     (let oc = computeFailureOutcome (c_attempts row) (c_max_attempts row) now
      in snd (sql_mark_failed (failed_status oc) (c_attempts row + 1) msg
           (failed_retry_at now oc) (c_id row) (c_lock_version row) t))"

definition sent_table :: "ClaimedRow \<Rightarrow> int \<Rightarrow> outbox_table \<Rightarrow> outbox_table" where
  "sent_table row now t = snd (sql_mark_sent now (c_id row) (c_lock_version row) t)"

text \<open>Does the claim still own its row?\<close>

definition owns :: "ClaimedRow \<Rightarrow> outbox_table \<Rightarrow> bool" where
  "owns row t \<longleftrightarrow> matching (cas (c_id row) (c_lock_version row)) t \<noteq> []"

definition fenced_event :: "relay_params \<Rightarrow> metric_event" where
  "fenced_event P = Inc ''outbox_fenced_publishes_total'' [(''service'', service_label P)]"

definition fence_events :: "relay_params \<Rightarrow> driver_result \<Rightarrow> ClaimedRow \<Rightarrow> outbox_table \<Rightarrow> metric_event list" where
  "fence_events P d row t = (if found d (owns row t) then [] else [fenced_event P])"

lemma owns_iff: "owns row t \<longleftrightarrow> (\<exists>r\<in>set t. row_id r = c_id row \<and> lock_version r = c_lock_version row)"
  by (auto simp: owns_def matching_def cas_def filter_empty_conv)

lemma not_owned_tables:
  "\<not> owns row t \<Longrightarrow> sent_table row now t = t" "\<not> owns row t \<Longrightarrow> failed_table row msg now t = t"
  by (simp_all add: owns_def sent_table_def failed_table_def Let_def mark_sent_fenced
      mark_failed_fenced sql_mark_sent_def sql_mark_failed_def matching_def filter_empty_conv
      update_where_id)

lemma owns_keys: "owns row t \<longleftrightarrow> (c_id row, c_lock_version row) \<in> set (map key_of t)"
  unfolding owns_iff set_map image_iff key_of_def by (metis prod.inject)

lemma keys_updates [simp]:
  "map key_of (sent_table row now t) = map key_of t"
  "map key_of (failed_table row msg now t) = map key_of t"
  by (simp_all add: sent_table_def failed_table_def Let_def sql_mark_sent_def sql_mark_failed_def
      map_update_where key_of_def)

lemma owns_updates [simp]:
  "owns row (sent_table row' now t) = owns row t" "owns row (failed_table row' msg now t) = owns row t"
  by (simp_all only: owns_keys keys_updates)

lemma wp_markSent [wp_eqs]:
  "wp (markSent (c_id row) (c_lock_version row)) Q E w \<longleftrightarrow>
    (let w1 = w\<lparr>calls := Suc (calls w)\<rparr>;
         w2 = w1\<lparr>mem := (mem w)\<lparr>table := sent_table row (clock w (calls w)) (table (mem w))\<rparr>\<rparr>
     in case outcomes w (calls w) of
          Done \<Rightarrow> Q (found (pg_update (mem w)) (owns row (table (mem w)))) w2
        | Refused \<Rightarrow> Q (found (pg_update (mem w)) (owns row (table (mem w)))) w2
        | Fails e \<Rightarrow> E e w1 | Lost e \<Rightarrow> E e w2)"
  by (simp add: markSent_def wp_eqs sent_table_def owns_def sql_mark_sent_def Let_def
      split: outcome.split)

lemma wp_markFailedAttempt [wp_eqs]:
  "wp (markFailedAttempt P row err) Q E w \<longleftrightarrow>
    (let w1 = w\<lparr>calls := Suc (calls w)\<rparr>;
         m2 = (mem w)\<lparr>table := failed_table row (err_message err) (clock w (calls w)) (table (mem w))\<rparr>;
         m3 = (if found (pg_update (mem w)) (owns row (table (mem w))) then m2 else m2\<lparr>metrics := metrics m2 @ [fenced_event P]\<rparr>)
     in case outcomes w (calls w) of
          Done \<Rightarrow> Q () (w1\<lparr>mem := m3\<rparr>)
        | Refused \<Rightarrow> Q () (w1\<lparr>mem := m3\<rparr>)
        | Fails e \<Rightarrow> E e w1 | Lost e \<Rightarrow> E e (w1\<lparr>mem := m2\<rparr>))"
  by (simp add: markFailedAttempt_def wp_eqs failed_table_def owns_def sql_mark_failed_def
      failed_status_def failed_retry_at_def fenced_event_def report_def Let_def split: outcome.split)

lemma same_log_relay:
  "same_log m m' \<Longrightarrow> table m' = table m \<and> pg_update m' = pg_update m \<and> contended m' = contended m \<and> config m' = config m \<and>
     instanceId m' = instanceId m \<and> timers m' = timers m \<and> metrics m' = metrics (m :: relay_mem)"
  by (cases m; cases m') (simp add: same_log_def)

text \<open>
  The effect of \<open>publishOne\<close>, for every behaviour of broker and database: the row is marked sent
  after its message was confirmed, or the failed attempt is recorded (or both, when the answer to
  \<open>markSent\<close> is lost), and an error leaves only when recording the failure failed.
\<close>

definition confirmed_in :: "relay_mem world \<Rightarrow> amqp_message \<Rightarrow> bool" where
  "confirmed_in w msg \<longleftrightarrow> (\<exists>c. (c, msg) \<in> set (confirmed (mem w)))"

definition publish_effect :: "relay_params \<Rightarrow> ClaimedRow \<Rightarrow> relay_mem world \<Rightarrow> relay_mem world \<Rightarrow>
    bool" where
  "publish_effect P row w w' \<longleftrightarrow>
     (let t = table (mem w); t' = table (mem w')
      in (\<exists>now. t' = sent_table row now t \<and> confirmed_in w' (the_message P row w)) \<or>
         (\<exists>msg now. t' = failed_table row msg now t) \<or>
         (\<exists>msg now now'. t' = failed_table row msg now (sent_table row now' t) \<and>
            confirmed_in w' (the_message P row w)))"

lemma publish_effect_sent: "table (mem w') = sent_table row now (table (mem w)) \<Longrightarrow>
    confirmed_in w' (the_message P row w) \<Longrightarrow> publish_effect P row w w'"
  unfolding publish_effect_def Let_def by blast

lemma publish_effect_failed: "table (mem w') = failed_table row msg now (table (mem w)) \<Longrightarrow>
    publish_effect P row w w'"
  unfolding publish_effect_def Let_def by blast

lemma publish_effect_reopened:
  "table (mem w') = failed_table row msg now (sent_table row now' (table (mem w))) \<Longrightarrow>
     confirmed_in w' (the_message P row w) \<Longrightarrow> publish_effect P row w w'"
  unfolding publish_effect_def Let_def by blast

lemmas publish_effects = publish_effect_sent publish_effect_failed publish_effect_reopened

lemma confirmed_in_simps [simp]:
  "confirmed_in (w\<lparr>calls := n\<rparr>) msg = confirmed_in w msg"
  "confirmed_in (w\<lparr>mem := m\<rparr>) msg \<longleftrightarrow> (\<exists>c. (c, msg) \<in> set (confirmed m))"
  by (simp_all add: confirmed_in_def)

text \<open>How \<open>publishOne\<close> may return, and how it may throw.\<close>

definition publish_returns :: "relay_params \<Rightarrow> ClaimedRow \<Rightarrow> relay_mem world \<Rightarrow> relay_mem world \<Rightarrow>
    bool" where
  "publish_returns P row w w' \<longleftrightarrow> publish_effect P row w w' \<and> contended (mem w') = contended (mem w) \<and>
     metrics (mem w') = metrics (mem w) @ fence_events P (pg_update (mem w)) row (table (mem w)) \<and>
     pg_update (mem w') = pg_update (mem w)"

definition publish_throws :: "relay_params \<Rightarrow> ClaimedRow \<Rightarrow> relay_mem world \<Rightarrow> relay_mem world \<Rightarrow>
    bool" where
  "publish_throws P row w w' \<longleftrightarrow>
     (table (mem w') = table (mem w) \<or> publish_effect P row w w') \<and>
     metrics (mem w') = metrics (mem w)"

text \<open>A world later in the same call, before the row was marked; and after.\<close>

definition unmarked :: "relay_mem world \<Rightarrow> relay_mem world \<Rightarrow> bool" where
  "unmarked w w1 \<longleftrightarrow> table (mem w1) = table (mem w) \<and> metrics (mem w1) = metrics (mem w) \<and>
     pg_update (mem w1) = pg_update (mem w) \<and> contended (mem w1) = contended (mem w)"

abbreviation recorded_failure :: "relay_params \<Rightarrow> ClaimedRow \<Rightarrow> relay_mem world \<Rightarrow> jsval \<Rightarrow>
    relay_mem world \<Rightarrow> bool" where
  "recorded_failure P row w err \<equiv> wp (markFailedAttempt P row err)
     (\<lambda>_. publish_returns P row w) (\<lambda>_. publish_throws P row w)"

lemma failing_unmarked: "unmarked w w1 \<Longrightarrow> recorded_failure P row w err w1"
  using publish_effect_failed [of _ row "err_message err" "clock w1 (calls w1)" w P]
  by (simp add: wp_markFailedAttempt Let_def fence_events_def publish_returns_def
      publish_throws_def unmarked_def split: outcome.split)

lemma failing_marked:
  assumes "table (mem w1) = sent_table row now (table (mem w))" "metrics (mem w1) = metrics (mem w)"
    "pg_update (mem w1) = pg_update (mem w)"
    "contended (mem w1) = contended (mem w)" "confirmed_in w1 (the_message P row w)"
  shows "recorded_failure P row w err w1"
  using assms publish_effect_sent [of _ row now w P]
    publish_effect_reopened [of _ row "err_message err" "clock w1 (calls w1)" now w P]
  by (simp add: wp_markFailedAttempt Let_def fence_events_def confirmed_in_def publish_returns_def
      publish_throws_def split: outcome.split)

lemma marking:
  assumes "unmarked w w1" and "confirmed_in w1 (the_message P row w)"
  shows "wp (bind (markSent (c_id row) (c_lock_version row)) (\<lambda>stillOwned.
       when_do (\<not> stillOwned)
         (report (Inc ''outbox_fenced_publishes_total'' [(''service'', service_label P)]))))
     (\<lambda>_. publish_returns P row w) (recorded_failure P row w) w1"
proof -
  let ?w1 = "w1\<lparr>calls := Suc (calls w1)\<rparr>"
  let ?w2 = "?w1\<lparr>mem := (mem w1)\<lparr>table := sent_table row (clock w1 (calls w1)) (table (mem w))\<rparr>\<rparr>"
  have "recorded_failure P row w e ?w2" for e
    by (rule failing_marked) (use assms in \<open>auto simp: confirmed_in_def unmarked_def\<close>)
  moreover have "recorded_failure P row w e ?w1" for e
    by (rule failing_unmarked) (use assms in \<open>auto simp: unmarked_def\<close>)
  ultimately show ?thesis
    using assms publish_effect_sent [of _ row "clock w1 (calls w1)" w P]
    by (cases "found (pg_update (mem w)) (owns row (table (mem w)))")
      (simp_all add: wp_bind wp_markSent wp_when_do report_def wp_modify fence_events_def
        fenced_event_def Let_def confirmed_in_def unmarked_def publish_returns_def split: outcome.split)
qed

lemma confirming:
  assumes "unmarked w w1" and "(c, msg) \<in> set (unconfirmed (mem w1))"
    and "\<And>w2. unmarked w w2 \<Longrightarrow> confirmed_in w2 msg \<Longrightarrow> wp m Q E w2"
    and "\<And>e w2. unmarked w w2 \<Longrightarrow> E e w2"
  shows "wp (andThen (ch_waitForConfirms (Some c)) m) Q E w1"
  unfolding wp_andThen ch_waitForConfirms_def
  using assms(1,2)
  by (auto simp: wp_request Let_def unmarked_def split: outcome.split intro!: assms(3,4))

lemma publishing:
  assumes "same_log (mem w) (mem w1)" and "otel_inject w1 = otel_inject w"
  shows "wp (bind (publishWithRestoredTrace P ch row) (\<lambda>published.
        if \<not> published then throw (back_pressure P row)
        else andThen (ch_waitForConfirms ch)
          (bind (markSent (c_id row) (c_lock_version row)) (\<lambda>stillOwned.
             when_do (\<not> stillOwned)
               (report (Inc ''outbox_fenced_publishes_total'' [(''service'', service_label P)]))))))
     (\<lambda>_. publish_returns P row w) (recorded_failure P row w) w1"
proof (cases ch)
  case None
  with assms same_log_relay show ?thesis
    by (auto simp: publishWithRestoredTrace_def ch_publish_def wp_bind wp_injectTraceContext wp_throw
        unmarked_def intro!: failing_unmarked)
next
  case (Some c)
  have msg: "row_message row (spread (publish_headers P row)
      (map (\<lambda>(k, v). (k, JStr v)) (otel_inject w1 (restored_context row)))) = the_message P row w"
    by (simp add: the_message_def assms(2))
  show ?thesis
    using same_log_relay [OF assms(1)] Some
    by (auto simp: publishWithRestoredTrace_def ch_publish_def wp_bind wp_injectTraceContext
        wp_throw wp_ret wp_andThen [of "modify _"] wp_external wp_modify wp_if msg unmarked_def
        split: outcome.split
        intro!: failing_unmarked confirming [where w = w and msg = "the_message P row w"]
          marking [unfolded wp_bind])
qed

lemma publishOne_effect:
  "wp (publishOne P row) (\<lambda>_. publish_returns P row w) (\<lambda>_. publish_throws P row w) w"
  unfolding publishOne_def wp_catch wp_bind [of getChannel]
  by (rule wp_mono [OF getChannel_frame])
    (use same_log_relay in \<open>auto simp: unmarked_def intro!: publishing failing_unmarked\<close>)

section \<open>Properties\<close>

lemma claimBatch_run:
  assumes "claimBatch P w = (Inr rows, w')"
  shows "0 \<le> cfg (config (mem w)) (key_BATCH P) DEFAULT_BATCH_SIZE \<and>
    (rows, table (mem w')) = sql_claim (clock w (calls w)) (contended (mem w))
       (nat (cfg (config (mem w)) (key_BATCH P) DEFAULT_BATCH_SIZE)) (instanceId (mem w))
       (table (mem w))"
  using assms
  by (auto simp: claimBatch_def io_defs Let_def split: outcome.splits prod.splits if_splits)

lemma claimBatch_facts:
  fixes w :: "relay_mem world" and P :: relay_params
  defines "now \<equiv> clock w (calls w)" and "t \<equiv> table (mem w)" and "c \<equiv> contended (mem w)"
    and "batch \<equiv> cfg (config (mem w)) (key_BATCH P) DEFAULT_BATCH_SIZE"
  assumes "distinct (map row_id t)" and "claimBatch P w = (Inr rows, w')"
  shows "length rows = min (nat batch) (length (filter (claimable now c) t)) \<and>
    table (mem w') = map (\<lambda>r. if row_id r \<in> set (map c_id rows)
                              then lock_row now (instanceId (mem w)) r else r) t \<and>
    (\<forall>cr\<in>set rows. \<exists>r\<in>set t. claimable now c r \<and> row_id r = c_id cr \<and>
        c_lock_version cr = lock_version r + 1 \<and> c_attempts cr = attempts r \<and>
        (\<forall>r'\<in>set t. claimable now c r' \<longrightarrow> row_id r' \<notin> set (map c_id rows) \<longrightarrow>
           next_retry_at r \<le> next_retry_at r'))"
proof -
  let ?ids = "set (select_claim_ids now c (nat batch) t)"
  have run: "(rows, table (mem w')) = sql_claim now c (nat batch) (instanceId (mem w)) t"
    using claimBatch_run [OF assms(6)] by (simp add: now_def t_def c_def batch_def)
  then have rows: "rows = fst (sql_claim now c (nat batch) (instanceId (mem w)) t)"
    and t': "table (mem w') = snd (sql_claim now c (nat batch) (instanceId (mem w)) t)"
    by (metis fst_conv, metis snd_conv)
  have "?ids \<subseteq> row_id ` set t" by (auto dest: select_claim_ids_claimable)
  then have ids: "set (map c_id rows) = ?ids" unfolding rows claimed_ids_map by auto
  have each: "\<exists>r\<in>set t. claimable now c r \<and> row_id r = c_id cr \<and>
        c_lock_version cr = lock_version r + 1 \<and> c_attempts cr = attempts r \<and>
        (\<forall>r'\<in>set t. claimable now c r' \<longrightarrow> row_id r' \<notin> set (map c_id rows) \<longrightarrow>
           next_retry_at r \<le> next_retry_at r')" if "cr \<in> set rows" for cr
  proof -
    from that obtain r where r: "r \<in> set t" "row_id r \<in> ?ids"
      and cr: "cr = returning (lock_row now (instanceId (mem w)) r)"
      unfolding rows by (rule sql_claim_row)
    from select_claim_ids_row [OF r(2,1) assms(5)] claim_oldest_first [OF r(2,1) assms(5)] r cr
    show ?thesis unfolding ids by auto
  qed
  show ?thesis
  proof (intro conjI ballI)
    show "length rows = min (nat batch) (length (filter (claimable now c) t))"
      unfolding rows using assms(5) by (rule length_sql_claim)
    show "table (mem w') = map (\<lambda>r. if row_id r \<in> set (map c_id rows)
        then lock_row now (instanceId (mem w)) r else r) t"
      unfolding ids t' by (simp add: sql_claim_def Let_def update_where_def)
  qed (rule each)
qed

text \<open>
  C19: The claim. A claim takes as many of the due, uncontended pending rows as the batch
  size allows, oldest \<open>next_retry_at\<close> first; each row it takes is locked by this instance with its
  fencing token raised by one, and returned with that token; no other row changes.
\<close>

theorem claim_batch_spec:
  fixes w :: "relay_mem world" and P :: relay_params
  defines "now \<equiv> clock w (calls w)" and "t \<equiv> table (mem w)"
    and "batch \<equiv> cfg (config (mem w)) (key_BATCH P) DEFAULT_BATCH_SIZE"
    and "due \<equiv> \<lambda>r. status r = Pending \<and> next_retry_at r \<le> clock w (calls w) \<and> \<not> contended (mem w) (row_id r)"
  assumes "distinct (map row_id t)" and "claimBatch P w = (Inr rows, w')"
  shows "length rows = min (nat batch) (length (filter due t)) \<and>
    table (mem w') = map (\<lambda>r. if row_id r \<in> set (map c_id rows)
      then r\<lparr>locked_at := Some now, locked_by := Some (instanceId (mem w)), lock_version := lock_version r + 1\<rparr>
      else r) t \<and>
    (\<forall>cr\<in>set rows. \<exists>r\<in>set t. due r \<and> row_id r = c_id cr \<and>
        c_lock_version cr = lock_version r + 1 \<and> c_attempts cr = attempts r \<and>
        (\<forall>r'\<in>set t. due r' \<longrightarrow> row_id r' \<notin> set (map c_id rows) \<longrightarrow>
           next_retry_at r \<le> next_retry_at r'))"
proof -
  have "due = claimable (clock w (calls w)) (contended (mem w))"
    by (simp add: fun_eq_iff due_def claimable_def)
  then show ?thesis
    using claimBatch_facts [of w P rows w'] assms(5,6) unfolding now_def t_def batch_def lock_row_def by blast
qed

text \<open>A concrete relay: three rows, one of them sent, a batch size of one.\<close>

definition sample_row :: "int \<Rightarrow> OutboxStatus \<Rightarrow> int \<Rightarrow> outbox_row" where
  "sample_row i st due = \<lparr>row_id = i, event_type = ''MessagePersisted'', payload = JNull,
     correlation_id = Some ''c'', status = st, attempts = 0, last_error = None, created_at = 0,
     sent_at = None, locked_at = None, locked_by = None, next_retry_at = due, max_attempts = 5,
     event_id = Some ''e'', lock_version = 0, trace_context = None\<rparr>"

definition sample_relay :: relay_mem where
  "sample_relay = \<lparr>amqpConnection = None, amqpChannel = None, connecting = None, handlers = [],
     opened_conns = 0, published = [], unconfirmed = [], confirmed = [],
     table = [sample_row 1 Pending 0, sample_row 2 Sent (-9), sample_row 3 Pending (-5)],
     pg_update = RowsOnly, contended = (\<lambda>_. False), config = [(''OUTBOX_BATCH_SIZE'', ''1'')], instanceId = ''me'',
     timers = [], metrics = []\<rparr>"

lemma sample_batch: "cfg (config sample_relay) (key_BATCH messaging_relay) d = 1"
  by (simp add: cfg_def sample_relay_def messaging_relay_def js_parseInt_def is_js_space_def
      is_digit_def digits_value_def digit_value_def Let_def)

lemma claimBatch_done:
  assumes "outcomes w (calls w) = Done" and "0 \<le> cfg (config (mem w)) (key_BATCH P) DEFAULT_BATCH_SIZE"
  obtains rows w' where "claimBatch P w = (Inr rows, w')"
proof -
  have "isl (fst (claimBatch P w)) = False"
    using assms by (simp add: claimBatch_def io_defs Let_def split: prod.split)
  then obtain rows where "fst (claimBatch P w) = Inr rows" by (cases "fst (claimBatch P w)") auto
  then have "claimBatch P w = (Inr rows, snd (claimBatch P w))" by (metis prod.collapse)
  then show ?thesis by (rule that)
qed

lemma sample_relay_sel [simp]:
  "table sample_relay = [sample_row 1 Pending 0, sample_row 2 Sent (-9), sample_row 3 Pending (-5)]"
  "pg_update sample_relay = RowsOnly" "contended sample_relay = (\<lambda>_. False)" "instanceId sample_relay = ''me''"
  "connecting sample_relay = None" "amqpChannel sample_relay = None"
  by (simp_all add: sample_relay_def)

lemma sample_row_sel [simp]:
  "row_id (sample_row i st due) = i" "status (sample_row i st due) = st"
  "lock_version (sample_row i st due) = 0" "attempts (sample_row i st due) = 0"
  "next_retry_at (sample_row i st due) = due" "max_attempts (sample_row i st due) = 5"
  by (simp_all add: sample_row_def)

theorem claim_batch_spec_witness:
  "\<exists>rows w'. claimBatch messaging_relay (start_world sample_relay) = (Inr rows, w') \<and>
     length rows = 1 \<and> c_lock_version (hd rows) = 1 \<and> map row_id (table (mem w')) = [1, 2, 3]"
proof -
  obtain rows w' where run: "claimBatch messaging_relay (start_world sample_relay) = (Inr rows, w')"
    by (rule claimBatch_done [of "start_world sample_relay" messaging_relay])
      (simp_all add: sample_batch)
  have "distinct (map row_id (table (mem (start_world sample_relay))))" by simp
  note spec = claim_batch_spec [OF this run]
  have len: "length rows = 1"
    using spec by (simp add: sample_batch claimable_def)
  then have "hd rows \<in> set rows" by (cases rows) auto
  then have "c_lock_version (hd rows) = 1"
    using spec by auto
  moreover have "map row_id (table (mem w')) = [1, 2, 3]"
    using spec by auto
  ultimately show ?thesis using run len by (intro exI conjI)
qed

lemma publishOne_run:
  assumes "publishOne P row w = (res, w')"
  shows "(case res of Inr _ \<Rightarrow> publish_returns P row w w' | Inl _ \<Rightarrow> publish_throws P row w w')"
  using assms publishOne_effect [of P row w] by (auto simp: wp_def split: sum.splits)

lemma sent_table_set: "r' \<in> set (sent_table row now t) \<Longrightarrow>
    r' \<in> set t \<or> (\<exists>r\<in>set t. cas (c_id row) (c_lock_version row) r \<and> r' = sent_row now r)"
  by (auto simp: sent_table_def sql_mark_sent_def set_update_where)

lemma failed_table_set: "r' \<in> set (failed_table row msg now t) \<Longrightarrow>
    r' \<in> set t \<or> (\<exists>r\<in>set t. cas (c_id row) (c_lock_version row) r \<and> status r' \<noteq> Sent)"
  by (auto simp: failed_table_def Let_def sql_mark_failed_def set_update_where failed_status_def
      split: FailureOutcome.splits)

text \<open>
  C10: Sent means confirmed. If a row is \<open>sent\<close> after a publish attempt and was not before,
  then it is the row the attempt claimed, with the fencing token it was claimed with, and the
  broker has confirmed exactly the message of that row (its route, its payload, its headers with
  the producer's restored trace context), whatever the broker and the database did meanwhile.
\<close>

theorem sent_means_confirmed:
  assumes "publishOne P row w = (res, w')"
    and "r' \<in> set (table (mem w'))" and "status r' = Sent" and "r' \<notin> set (table (mem w))"
  shows "row_id r' = c_id row \<and> lock_version r' = c_lock_version row \<and>
    (\<exists>ch. (ch, the_message P row w) \<in> set (confirmed (mem w')))"
proof -
  have "table (mem w') = table (mem w) \<or> publish_effect P row w w'"
    using publishOne_run [OF assms(1)]
    by (auto simp: publish_returns_def publish_throws_def split: sum.splits)
  with assms(2,4) have "publish_effect P row w w'" by auto
  then consider (sent) now where "table (mem w') = sent_table row now (table (mem w))"
      "confirmed_in w' (the_message P row w)"
    | (failed) msg now where "table (mem w') = failed_table row msg now (table (mem w))"
    | (both) msg now now' where
      "table (mem w') = failed_table row msg now (sent_table row now' (table (mem w)))"
      "confirmed_in w' (the_message P row w)"
    unfolding publish_effect_def Let_def by blast
  then show ?thesis
  proof cases
    case sent
    with assms(2-4) show ?thesis
      by (auto dest!: sent_table_set simp: cas_def confirmed_in_def)
  next
    case failed
    with assms(2-4) show ?thesis by (auto dest: failed_table_set)
  next
    case both
    with assms(2,3) have "r' \<in> set (sent_table row now' (table (mem w)))"
      by (auto dest: failed_table_set)
    with both assms(3,4) show ?thesis
      by (auto dest!: sent_table_set simp: cas_def confirmed_in_def)
  qed
qed

text \<open>
  C20: Fencing. A claim that no longer owns its row (another claim has raised the token since)
  changes no row at all, whether its publish succeeds, fails or is lost. When it returns it has counted exactly
  one fenced publish if an update resolves to its rows; with the pair of rows and count that
  TypeORM documents, the test \<open>result.length > 0\<close> holds also without a row, and nothing is counted.
\<close>

theorem stale_claim_changes_nothing:
  assumes "publishOne P row w = (res, w')"
    and "\<forall>r\<in>set (table (mem w)). row_id r = c_id row \<longrightarrow> lock_version r \<noteq> c_lock_version row"
  shows "table (mem w') = table (mem w) \<and>
    (res = Inr () \<longrightarrow> metrics (mem w') = metrics (mem w) @ (case pg_update (mem w) of
         RowsOnly \<Rightarrow> [Inc ''outbox_fenced_publishes_total'' [(''service'', service_label P)]]
       | RowsAndCount \<Rightarrow> []))"
proof -
  from assms(2) have no: "\<not> owns row (table (mem w))" by (auto simp: owns_iff)
  have "table (mem w') = table (mem w)" if "publish_effect P row w w'"
    using that no unfolding publish_effect_def Let_def by (auto simp: not_owned_tables)
  with publishOne_run [OF assms(1)] no show ?thesis
    by (auto simp: publish_returns_def publish_throws_def fence_events_def fenced_event_def found_def
        split: sum.splits driver_result.splits)
qed

text \<open>The good case: every external call succeeds and the client is not stuck.\<close>

definition usable :: "'a amqp_client_scheme \<Rightarrow> bool" where
  "usable m \<longleftrightarrow> amqpChannel m \<noteq> None \<or> connecting m = None"

definition all_done :: "'d world \<Rightarrow> bool" where
  "all_done w \<longleftrightarrow> (\<forall>n. outcomes w n = Done)"

lemma all_done_simps [simp]:
  "all_done (w\<lparr>calls := k\<rparr>) = all_done w" "all_done (w\<lparr>mem := m\<rparr>) = all_done w"
  "all_done w \<Longrightarrow> outcomes w n = Done"
  by (simp_all add: all_done_def)

definition delivered :: "relay_params \<Rightarrow> ClaimedRow \<Rightarrow> relay_mem world \<Rightarrow> relay_mem world \<Rightarrow> bool" where
  "delivered P row w w' \<longleftrightarrow> all_done w' \<and> usable (mem w') \<and> otel_inject w' = otel_inject w \<and>
     set (confirmed (mem w)) \<subseteq> set (confirmed (mem w')) \<and>
     confirmed_in w' (the_message P row w) \<and>
     (\<exists>now. table (mem w') = sent_table row now (table (mem w)))"

lemma publishOne_delivers:
  assumes "all_done w" and "usable (mem w)"
  shows "wp (publishOne P row) (\<lambda>_. delivered P row w) (\<lambda>_ _. False) w"
proof (cases "amqpChannel (mem w)")
  case None
  with assms show ?thesis
    by (auto simp: publishOne_def publishWithRestoredTrace_def ch_publish_def ch_waitForConfirms_def
        getChannel_def connectAmqp_def amqp_connect_def wp_eqs report_def delivered_def usable_def
        the_message_def Let_def)
next
  case (Some c)
  with assms show ?thesis
    by (auto simp: publishOne_def publishWithRestoredTrace_def ch_publish_def ch_waitForConfirms_def
        getChannel_def wp_eqs report_def delivered_def usable_def the_message_def Let_def)
qed

lemma the_message_world: "otel_inject w' = otel_inject w \<Longrightarrow> the_message P row w' = the_message P row w"
  by (simp add: the_message_def)

lemma the_message_lock_row [simp]:
  "the_message P (returning (lock_row now inst r)) w = the_message P (returning r) w"
  by (simp add: the_message_def row_message_def restored_context_def publish_headers_def
      returning_def lock_row_def)

text \<open>Every row with this identifier is sent: kept by marking, and made by it.\<close>

definition is_sent :: "outbox_table \<Rightarrow> int \<Rightarrow> bool" where
  "is_sent t i \<longleftrightarrow> (\<forall>r\<in>set t. row_id r = i \<longrightarrow> status r = Sent)"

lemma is_sent_kept: "is_sent t i \<Longrightarrow> is_sent (sent_table row now t) i"
  by (auto simp: is_sent_def dest!: sent_table_set)

lemma is_sent_marked:
  assumes "owns row t" and "distinct (map row_id t)"
  shows "is_sent (sent_table row now t) (c_id row)"
proof -
  have "cas (c_id row) (c_lock_version row) r" if "r \<in> set t" "row_id r = c_id row" for r
    using assms that distinct_ids_row [OF assms(2)] by (fastforce simp: owns_iff cas_def)
  then show ?thesis
    by (auto simp: is_sent_def sent_table_def sql_mark_sent_def set_update_where)
qed

text \<open>The batch loop: afterwards every owned row is sent, and every message confirmed.\<close>

definition loop_post :: "relay_params \<Rightarrow> ClaimedRow list \<Rightarrow> relay_mem world \<Rightarrow> relay_mem world \<Rightarrow>
    bool" where
  "loop_post P rows w w' \<longleftrightarrow> set (confirmed (mem w)) \<subseteq> set (confirmed (mem w')) \<and>
     (\<forall>i. is_sent (table (mem w)) i \<or> i \<in> c_id ` set rows \<longrightarrow> is_sent (table (mem w')) i) \<and>
     (\<forall>cr\<in>set rows. confirmed_in w' (the_message P cr w))"

lemma loop_delivers:
  assumes "all_done w" and "usable (mem w)" and "\<forall>cr\<in>set rows. owns cr (table (mem w))"
    and "distinct (map row_id (table (mem w)))"
  shows "wp (for_each (publishOne P) rows) (\<lambda>_. loop_post P rows w) (\<lambda>_ _. False) w"
  using assms
proof (induction rows arbitrary: w)
  case Nil
  then show ?case by (simp add: wp_ret loop_post_def)
next
  case (Cons cr rows)
  have "wp (publishOne P cr) (\<lambda>_. delivered P cr w) (\<lambda>_ _. False) w"
    using Cons.prems(1,2) by (rule publishOne_delivers)
  then show ?case
    unfolding wp_for_each_Cons
  proof (rule wp_mono)
    fix w1 :: "relay_mem world" assume d: "delivered P cr w w1"
    then obtain now where t1: "table (mem w1) = sent_table cr now (table (mem w))"
      unfolding delivered_def by blast
    have ids: "map row_id (table (mem w1)) = map row_id (table (mem w))"
      unfolding t1 sent_table_def by (rule ids_update_where)
    have owned: "\<forall>cr\<in>set rows. owns cr (table (mem w1))" using Cons.prems(3) by (simp add: t1)
    have "wp (for_each (publishOne P) rows) (\<lambda>_. loop_post P rows w1) (\<lambda>_ _. False) w1"
      using Cons.IH [OF _ _ owned] d Cons.prems(4) by (simp add: delivered_def ids)
    then show "wp (for_each (publishOne P) rows) (\<lambda>_. loop_post P (cr # rows) w) (\<lambda>_ _. False) w1"
    proof (rule wp_mono)
      fix w2 :: "relay_mem world" assume l: "loop_post P rows w1 w2"
      have "is_sent (table (mem w1)) (c_id cr)"
        unfolding t1 using Cons.prems(3,4) by (auto intro: is_sent_marked)
      moreover have "is_sent (table (mem w1)) i" if "is_sent (table (mem w)) i" for i
        unfolding t1 using that by (rule is_sent_kept)
      moreover have "the_message P r w1 = the_message P r w" for r
        using d by (auto simp: delivered_def intro: the_message_world)
      moreover have "confirmed_in w2 (the_message P cr w)"
        using d l by (auto simp: delivered_def loop_post_def confirmed_in_def)
      ultimately show "loop_post P (cr # rows) w w2"
        using d l by (auto simp: loop_post_def delivered_def)
    qed simp
  qed simp
qed

lemma claimed_rows_owned:
  assumes "cr \<in> set (fst (sql_claim now c n inst t))"
  shows "owns cr (snd (sql_claim now c n inst t))"
proof -
  obtain r where r: "r \<in> set t" "row_id r \<in> set (select_claim_ids now c n t)"
    and cr: "cr = returning (lock_row now inst r)"
    using assms by (rule sql_claim_row)
  have "lock_row now inst r \<in> set (snd (sql_claim now c n inst t))"
    using r by (auto simp: sql_claim_def Let_def set_update_where)
  then show ?thesis unfolding owns_iff cr by (intro bexI) auto
qed

lemma loop_items_rows:
  "for_each (publish_item P) (loop_items RowsOnly rows) = for_each (publishOne P) rows"
  "loop_items RowsOnly rows = [] \<longleftrightarrow> rows = []" "loop_items RowsAndCount rows \<noteq> []"
  by (induction rows) (simp_all add: loop_items_def)

text \<open>
  A tick delivers, if an update resolved to its rows. When the broker and the database answer every call and the
  client is not stuck, a tick then returns; every row of its batch is \<open>sent\<close>, and the message of each has been
  confirmed by the broker.
\<close>

theorem tick_delivers:
  fixes w :: "relay_mem world" and P :: relay_params
  defines "ids \<equiv> select_claim_ids (clock w (calls w)) (contended (mem w))
     (nat (cfg (config (mem w)) (key_BATCH P) DEFAULT_BATCH_SIZE)) (table (mem w))"
  assumes "all_done w" and "usable (mem w)" and "distinct (map row_id (table (mem w)))"
    and "0 \<le> cfg (config (mem w)) (key_BATCH P) DEFAULT_BATCH_SIZE" and "pg_update (mem w) = RowsOnly"
  shows "\<exists>w'. runRelayTick P w = (Inr (), w') \<and>
    (\<forall>r'\<in>set (table (mem w')). row_id r' \<in> set ids \<longrightarrow> status r' = Sent) \<and>
    (\<forall>r\<in>set (table (mem w)). row_id r \<in> set ids \<longrightarrow>
       (\<exists>ch. (ch, the_message P (returning r) w) \<in> set (confirmed (mem w'))))"
proof -
  obtain rows w1 where run: "claimBatch P w = (Inr rows, w1)"
    by (rule claimBatch_done [of w P]) (use assms in auto)
  note spec = claimBatch_run [OF run]
  let ?c = "sql_claim (clock w (calls w)) (contended (mem w))
     (nat (cfg (config (mem w)) (key_BATCH P) DEFAULT_BATCH_SIZE)) (instanceId (mem w)) (table (mem w))"
  from spec have rows: "rows = fst ?c" and t1: "table (mem w1) = snd ?c"
    by (metis fst_conv, metis snd_conv)
  have w1: "w1 = w\<lparr>calls := Suc (calls w), mem := (mem w)\<lparr>table := snd ?c\<rparr>\<rparr>"
    using run assms(2,5) by (auto simp: claimBatch_def io_defs Let_def split: prod.splits)
  have ids: "c_id ` set rows = set ids"
  proof -
    have "set ids \<subseteq> row_id ` set (table (mem w))"
      unfolding ids_def by (auto dest: select_claim_ids_claimable)
    moreover have "map c_id rows = map row_id (filter (\<lambda>r. row_id r \<in> set ids) (table (mem w)))"
      unfolding rows ids_def by (rule claimed_ids_map)
    then have "c_id ` set rows = row_id ` {r \<in> set (table (mem w)). row_id r \<in> set ids}"
      by (metis list.set_map set_filter)
    ultimately show ?thesis by auto
  qed
  have "wp (for_each (publishOne P) rows) (\<lambda>_. loop_post P rows w1) (\<lambda>_ _. False) w1"
    by (rule loop_delivers)
      (use assms(2-4) claimed_rows_owned in \<open>auto simp: w1 usable_def rows\<close>)
  then obtain w2 where loop: "for_each (publishOne P) rows w1 = (Inr (), w2)"
    and post: "loop_post P rows w1 w2"
    by (auto simp: wp_def split: prod.splits sum.splits)
  have "runRelayTick P w = (Inr (), w2)"
    using loop w1 assms(6) by (auto simp: runRelayTick_def io_defs run loop_items_rows)
  moreover have "\<forall>r'\<in>set (table (mem w2)). row_id r' \<in> set ids \<longrightarrow> status r' = Sent"
    using post ids by (auto simp: loop_post_def is_sent_def)
  moreover have "confirmed_in w2 (the_message P (returning r) w)"
    if r: "r \<in> set (table (mem w))" "row_id r \<in> set ids" for r
  proof -
    have "returning (lock_row (clock w (calls w)) (instanceId (mem w)) r) \<in> set rows"
      using r by (auto simp: rows sql_claim_def Let_def matching_def ids_def)
    then have "confirmed_in w2 (the_message P (returning r) w1)"
      using post by (fastforce simp: loop_post_def)
    moreover have "the_message P (returning r) w1 = the_message P (returning r) w"
      by (rule the_message_world) (simp add: w1)
    ultimately show ?thesis by simp
  qed
  ultimately show ?thesis unfolding confirmed_in_def by blast
qed

lemma publishOne_delivers_run:
  assumes "all_done w" and "usable (mem w)"
  obtains w' where "publishOne P row w = (Inr (), w')" "delivered P row w w'"
  using publishOne_delivers [OF assms, of P row] by (auto simp: wp_def split: prod.splits sum.splits)

lemma sample_usable: "all_done (start_world sample_relay)" "usable (mem (start_world sample_relay))"
  by (simp_all add: all_done_def usable_def)

theorem sent_means_confirmed_witness:
  "\<exists>w' ch. publishOne messaging_relay (returning (sample_row 3 Pending (-5)))
       (start_world sample_relay) = (Inr (), w') \<and>
     (ch, the_message messaging_relay (returning (sample_row 3 Pending (-5)))
        (start_world sample_relay)) \<in> set (confirmed (mem w'))"
proof -
  let ?row = "returning (sample_row 3 Pending (-5))"
  obtain w' where run: "publishOne messaging_relay ?row (start_world sample_relay) = (Inr (), w')"
    and d: "delivered messaging_relay ?row (start_world sample_relay) w'"
    by (rule publishOne_delivers_run [OF sample_usable])
  then obtain now where t: "table (mem w') = sent_table ?row now (table sample_relay)"
    by (auto simp: delivered_def)
  let ?r = "sent_row now (sample_row 3 Pending (-5))"
  have new: "?r \<in> set (table (mem w'))"
    by (simp add: t sent_table_def sql_mark_sent_def cas_def)
  have "?r \<notin> set (table (mem (start_world sample_relay)))"
    by (simp add: sent_row_def sample_row_def)
  from sent_means_confirmed [OF run new _ this] run show ?thesis by auto
qed

theorem stale_claim_changes_nothing_witness:
  "\<exists>w'. publishOne messaging_relay ((returning (sample_row 3 Pending (-5)))\<lparr>c_lock_version := 7\<rparr>)
       (start_world sample_relay) = (Inr (), w') \<and>
     table (mem w') = table sample_relay \<and> length (metrics (mem w')) = 1"
proof -
  let ?row = "(returning (sample_row 3 Pending (-5)))\<lparr>c_lock_version := 7\<rparr>"
  obtain w' where run: "publishOne messaging_relay ?row (start_world sample_relay) = (Inr (), w')"
    by (rule publishOne_delivers_run [OF sample_usable])
  have "\<forall>r\<in>set (table (mem (start_world sample_relay))).
      row_id r = c_id ?row \<longrightarrow> lock_version r \<noteq> c_lock_version ?row"
    by simp
  from stale_claim_changes_nothing [OF run this] run show ?thesis
    by (simp add: sample_relay_def)
qed

theorem tick_delivers_witness:
  "\<exists>w'. runRelayTick messaging_relay (start_world sample_relay) = (Inr (), w') \<and>
     (\<exists>ch. (ch, the_message messaging_relay (returning (sample_row 3 Pending (-5)))
        (start_world sample_relay)) \<in> set (confirmed (mem w')))"
proof -
  have ids: "select_claim_ids 0 (\<lambda>_. False) 1 (table sample_relay) = [3]"
    by (simp add: select_claim_ids_def claimable_def)
  have "distinct (map row_id (table (mem (start_world sample_relay))))" by simp
  from tick_delivers [OF sample_usable this, of messaging_relay]
  show ?thesis using ids by (auto simp: sample_batch)
qed

lemma wp_publish_no_row:
  "wp publish_no_row (\<lambda>_ _. False) (\<lambda>_ w'. table (mem w') = table (mem w) \<and> same_log (mem w) (mem w')) w"
proof -
  have "wp (request (\<lambda>_ m. (Inl nan_error, m))) (\<lambda>_ _. False)
      (\<lambda>_ w'. table (mem w') = table (mem w) \<and> same_log (mem w) (mem w')) v"
    if "same_log (mem w) (mem v)" for v
    using same_log_relay [OF that] that by (simp add: wp_request Let_def split: outcome.split)
  then show ?thesis
    unfolding publish_no_row_def wp_catch wp_bind [of getChannel]
    by (intro wp_mono [OF getChannel_frame]) (auto simp: wp_throw)
qed



text \<open>
  A lost answer reopens a sent row. If the broker confirms the message and the
  statement that marks the row sent takes effect, but its answer is lost, the catch block records
  a failed attempt on the same fencing token: the row is no longer \<open>sent\<close>, although its message
  was delivered; it will be published again, or be dead-lettered when the budget is spent.
\<close>

theorem lost_answer_reopens_row:
  assumes "amqpChannel (mem w) = Some ch" and "distinct (map row_id (table (mem w)))"
    and "owns row (table (mem w))"
    and "outcomes w (calls w) = Done" and "outcomes w (calls w + 1) = Done"
    and "outcomes w (calls w + 2) = Lost e" and "outcomes w (calls w + 3) = Done"
  shows "\<exists>w'. publishOne P row w = (Inr (), w') \<and>
    (ch, the_message P row w) \<in> set (confirmed (mem w')) \<and>
    (\<forall>r\<in>set (table (mem w')). row_id r = c_id row \<longrightarrow>
       status r = (if c_attempts row + 1 < c_max_attempts row then Pending else Failed) \<and>
       attempts r = c_attempts row + 1)"
proof -
  let ?oc = "computeFailureOutcome (c_attempts row) (c_max_attempts row)"
  have st: "failed_status (?oc now) = (if c_attempts row + 1 < c_max_attempts row then Pending else Failed)"
    for now
    by (simp add: failed_status_def computeFailureOutcome_def Let_def)
  have rows: "status r = failed_status (?oc now) \<and> attempts r = c_attempts row + 1"
    if r: "r \<in> set (failed_table row msg now (sent_table row now' (table (mem w))))"
      and i: "row_id r = c_id row" for r msg now now'
  proof -
    from assms(2,3) have "cas (c_id row) (c_lock_version row) q"
      if "q \<in> set (table (mem w))" "row_id q = c_id row" for q
      using that distinct_ids_row [OF assms(2)] by (fastforce simp: owns_iff cas_def)
    then have "\<forall>q\<in>set (sent_table row now' (table (mem w))). row_id q = c_id row \<longrightarrow>
        cas (c_id row) (c_lock_version row) q"
      by (auto simp: sent_table_def sql_mark_sent_def set_update_where cas_def)
    with r i show ?thesis
      by (auto simp: failed_table_def sql_mark_failed_def set_update_where Let_def)
  qed
  have "wp (publishOne P row) (\<lambda>_ w'. (ch, the_message P row w) \<in> set (confirmed (mem w')) \<and>
      (\<exists>msg now now'. table (mem w') = failed_table row msg now (sent_table row now' (table (mem w)))))
      (\<lambda>_ _. False) w"
    using assms(1,3-7)
    by (auto simp: publishOne_def publishWithRestoredTrace_def ch_publish_def ch_waitForConfirms_def
        getChannel_def wp_eqs report_def the_message_def Let_def numeral_eq_Suc)
  then obtain w' where "publishOne P row w = (Inr (), w')"
    and "(ch, the_message P row w) \<in> set (confirmed (mem w'))"
    and "\<exists>msg now now'. table (mem w') = failed_table row msg now (sent_table row now' (table (mem w)))"
    by (auto simp: wp_def split: prod.splits sum.splits)
  then show ?thesis using rows st by (intro exI [of _ w']) fastforce
qed

definition lost_world :: "relay_mem world" where
  "lost_world = (start_world (sample_relay\<lparr>amqpChannel := Some 0\<rparr>))\<lparr>outcomes := \<lambda>n.
     if n = 2 then Lost (new_Error ''ECONNRESET'') else Done\<rparr>"

theorem lost_answer_reopens_row_witness:
  "\<exists>w'. publishOne messaging_relay (returning (sample_row 3 Pending (-5))) lost_world = (Inr (), w') \<and>
     (\<forall>r\<in>set (table (mem w')). row_id r = 3 \<longrightarrow> status r = Pending \<and> attempts r = 1)"
proof -
  have "owns (returning (sample_row 3 Pending (-5))) (table (mem lost_world))"
    by (simp add: owns_iff lost_world_def)
  from lost_answer_reopens_row [where P = messaging_relay and e = "new_Error ''ECONNRESET''",
      of lost_world 0, OF _ _ this] show ?thesis
    by (auto simp: lost_world_def)
qed

text \<open>
  A failure that cannot be recorded strands the batch, also if an update resolved to its rows. If the broker refuses the first
  message of a batch and the database then refuses the statement that records it, the error
  leaves the tick (nothing awaits it: the timer discards the promise): no message of the batch was
  published, and every row of it stays \<open>pending\<close> with this instance's lock.
\<close>

theorem unrecorded_failure_strands_batch:
  fixes w :: "relay_mem world" and P :: relay_params
  defines "claim \<equiv> sql_claim (clock w (calls w)) (contended (mem w))
     (nat (cfg (config (mem w)) (key_BATCH P) DEFAULT_BATCH_SIZE)) (instanceId (mem w)) (table (mem w))"
  assumes "amqpChannel (mem w) = Some ch" and "fst claim \<noteq> []" and "pg_update (mem w) = RowsOnly"
    and "0 \<le> cfg (config (mem w)) (key_BATCH P) DEFAULT_BATCH_SIZE"
    and "outcomes w (calls w) = Done" and "outcomes w (calls w + 1) = Fails e"
    and "outcomes w (calls w + 2) = Fails e'"
  shows "\<exists>w'. runRelayTick P w = (Inl e', w') \<and> published (mem w') = published (mem w) \<and>
    table (mem w') = snd claim"
proof -
  obtain cr rest where rows: "fst claim = cr # rest" using assms(3) by (cases "fst claim") auto
  have "wp (runRelayTick P) (\<lambda>_ _. False)
     (\<lambda>err w'. err = e' \<and> published (mem w') = published (mem w) \<and> table (mem w') = snd claim) w"
    using assms(2,4-8) rows
    by (cases claim)
      (simp add: runRelayTick_def claimBatch_def publishOne_def publishWithRestoredTrace_def
        ch_publish_def getChannel_def wp_eqs Let_def numeral_eq_Suc claim_def loop_items_def)
  then show ?thesis by (auto simp: wp_def split: prod.splits sum.splits)
qed

definition broken_world :: "relay_mem world" where
  "broken_world = (start_world (sample_relay\<lparr>amqpChannel := Some 0\<rparr>))\<lparr>outcomes := \<lambda>n.
     if n = 0 then Done else Fails (new_Error ''down'')\<rparr>"

theorem unrecorded_failure_strands_batch_witness:
  "\<exists>w'. runRelayTick messaging_relay broken_world = (Inl (new_Error ''down''), w') \<and>
     published (mem w') = []"
proof -
  have c: "cfg (config (mem broken_world)) (key_BATCH messaging_relay) DEFAULT_BATCH_SIZE = 1"
    using sample_batch by (simp add: broken_world_def)
  have "select_claim_ids 0 (\<lambda>_. False) 1 (table sample_relay) = [3]"
    by (simp add: select_claim_ids_def claimable_def)
  then have "fst (sql_claim 0 (\<lambda>_. False) 1 ''me'' (table sample_relay)) \<noteq> []"
    by (simp add: sql_claim_def Let_def matching_def)
  then show ?thesis
    using unrecorded_failure_strands_batch [of broken_world 0 messaging_relay] c
    by (auto simp: broken_world_def sample_relay_def)
qed

lemma reap_keeps:
  "(\<And>r. f (unlock_row r) = f r) \<Longrightarrow> map f (snd (sql_reap now ttl t)) = map f t"
  by (simp add: sql_reap_def map_update_where)

text \<open>
  C30: The reaper. It never throws; and when the database answers, it has released exactly
  the locks of pending rows that \<open>isLockStale\<close> calls stale at the time of the statement, leaving
  status, attempts and fencing token of every row as they were.
\<close>

theorem reaper_releases_stale_locks:
  fixes w :: "relay_mem world" and P :: relay_params
  defines "ttl \<equiv> cfg (config (mem w)) (key_LOCK_TTL P) DEFAULT_LOCK_TTL_MS"
    and "now \<equiv> clock w (calls w)"
  shows "\<exists>w'. reapStaleLocks P w = (Inr (), w') \<and>
    (outcomes w (calls w) = Done \<longrightarrow>
      table (mem w') = map (\<lambda>r. if status r = Pending \<and>
          (case locked_at r of None \<Rightarrow> False | Some l \<Rightarrow> isLockStale l ttl now)
        then r\<lparr>locked_at := None, locked_by := None\<rparr> else r) (table (mem w))) \<and>
    map status (table (mem w')) = map status (table (mem w)) \<and>
    map attempts (table (mem w')) = map attempts (table (mem w)) \<and>
    map key_of (table (mem w')) = map key_of (table (mem w))"
proof -
  have stale: "lock_expired now ttl r \<longleftrightarrow> status r = Pending \<and>
      (case locked_at r of None \<Rightarrow> False | Some l \<Rightarrow> isLockStale l ttl now)" for r
    by (auto simp: lock_expired_def isLockStale_def split: option.split)
  have upd: "snd (sql_reap now ttl t) = map (\<lambda>r. if status r = Pending \<and>
          (case locked_at r of None \<Rightarrow> False | Some l \<Rightarrow> isLockStale l ttl now)
        then r\<lparr>locked_at := None, locked_by := None\<rparr> else r) t" for t
    by (simp add: sql_reap_def update_where_def stale unlock_row_def)
  have "wp (reapStaleLocks P) (\<lambda>_ w'.
    (outcomes w (calls w) = Done \<longrightarrow> table (mem w') = snd (sql_reap now ttl (table (mem w)))) \<and>
    (table (mem w') = table (mem w) \<or> table (mem w') = snd (sql_reap now ttl (table (mem w)))))
    (\<lambda>_ _. False) w"
    by (simp add: reapStaleLocks_def wp_eqs Let_def ttl_def now_def case_prod_beta split: outcome.split)
  then obtain w' where "reapStaleLocks P w = (Inr (), w')"
    and "outcomes w (calls w) = Done \<longrightarrow> table (mem w') = snd (sql_reap now ttl (table (mem w)))"
    and "table (mem w') = table (mem w) \<or> table (mem w') = snd (sql_reap now ttl (table (mem w)))"
    by (auto simp: wp_def split: prod.splits sum.splits)
  moreover from this(3) have "map status (table (mem w')) = map status (table (mem w)) \<and>
    map attempts (table (mem w')) = map attempts (table (mem w)) \<and>
    map key_of (table (mem w')) = map key_of (table (mem w))"
    using reap_keeps [of status] reap_keeps [of attempts] reap_keeps [of key_of]
    by (auto simp: key_of_def)
  ultimately show ?thesis unfolding upd by blast
qed

theorem reaper_releases_stale_locks_witness:
  "\<exists>w'. reapStaleLocks messaging_relay (start_world sample_relay) = (Inr (), w') \<and>
     table (mem w') = table sample_relay"
  using reaper_releases_stale_locks [of messaging_relay "start_world sample_relay"]
  by (auto simp: sample_row_def)

end
