(* ===== verification/Relay_System.thy ===== *)
theory Relay_System
  imports Outbox_Relay
begin

text \<open>
  The relay instances, the reaper, the operator and the writers of the outbox, interleaved: every
  step is one statement or one broker answer of the operations in \<open>Outbox_Table\<close> and
  \<open>Outbox_Relay\<close>, in any order, at any time, by any instance, and an instance may crash between
  any two of its steps. The invariants hold in every reachable state.
\<close>

section \<open>The interface of a fenced store\<close>

text \<open>
  What fencing relies on: \<open>ver\<close> is the current token of a row, \<open>claim\<close> hands out rows with the
  token raised by one and lowers no token, \<open>other\<close> (everything else that happens to the table)
  forgets no row and lowers no token.
\<close>

locale fenced_store =
  fixes ver :: "'t \<Rightarrow> int \<Rightarrow> int option"
    and ok :: "'t \<Rightarrow> bool"
    and claim :: "'a \<Rightarrow> 't \<Rightarrow> (int \<times> int) list \<times> 't"
    and other :: "'t \<Rightarrow> 't \<Rightarrow> bool"
  assumes claim_distinct: "ok t \<Longrightarrow> distinct (map fst (fst (claim a t)))"
    and claim_raises: "ok t \<Longrightarrow> (i, v) \<in> set (fst (claim a t)) \<Longrightarrow>
      ver t i = Some (v - 1) \<and> ver (snd (claim a t)) i = Some v"
    and claim_keeps: "ok t \<Longrightarrow> ver t i = Some u \<Longrightarrow> i \<notin> fst ` set (fst (claim a t)) \<Longrightarrow>
      ver (snd (claim a t)) i = Some u"
    and other_keeps: "ok t \<Longrightarrow> other t t' \<Longrightarrow> ver t i = Some u \<Longrightarrow> ver t' i = Some u"
begin

text \<open>The tokens handed out so far: all different, none above the current one.\<close>

definition tokens_ok :: "(int \<times> int) list \<Rightarrow> 't \<Rightarrow> bool" where
  "tokens_ok T t \<longleftrightarrow> distinct T \<and> (\<forall>(i, v)\<in>set T. \<exists>u. ver t i = Some u \<and> v \<le> u)"

lemma tokens_claim:
  assumes "tokens_ok T t" and "ok t"
  shows "tokens_ok (T @ fst (claim a t)) (snd (claim a t))"
proof -
  have old: "\<exists>u. ver (snd (claim a t)) i = Some u \<and> v \<le> u" if iv: "(i, v) \<in> set T" for i v
  proof -
    from iv assms(1) obtain u where u: "ver t i = Some u" "v \<le> u" by (auto simp: tokens_ok_def)
    show ?thesis
    proof (cases "i \<in> fst ` set (fst (claim a t))")
      case True
      then obtain v' where "(i, v') \<in> set (fst (claim a t))" by force
      from claim_raises [OF assms(2) this] u show ?thesis by auto
    next
      case False
      from claim_keeps [OF assms(2) u(1) False] u(2) show ?thesis by blast
    qed
  qed
  have new: "(i, v) \<notin> set T \<and> ver (snd (claim a t)) i = Some v" if "(i, v) \<in> set (fst (claim a t))"
    for i v
    using claim_raises [OF assms(2) that] assms(1) by (auto simp: tokens_ok_def)
  have "distinct (fst (claim a t))"
    using claim_distinct [OF assms(2)] by (rule distinct_map [THEN iffD1, THEN conjunct1])
  then show ?thesis
    using old new assms(1) by (auto simp: tokens_ok_def)
qed

lemma tokens_other: "tokens_ok T t \<Longrightarrow> ok t \<Longrightarrow> other t t' \<Longrightarrow> tokens_ok T t'"
  unfolding tokens_ok_def using other_keeps by blast

end

section \<open>The interleaved system\<close>

text \<open>
  The table; the claims in flight (the instance, the row as claimed, and whether the broker has
  confirmed its message); every claim made so far; the claimed rows whose message the broker has
  confirmed.
\<close>

record relay_system =
  db :: outbox_table
  inflight :: "(string \<times> ClaimedRow \<times> bool) set"
  claims :: "(int \<times> int) list"
  delivered_rows :: "ClaimedRow set"

definition initial_system :: relay_system where
  "initial_system = \<lparr>db = [], inflight = {}, claims = [], delivered_rows = {}\<rparr>"

definition claim_token :: "ClaimedRow \<Rightarrow> int \<times> int" where
  "claim_token cr = (c_id cr, c_lock_version cr)"

text \<open>
  One step. \<open>sent\<close>/\<open>failed\<close> are the two writes of \<open>publishOne\<close>, each with a variant in which the
  answer is lost: after a lost \<open>markSent\<close> the catch block still runs, after a lost
  \<open>markFailedAttempt\<close> the claim is dropped.
\<close>

inductive relay_step :: "relay_system \<Rightarrow> relay_system \<Rightarrow> bool" where
  insert_row: "i \<notin> row_id ` set (db s) \<Longrightarrow>
    relay_step s (s\<lparr>db := db s @ [(new_outbox_row now i ty pl corr eid tc)\<lparr>next_retry_at := due\<rparr>]\<rparr>)"
| claim: "sql_claim now c n inst (db s) = (rows, t') \<Longrightarrow>
    relay_step s (s\<lparr>db := t',
      inflight := inflight s \<union> (\<lambda>cr. (inst, cr, False)) ` set rows,
      claims := claims s @ map claim_token rows\<rparr>)"
| confirm: "(inst, cr, False) \<in> inflight s \<Longrightarrow>
    relay_step s (s\<lparr>inflight := insert (inst, cr, True) (inflight s - {(inst, cr, False)}),
      delivered_rows := insert cr (delivered_rows s)\<rparr>)"
| sent: "(inst, cr, True) \<in> inflight s \<Longrightarrow>
    relay_step s (s\<lparr>db := sent_table cr now (db s), inflight := inflight s - {(inst, cr, True)}\<rparr>)"
| sent_answer_lost: "(inst, cr, True) \<in> inflight s \<Longrightarrow>
    relay_step s (s\<lparr>db := sent_table cr now (db s)\<rparr>)"
| failed: "(inst, cr, b) \<in> inflight s \<Longrightarrow>
    relay_step s (s\<lparr>db := failed_table cr msg now (db s), inflight := inflight s - {(inst, cr, b)}\<rparr>)"
| crash: "relay_step s (s\<lparr>inflight := inflight s - {x. fst x = inst}\<rparr>)"
| reap: "relay_step s (s\<lparr>db := snd (sql_reap now ttl (db s))\<rparr>)"
| replay: "(\<And>r. P r \<Longrightarrow> status r = Failed) \<Longrightarrow>
    relay_step s (s\<lparr>db := snd (sql_replay P now (db s))\<rparr>)"

inductive relay_reachable :: "relay_system \<Rightarrow> bool" where
  start: "relay_reachable initial_system"
| step: "relay_reachable s \<Longrightarrow> relay_step s s' \<Longrightarrow> relay_reachable s'"

inductive_cases relay_stepE: "relay_step s s'"

section \<open>The SQL statements are a fenced store\<close>

text \<open>Everything but a claim: the keys of the present rows stay as they are, rows may be added.\<close>

definition keeps_keys :: "outbox_table \<Rightarrow> outbox_table \<Rightarrow> bool" where
  "keeps_keys t t' \<longleftrightarrow> (\<exists>rest. map key_of t' = map key_of t @ rest)"

definition claim_tokens :: "int \<times> (int \<Rightarrow> bool) \<times> nat \<times> string \<Rightarrow> outbox_table \<Rightarrow>
    (int \<times> int) list \<times> outbox_table" where
  "claim_tokens a t = (case a of (now, c, n, inst) \<Rightarrow>
     (map claim_token (fst (sql_claim now c n inst t)), snd (sql_claim now c n inst t)))"

interpretation sql: fenced_store version_of "\<lambda>t. distinct (map row_id t)" claim_tokens keeps_keys
proof
  fix t :: outbox_table and a :: "int \<times> (int \<Rightarrow> bool) \<times> nat \<times> string" and i v u :: int
  assume d: "distinct (map row_id t)"
  obtain now c n inst where a: "a = (now, c, n, inst)" by (cases a)
  let ?ids = "select_claim_ids now c n t"
  have fsts: "map fst (fst (claim_tokens a t)) = map row_id (filter (\<lambda>r. row_id r \<in> set ?ids) t)"
    using claimed_ids_map [of now c n inst t] by (simp add: claim_tokens_def a claim_token_def comp_def)
  show "distinct (map fst (fst (claim_tokens a t)))"
    unfolding fsts using d by (rule distinct_map_filter)
  have new: "version_of (snd (claim_tokens a t)) i =
      (if i \<in> set ?ids then map_option (\<lambda>v. v + 1) (version_of t i) else version_of t i)" for i
    by (simp add: claim_tokens_def a version_of_claim)
  show "version_of t i = Some (v - 1) \<and> version_of (snd (claim_tokens a t)) i = Some v"
    if iv: "(i, v) \<in> set (fst (claim_tokens a t))"
  proof -
    from iv obtain cr where cr: "cr \<in> set (fst (sql_claim now c n inst t))" "(i, v) = claim_token cr"
      by (auto simp: claim_tokens_def a)
    then obtain r where r: "r \<in> set t" "row_id r \<in> set ?ids" "cr = returning (lock_row now inst r)"
      by (auto elim: sql_claim_row)
    with cr(2) version_of_row [OF d r(1)] show ?thesis by (simp add: new claim_token_def)
  qed
  show "version_of (snd (claim_tokens a t)) i = Some u"
    if "version_of t i = Some u" "i \<notin> fst ` set (fst (claim_tokens a t))"
  proof -
    have "i \<notin> set ?ids"
    proof
      assume "i \<in> set ?ids"
      then obtain r where "r \<in> set t" "row_id r = i" by (auto dest: select_claim_ids_claimable)
      with \<open>i \<in> set ?ids\<close> have "i \<in> set (map fst (fst (claim_tokens a t)))" unfolding fsts by auto
      with that(2) show False by simp
    qed
    with that(1) show ?thesis by (simp add: new)
  qed
  show "version_of t' i = Some u" if "keeps_keys t t'" "version_of t i = Some u" for t'
    using that by (auto simp: keeps_keys_def version_of_def map_add_def split: option.split)
qed

section \<open>The invariant\<close>

definition c_content :: "ClaimedRow \<Rightarrow> string \<times> jsval \<times> string option \<times> string option
    \<times> (string \<times> string) list option" where
  "c_content cr =
     (c_event_type cr, c_payload cr, c_correlation_id cr, c_event_id cr, c_trace_context cr)"

lemma c_content_returning [simp]: "c_content (returning r) = content r"
  by (simp add: c_content_def content_def)

text \<open>A row: its budget, and that a sent row's message was delivered.\<close>

definition row_ok :: "ClaimedRow set \<Rightarrow> outbox_row \<Rightarrow> bool" where
  "row_ok dl r \<longleftrightarrow> max_attempts r = 5 \<and> 0 \<le> attempts r \<and>
     (if status r = Failed then attempts r = 5 else attempts r < 5) \<and>
     (status r = Sent \<longrightarrow> (\<exists>cr\<in>dl. c_id cr = row_id r \<and> c_content cr = content r))"

text \<open>
  A claim in flight: confirmed ones are delivered; it has the row's content; and while its token is
  the row's, the row is as it was claimed, or marked sent by this very claim.
\<close>

definition flight_ok :: "outbox_table \<Rightarrow> ClaimedRow set \<Rightarrow> string \<times> ClaimedRow \<times> bool \<Rightarrow> bool" where
  "flight_ok t dl x = (case x of (inst, cr, b) \<Rightarrow> (b \<longrightarrow> cr \<in> dl) \<and>
     (\<forall>r\<in>set t. row_id r = c_id cr \<longrightarrow> c_content cr = content r \<and> c_max_attempts cr = 5 \<and>
        (lock_version r = c_lock_version cr \<longrightarrow> attempts r = c_attempts cr \<and>
           (status r = Pending \<or> status r = Sent \<and> b))))"

definition token :: "string \<times> ClaimedRow \<times> bool \<Rightarrow> int \<times> int" where
  "token x = claim_token (fst (snd x))"

definition relay_inv :: "relay_system \<Rightarrow> bool" where
  "relay_inv s \<longleftrightarrow> distinct (map row_id (db s)) \<and> sql.tokens_ok (claims s) (db s) \<and>
     (\<forall>r\<in>set (db s). row_ok (delivered_rows s) r) \<and>
     (\<forall>x\<in>inflight s. flight_ok (db s) (delivered_rows s) x) \<and>
     token ` inflight s \<subseteq> set (claims s) \<and> inj_on token (inflight s)"

lemma row_ok_mono: "row_ok dl r \<Longrightarrow> dl \<subseteq> dl' \<Longrightarrow> row_ok dl' r"
  unfolding row_ok_def by blast

lemma flight_ok_mono: "flight_ok t dl x \<Longrightarrow> dl \<subseteq> dl' \<Longrightarrow> flight_ok t dl' x"
  unfolding flight_ok_def by (auto split: prod.splits)

lemma row_ok_keep:
  "row_ok dl r \<Longrightarrow> row_ok dl (lock_row now inst r)" "row_ok dl r \<Longrightarrow> row_ok dl (unlock_row r)"
  "row_ok dl r \<Longrightarrow> row_ok dl (replay_row now r)"
  by (simp_all add: row_ok_def)

text \<open>
  A statement that is not a claim maps the rows in place. It keeps the invariant when every row it
  produces is fine, and fits the claims in flight.
\<close>

lemma relay_inv_update:
  assumes inv: "relay_inv s" and fl: "fl' \<subseteq> inflight s"
    and keys: "\<And>r. key_of (f r) = key_of r"
    and rows: "\<And>r. r \<in> set (db s) \<Longrightarrow> row_ok (delivered_rows s) (f r)"
    and flights: "\<And>r x. r \<in> set (db s) \<Longrightarrow> x \<in> fl' \<Longrightarrow> flight_ok [r] (delivered_rows s) x \<Longrightarrow>
      flight_ok [f r] (delivered_rows s) x"
  shows "relay_inv (s\<lparr>db := map f (db s), inflight := fl'\<rparr>)"
proof -
  have "row_id (f r) = row_id r" for r using keys [of r] by (simp add: key_of_def)
  then have ids: "map (row_id \<circ> f) (db s) = map row_id (db s)" by simp
  have "map key_of (map f (db s)) = map key_of (db s)" using keys by simp
  then have "keeps_keys (db s) (map f (db s))" unfolding keeps_keys_def by (metis append_Nil2)
  then have "sql.tokens_ok (claims s) (map f (db s))"
    using inv by (auto simp: relay_inv_def intro: sql.tokens_other)
  moreover have "flight_ok (map f (db s)) (delivered_rows s) x" if "x \<in> fl'" for x
  proof -
    have "flight_ok [r] (delivered_rows s) x" if "r \<in> set (db s)" for r
      using that \<open>x \<in> fl'\<close> inv fl by (fastforce simp: relay_inv_def flight_ok_def split: prod.splits)
    then have "flight_ok [f r] (delivered_rows s) x" if "r \<in> set (db s)" for r
      using that \<open>x \<in> fl'\<close> flights by blast
    then show ?thesis
      using \<open>x \<in> fl'\<close> inv fl by (fastforce simp: relay_inv_def flight_ok_def split: prod.splits)
  qed
  moreover have "distinct (map (row_id \<circ> f) (db s))"
    unfolding ids using inv by (simp add: relay_inv_def)
  moreover have "token ` fl' \<subseteq> set (claims s)" "inj_on token fl'"
    using inv fl by (auto simp: relay_inv_def image_subset_iff intro: inj_on_subset)
  ultimately show ?thesis
    using rows unfolding relay_inv_def by simp
qed

lemma key_of_updates [simp]:
  "key_of (sent_row now r) = key_of r" "key_of (failed_row st n e a r) = key_of r"
  "key_of (unlock_row r) = key_of r" "key_of (replay_row now r) = key_of r"
  by (simp_all add: key_of_def)

lemma locked_max [simp]:
  "max_attempts (lock_row now inst r) = max_attempts r" "attempts (sent_row now r) = attempts r"
  by simp_all

text \<open>Marking a confirmed claim sent, with or without the answer.\<close>

lemma relay_inv_sent:
  assumes inv: "relay_inv s" and x: "(inst, cr, True) \<in> inflight s" and fl: "fl' \<subseteq> inflight s"
    and fl_own: "\<And>y. y \<in> fl' \<Longrightarrow> token y = claim_token cr \<Longrightarrow> snd (snd y)"
  shows "relay_inv (s\<lparr>db := sent_table cr now (db s), inflight := fl'\<rparr>)"
  unfolding sent_table_def sql_mark_sent_def update_where_def snd_conv
proof (rule relay_inv_update [OF inv fl])
  fix r assume r: "r \<in> set (db s)"
  from inv x have f: "flight_ok (db s) (delivered_rows s) (inst, cr, True)" by (auto simp: relay_inv_def)
  from inv r have "row_ok (delivered_rows s) r" by (simp add: relay_inv_def)
  with f r show "row_ok (delivered_rows s) (if cas (c_id cr) (c_lock_version cr) r then sent_row now r else r)"
    by (auto simp: row_ok_def flight_ok_def cas_def)
next
  fix r y assume "y \<in> fl'" and "flight_ok [r] (delivered_rows s) y"
  with fl_own [of y] show "flight_ok [if cas (c_id cr) (c_lock_version cr) r then sent_row now r else r]
      (delivered_rows s) y"
    by (auto simp: flight_ok_def cas_def token_def claim_token_def split: prod.splits)
qed simp

text \<open>Recording a failed attempt ends the claim.\<close>

lemma relay_inv_failed:
  assumes inv: "relay_inv s" and x: "(inst, cr, b) \<in> inflight s"
  shows "relay_inv (s\<lparr>db := failed_table cr msg now (db s), inflight := inflight s - {(inst, cr, b)}\<rparr>)"
  unfolding failed_table_def Let_def sql_mark_failed_def update_where_def snd_conv
proof (rule relay_inv_update [OF inv])
  let ?oc = "computeFailureOutcome (c_attempts cr) (c_max_attempts cr) now"
  fix r assume r: "r \<in> set (db s)"
  from inv x have f: "flight_ok (db s) (delivered_rows s) (inst, cr, b)" by (auto simp: relay_inv_def)
  from inv r have "row_ok (delivered_rows s) r" by (simp add: relay_inv_def)
  with f r show "row_ok (delivered_rows s) (if cas (c_id cr) (c_lock_version cr) r
      then failed_row (failed_status ?oc) (c_attempts cr + 1) msg (failed_retry_at now ?oc) r else r)"
    by (auto simp: row_ok_def flight_ok_def cas_def failed_status_def computeFailureOutcome_def Let_def
        split: if_splits)
next
  let ?oc = "computeFailureOutcome (c_attempts cr) (c_max_attempts cr) now"
  fix r y assume y: "y \<in> inflight s - {(inst, cr, b)}" and "flight_ok [r] (delivered_rows s) y"
  have "token y \<noteq> claim_token cr"
  proof
    assume "token y = claim_token cr"
    then have "token y = token (inst, cr, b)" by (simp add: token_def)
    moreover have "inj_on token (inflight s)" using inv by (simp add: relay_inv_def)
    ultimately have "y = (inst, cr, b)" using x y by (auto dest: inj_onD)
    with y show False by simp
  qed
  with \<open>flight_ok [r] (delivered_rows s) y\<close>
  show "flight_ok [if cas (c_id cr) (c_lock_version cr) r
      then failed_row (failed_status ?oc) (c_attempts cr + 1) msg (failed_retry_at now ?oc) r else r]
      (delivered_rows s) y"
    by (auto simp: flight_ok_def cas_def token_def claim_token_def split: prod.splits)
qed auto

lemma relay_inv_rows:
  assumes inv: "relay_inv s" and keys: "\<And>r. key_of (f r) = key_of r"
    and "\<And>r. row_ok (delivered_rows s) r \<Longrightarrow> row_ok (delivered_rows s) (f r)"
    and "\<And>r. content (f r) = content r"
    and "\<And>r. f r \<noteq> r \<Longrightarrow> status r = Failed \<or> (status (f r) = status r \<and> attempts (f r) = attempts r)"
  shows "relay_inv (s\<lparr>db := map f (db s)\<rparr>)"
proof -
  have k: "row_id (f r) = row_id r \<and> lock_version (f r) = lock_version r" for r
    using keys [of r] by (simp add: key_of_def)
  have "relay_inv (s\<lparr>db := map f (db s), inflight := inflight s\<rparr>)"
  proof (rule relay_inv_update [OF inv _ keys])
    fix r x assume "flight_ok [r] (delivered_rows s) x"
    then show "flight_ok [f r] (delivered_rows s) x"
      using assms(4) [of r] assms(5) [of r] k [of r]
      by (cases "f r = r") (auto simp: flight_ok_def split: prod.splits)
  qed (use inv assms(3) in \<open>auto simp: relay_inv_def\<close>)
  then show ?thesis by simp
qed

lemma relay_inv_reap: "relay_inv s \<Longrightarrow> relay_inv (s\<lparr>db := snd (sql_reap now ttl (db s))\<rparr>)"
  unfolding sql_reap_def update_where_def snd_conv
  by (rule relay_inv_rows) (auto simp: row_ok_keep)

lemma relay_inv_replay: "relay_inv s \<Longrightarrow> (\<And>r. P r \<Longrightarrow> status r = Failed) \<Longrightarrow>
    relay_inv (s\<lparr>db := snd (sql_replay P now (db s))\<rparr>)"
  unfolding sql_replay_def update_where_def snd_conv
  by (rule relay_inv_rows) (auto simp: row_ok_keep split: if_splits)

lemma flight_unique:
  assumes "relay_inv s" and "(inst, cr, b) \<in> inflight s" and "y \<in> inflight s"
    and "token y = claim_token cr"
  shows "y = (inst, cr, b)"
proof -
  have "token y = token (inst, cr, b)" using assms(4) by (simp add: token_def)
  with assms(1-3) show ?thesis by (auto simp: relay_inv_def dest: inj_onD)
qed

lemma relay_inv_drop: "relay_inv s \<Longrightarrow> fl' \<subseteq> inflight s \<Longrightarrow> relay_inv (s\<lparr>inflight := fl'\<rparr>)"
  unfolding relay_inv_def by (auto simp: image_subset_iff intro: inj_on_subset)

lemma relay_inv_confirm:
  assumes inv: "relay_inv s" and x: "(inst, cr, False) \<in> inflight s"
  shows "relay_inv (s\<lparr>inflight := insert (inst, cr, True) (inflight s - {(inst, cr, False)}),
      delivered_rows := insert cr (delivered_rows s)\<rparr>)"
proof -
  have fl: "flight_ok (db s) (insert cr (delivered_rows s)) (inst, cr, True)"
    using inv x by (fastforce simp: relay_inv_def flight_ok_def)
  moreover have "token y \<noteq> token (inst, cr, True)" if "y \<in> inflight s - {(inst, cr, False)}" for y
    using flight_unique [OF inv x, of y] that by (auto simp: token_def)
  then have "token (inst, cr, True) \<notin> token ` (inflight s - {(inst, cr, False)})"
    by (metis imageE)
  moreover have "inj_on token (inflight s - {(inst, cr, False)})"
    using inv by (auto simp: relay_inv_def intro: inj_on_subset)
  ultimately have "inj_on token (insert (inst, cr, True) (inflight s - {(inst, cr, False)}))"
    by (metis inj_on_insert Diff_empty Diff_insert0 image_eqI)
  moreover have "token (inst, cr, True) \<in> set (claims s)"
    using inv x by (force simp: relay_inv_def token_def)
  ultimately show ?thesis
    using inv fl unfolding relay_inv_def
    by (auto intro: row_ok_mono flight_ok_mono)
qed

text \<open>A claim in flight belongs to a row of the table, whose token it does not exceed.\<close>

lemma flight_row:
  assumes "relay_inv s" and "x \<in> inflight s"
  obtains r where "r \<in> set (db s)" "row_id r = c_id (fst (snd x))"
    "c_lock_version (fst (snd x)) \<le> lock_version r"
proof -
  have "token x \<in> set (claims s)" using assms by (auto simp: relay_inv_def)
  then obtain u where "version_of (db s) (c_id (fst (snd x))) = Some u" "c_lock_version (fst (snd x)) \<le> u"
    using assms(1) by (fastforce simp: relay_inv_def sql.tokens_ok_def token_def claim_token_def)
  with assms(1) that show ?thesis by (auto simp: relay_inv_def version_of_iff)
qed

lemma relay_inv_insert:
  assumes inv: "relay_inv s" and new: "i \<notin> row_id ` set (db s)"
  shows "relay_inv (s\<lparr>db := db s @ [(new_outbox_row now i ty pl corr eid tc)\<lparr>next_retry_at := due\<rparr>]\<rparr>)"
    (is "relay_inv (s\<lparr>db := _ @ [?row]\<rparr>)")
proof -
  have "sql.tokens_ok (claims s) (db s @ [?row])"
  proof (rule sql.tokens_other)
    show "keeps_keys (db s) (db s @ [?row])"
      by (simp add: keeps_keys_def)
  qed (use inv in \<open>simp_all add: relay_inv_def\<close>)
  moreover have "flight_ok (db s @ [?row]) (delivered_rows s) x"
    if x: "x \<in> inflight s" for x
  proof -
    obtain r where "r \<in> set (db s)" "row_id r = c_id (fst (snd x))"
      by (rule flight_row [OF inv x])
    with new have "i \<noteq> c_id (fst (snd x))" by (metis imageI)
    with inv x show ?thesis by (fastforce simp: relay_inv_def flight_ok_def split: prod.splits)
  qed
  moreover have "row_ok (delivered_rows s) (?row)"
    by (simp add: row_ok_def)
  ultimately show ?thesis using inv new by (auto simp: relay_inv_def)
qed

lemma relay_inv_claim:
  assumes inv: "relay_inv s" and run: "sql_claim now c n inst (db s) = (rows, t')"
  shows "relay_inv (s\<lparr>db := t', inflight := inflight s \<union> (\<lambda>cr. (inst, cr, False)) ` set rows,
      claims := claims s @ map claim_token rows\<rparr>)"
proof -
  define ids where "ids = set (select_claim_ids now c n (db s))"
  have t': "t' = map (\<lambda>r. if row_id r \<in> ids then lock_row now inst r else r) (db s)"
    using run by (auto simp: sql_claim_def Let_def update_where_def ids_def)
  have d: "distinct (map row_id (db s))" using inv by (simp add: relay_inv_def)
  have ids: "map row_id t' = map row_id (db s)" by (simp add: t')
  have rows: "\<exists>r\<in>set (db s). row_id r \<in> ids \<and> claimable now c r \<and> cr = returning (lock_row now inst r)"
    if "cr \<in> set rows" for cr
  proof -
    have "cr \<in> set (fst (sql_claim now c n inst (db s)))" using that run by simp
    then obtain r where "r \<in> set (db s)" "row_id r \<in> set (select_claim_ids now c n (db s))"
      "cr = returning (lock_row now inst r)" by (rule sql_claim_row)
    with select_claim_ids_row [OF this(2,1) d] show ?thesis by (auto simp: ids_def)
  qed
  have "claim_tokens (now, c, n, inst) (db s) = (map claim_token rows, t')"
    by (simp add: claim_tokens_def run)
  then have tok: "sql.tokens_ok (claims s @ map claim_token rows) t'"
    using sql.tokens_claim [of "claims s" "db s" "(now, c, n, inst)"] inv by (simp add: relay_inv_def)
  have old: "flight_ok t' (delivered_rows s) x" if x: "x \<in> inflight s" for x
  proof -
    have "flight_ok [if row_id r \<in> ids then lock_row now inst r else r] (delivered_rows s) x"
      if r: "r \<in> set (db s)" for r
    proof -
      obtain q where "q \<in> set (db s)" "row_id q = c_id (fst (snd x))"
        "c_lock_version (fst (snd x)) \<le> lock_version q"
        by (rule flight_row [OF inv x])
      with r have "row_id r = c_id (fst (snd x)) \<Longrightarrow> c_lock_version (fst (snd x)) \<le> lock_version r"
        using distinct_ids_row [OF d] by metis
      moreover have "flight_ok (db s) (delivered_rows s) x" using inv x by (simp add: relay_inv_def)
      ultimately show ?thesis using r by (auto simp: flight_ok_def split: prod.splits)
    qed
    moreover have "flight_ok (db s) (delivered_rows s) x" using inv x by (simp add: relay_inv_def)
    ultimately show ?thesis by (fastforce simp: flight_ok_def t' split: prod.splits)
  qed
  have new: "flight_ok t' (delivered_rows s) (inst, cr, False)" if "cr \<in> set rows" for cr
  proof -
    from rows [OF that] obtain r where r: "r \<in> set (db s)" "row_id r \<in> ids" "claimable now c r"
      "cr = returning (lock_row now inst r)" by blast
    have "q = r" if "q \<in> set (db s)" "row_id q = row_id r" for q
      using distinct_ids_row [OF d that(1) r(1) that(2)] .
    moreover have "max_attempts r = 5" using inv r(1) by (simp add: relay_inv_def row_ok_def)
    ultimately show ?thesis
      using r by (fastforce simp: flight_ok_def t' claimable_def)
  qed
  have dist: "distinct (claims s @ map claim_token rows)" using tok by (simp add: sql.tokens_ok_def)
  have "inj_on token (inflight s \<union> (\<lambda>cr. (inst, cr, False)) ` set rows)"
  proof -
    have "inj_on token ((\<lambda>cr. (inst, cr, False)) ` set rows)"
      using dist by (auto simp: inj_on_def token_def distinct_map)
    moreover have "token ` inflight s \<inter> token ` ((\<lambda>cr. (inst, cr, False)) ` set rows) = {}"
    proof -
      have "token ` ((\<lambda>cr. (inst, cr, False)) ` set rows) = set (map claim_token rows)"
        by (simp add: image_image token_def)
      moreover have "token ` inflight s \<subseteq> set (claims s)" using inv by (simp add: relay_inv_def)
      moreover have "set (claims s) \<inter> set (map claim_token rows) = {}" using dist by simp
      ultimately show ?thesis by blast
    qed
    then have "token ` (inflight s - (\<lambda>cr. (inst, cr, False)) ` set rows) \<inter>
        token ` ((\<lambda>cr. (inst, cr, False)) ` set rows - inflight s) = {}" by blast
    ultimately show ?thesis using inv by (simp add: relay_inv_def inj_on_Un)
  qed
  moreover have "token ` (inflight s \<union> (\<lambda>cr. (inst, cr, False)) ` set rows)
      \<subseteq> set (claims s @ map claim_token rows)"
    using inv by (auto simp: relay_inv_def token_def)
  moreover have "row_ok (delivered_rows s) r" if "r \<in> set t'" for r
    using that inv by (auto simp: t' relay_inv_def row_ok_keep)
  ultimately show ?thesis using tok old new d by (auto simp: relay_inv_def ids)
qed

lemma relay_inv_step: "relay_step s s' \<Longrightarrow> relay_inv s \<Longrightarrow> relay_inv s'"
proof (induction rule: relay_step.induct)
  case (sent inst cr s now)
  show ?case
    by (rule relay_inv_sent [OF sent(2,1)]) (use flight_unique [OF sent(2,1)] in auto)
next
  case (sent_answer_lost inst cr s now)
  have "relay_inv (s\<lparr>db := sent_table cr now (db s), inflight := inflight s\<rparr>)"
    by (rule relay_inv_sent [OF sent_answer_lost(2,1)])
      (use flight_unique [OF sent_answer_lost(2,1)] in \<open>simp, metis snd_conv\<close>)
  then show ?case by simp
qed (auto intro: relay_inv_insert relay_inv_claim relay_inv_confirm relay_inv_failed relay_inv_drop
    relay_inv_reap relay_inv_replay)

text \<open>No step takes a row away or changes what it says.\<close>

lemma relay_step_content: "relay_step s s' \<Longrightarrow> \<exists>rest. map content (db s') = map content (db s) @ rest"
proof (induction rule: relay_step.induct)
  case (claim now c n inst s rows t')
  then have "map content t' = map content (db s)"
    using contents_update_where(1) [of now c n inst "db s"] by simp
  then show ?case by simp
qed (simp_all add: sent_table_def failed_table_def Let_def contents_update_where)

interpretation relays: step_system relay_step relay_inv
  by unfold_locales (rule relay_inv_step)

lemma relay_reachable_schedule: "relay_reachable s \<Longrightarrow> relay_step\<^sup>*\<^sup>* initial_system s"
  by (induction rule: relay_reachable.induct) (auto intro: rtranclp.rtrancl_into_rtrancl)

lemma relay_inv_reachable: "relay_reachable s \<Longrightarrow> relay_inv s"
  by (rule relays.schedule_keeps [OF relay_reachable_schedule])
    (simp_all add: relay_inv_def initial_system_def sql.tokens_ok_def)

section \<open>The relay of one instance runs inside the system\<close>

definition frees :: "string \<Rightarrow> ClaimedRow \<Rightarrow> relay_system \<Rightarrow> relay_system \<Rightarrow> bool" where
  "frees inst cr s s' \<longleftrightarrow> inflight s - {(inst, cr, False), (inst, cr, True)} \<subseteq> inflight s'"

text \<open>Every effect of \<open>publishOne\<close> is a sequence of system steps that touches its own claim only.\<close>

lemma publish_effect_steps:
  assumes "publish_effect P cr w w'" and "db s = table (mem w)" and "(inst, cr, False) \<in> inflight s"
  shows "\<exists>s'. rtranclp relay_step s s' \<and> db s' = table (mem w') \<and> frees inst cr s s'"
proof -
  let ?s1 = "s\<lparr>inflight := insert (inst, cr, True) (inflight s - {(inst, cr, False)}),
      delivered_rows := insert cr (delivered_rows s)\<rparr>"
  have s1: "relay_step s ?s1" using assms(3) by (rule relay_step.confirm)
  have fl1: "(inst, cr, True) \<in> inflight ?s1" by simp
  from assms(1) consider
      (sent) now where "table (mem w') = sent_table cr now (db s)"
    | (failed) msg now where "table (mem w') = failed_table cr msg now (db s)"
    | (both) msg now now' where "table (mem w') = failed_table cr msg now (sent_table cr now' (db s))"
    unfolding publish_effect_def Let_def assms(2) by blast
  then show ?thesis
  proof cases
    case sent
    have "rtranclp relay_step s
        (?s1\<lparr>db := sent_table cr now (db ?s1), inflight := inflight ?s1 - {(inst, cr, True)}\<rparr>)"
      using relay_step.sent [OF fl1, of now] s1 by (meson converse_rtranclp_into_rtranclp r_into_rtranclp)
    note st = this
    show ?thesis by (intro exI conjI, rule st) (use sent in \<open>auto simp: frees_def\<close>)
  next
    case failed
    have "rtranclp relay_step s
        (s\<lparr>db := failed_table cr msg now (db s), inflight := inflight s - {(inst, cr, False)}\<rparr>)"
      using relay_step.failed [OF assms(3), of msg now] by (rule r_into_rtranclp)
    note st = this
    show ?thesis by (intro exI conjI, rule st) (use failed in \<open>auto simp: frees_def\<close>)
  next
    case both
    let ?s2 = "?s1\<lparr>db := sent_table cr now' (db ?s1)\<rparr>"
    have s2: "relay_step ?s1 ?s2" using fl1 by (rule relay_step.sent_answer_lost)
    have "(inst, cr, True) \<in> inflight ?s2" by simp
    from relay_step.failed [OF this, of msg now]
    have "rtranclp relay_step s (?s2\<lparr>db := failed_table cr msg now (db ?s2),
        inflight := inflight ?s2 - {(inst, cr, True)}\<rparr>)"
      using s1 s2 by (meson converse_rtranclp_into_rtranclp r_into_rtranclp)
    note st = this
    show ?thesis by (intro exI conjI, rule st) (use both in \<open>auto simp: frees_def\<close>)
  qed
qed

lemma publishOne_steps:
  assumes "publishOne P cr w = (res, w')" and "db s = table (mem w)" and "(inst, cr, False) \<in> inflight s"
  shows "\<exists>s'. rtranclp relay_step s s' \<and> db s' = table (mem w') \<and> frees inst cr s s'"
proof -
  have "table (mem w') = table (mem w) \<or> publish_effect P cr w w'"
    using publishOne_run [OF assms(1)]
    by (auto simp: publish_returns_def publish_throws_def split: sum.splits)
  then show ?thesis
  proof
    assume "table (mem w') = table (mem w)"
    with assms(2) show ?thesis by (intro exI [of _ s]) (auto simp: frees_def)
  qed (rule publish_effect_steps [OF _ assms(2,3)])
qed

lemma loop_steps:
  assumes "for_each (publishOne P) rows w = (res, w')" and "db s = table (mem w)"
    and "\<forall>cr\<in>set rows. (inst, cr, False) \<in> inflight s" and "distinct rows"
  shows "\<exists>s'. rtranclp relay_step s s' \<and> db s' = table (mem w')"
  using assms
proof (induction rows arbitrary: w s)
  case Nil
  then show ?case by (auto simp: ret_def intro: exI [of _ s])
next
  case (Cons cr rows)
  obtain r1 w1 where one: "publishOne P cr w = (r1, w1)" by (metis surj_pair)
  obtain s1 where s1: "rtranclp relay_step s s1" "db s1 = table (mem w1)" "frees inst cr s s1"
    using publishOne_steps [OF one Cons.prems(2)] Cons.prems(3) by auto
  show ?case
  proof (cases r1)
    case (Inl e)
    with Cons.prems(1) one s1 show ?thesis by (auto simp: andThen_def bind_def)
  next
    case (Inr u)
    then have "for_each (publishOne P) rows w1 = (res, w')"
      using Cons.prems(1) one by (simp add: andThen_def bind_def)
    moreover have "\<forall>cr\<in>set rows. (inst, cr, False) \<in> inflight s1"
      using Cons.prems(3,4) s1(3) by (auto simp: frees_def)
    ultimately obtain s2 where "rtranclp relay_step s1 s2" "db s2 = table (mem w')"
      using Cons.IH [OF _ s1(2)] Cons.prems(4) by auto
    with s1(1) show ?thesis by (meson rtranclp_trans)
  qed
qed

section \<open>Properties\<close>

text \<open>Whatever the loop runs over: a driver's pair leaves the table alone.\<close>

lemma items_steps:
  assumes "for_each (publish_item P) (loop_items d rows) w = (res, w')" and "db s = table (mem w)"
    and "\<forall>cr\<in>set rows. (inst, cr, False) \<in> inflight s" and "distinct rows"
  shows "\<exists>s'. rtranclp relay_step s s' \<and> db s' = table (mem w')"
proof (cases d)
  case RowsOnly
  with assms show ?thesis using loop_steps [of P rows w res w' s inst] by (simp add: loop_items_rows)
next
  case RowsAndCount
  have "table (mem w') = table (mem w)"
    using assms(1) wp_publish_no_row [of w]
    by (auto simp: RowsAndCount loop_items_def andThen_def bind_def wp_def split: prod.splits sum.splits)
  then show ?thesis using assms(2) by (intro exI [of _ s]) simp
qed

text \<open>
  C12: A tick refines the system. Whatever broker and database do, the table a tick leaves is
  the table of a state that the interleaved system reaches by steps from the tick's start; so
  what is invariant of the system holds after every tick.
\<close>

theorem tick_refines_system:
  assumes "relay_reachable s" and "db s = table (mem w)" and "runRelayTick P w = (res, w')"
  shows "\<exists>s'. rtranclp relay_step s s' \<and> db s' = table (mem w') \<and> relay_reachable s'"
proof -
  obtain r1 w1 where claim: "claimBatch P w = (r1, w1)" by (metis surj_pair)
  let ?c = "sql_claim (clock w (calls w)) (contended (mem w))
     (nat (cfg (config (mem w)) (key_BATCH P) DEFAULT_BATCH_SIZE)) (instanceId (mem w)) (db s)"
  let ?s1 = "s\<lparr>db := snd ?c,
      inflight := inflight s \<union> (\<lambda>cr. (instanceId (mem w), cr, False)) ` set (fst ?c),
      claims := claims s @ map claim_token (fst ?c)\<rparr>"
  have s1: "relay_step s ?s1" by (rule relay_step.claim) simp
  have steps: "\<exists>s'. rtranclp relay_step s s' \<and> db s' = table (mem w')"
  proof (cases r1)
    case (Inl e)
    have "table (mem w1) = table (mem w) \<or> table (mem w1) = snd ?c"
      using claim assms(2) by (auto simp: claimBatch_def io_defs Let_def split: outcome.splits
          prod.splits if_splits)
    moreover have "w' = w1"
      using assms(3) claim Inl by (auto simp: runRelayTick_def io_defs)
    moreover have "\<exists>s'. rtranclp relay_step s s' \<and> db s' = table (mem w1)"
      if "table (mem w1) = table (mem w)"
      using that assms(2) by (intro exI [of _ s]) simp
    moreover have "\<exists>s'. rtranclp relay_step s s' \<and> db s' = table (mem w1)"
      if "table (mem w1) = snd ?c"
      using that s1 by (intro exI [of _ ?s1]) simp
    ultimately show ?thesis by blast
  next
    case (Inr rows)
    have c: "rows = fst ?c" "table (mem w1) = snd ?c"
      using claimBatch_run [OF claim [unfolded Inr]] assms(2) by (metis fst_conv snd_conv)+
    have "for_each (publish_item P) (loop_items (pg_update (mem w1)) rows) w1 = (res, w')"
      using assms(3) claim Inr
      by (cases "loop_items (pg_update (mem w1)) rows = []") (auto simp: runRelayTick_def io_defs)
    moreover have "distinct rows"
      using relay_inv_reachable [OF relay_reachable.step [OF assms(1) s1]]
      by (simp add: relay_inv_def sql.tokens_ok_def c distinct_map)
    ultimately have "\<exists>s'. rtranclp relay_step ?s1 s' \<and> db s' = table (mem w')"
      by (intro items_steps [where inst = "instanceId (mem w)"]) (auto simp: c)
    with s1 show ?thesis by (meson converse_rtranclp_into_rtranclp)
  qed
  moreover have "relay_reachable s'" if "rtranclp relay_step s s'" for s'
    using that assms(1) by induction (auto intro: relay_reachable.step)
  ultimately show ?thesis by blast
qed

text \<open>A run of the system: one row is inserted, claimed, confirmed and marked sent.\<close>

definition run_row :: outbox_row where
  "run_row = new_outbox_row 0 1 ''MessagePersisted'' JNull None None None"

definition run_claim :: ClaimedRow where
  "run_claim = returning (lock_row 0 ''a'' run_row)"

definition run_inserted :: relay_system where
  "run_inserted = initial_system\<lparr>db := [run_row]\<rparr>"

definition run_claimed :: relay_system where
  "run_claimed = \<lparr>db = [lock_row 0 ''a'' run_row], inflight = {(''a'', run_claim, False)},
     claims = [(1, 1)], delivered_rows = {}\<rparr>"

definition run_sent :: relay_system where
  "run_sent = \<lparr>db = [sent_row 0 (lock_row 0 ''a'' run_row)], inflight = {}, claims = [(1, 1)],
     delivered_rows = {run_claim}\<rparr>"

lemma run_row_sel [simp]: "row_id run_row = 1" "status run_row = Pending" "lock_version run_row = 0"
  "next_retry_at run_row = 0" "attempts run_row = 0"
  by (simp_all add: run_row_def) (simp add: new_outbox_row_def)

lemma run_inserted_reachable: "relay_reachable run_inserted"
  using relay_step.insert_row [where i = 1 and s = initial_system and now = 0 and due = 0 and
      ty = "''MessagePersisted''" and pl = JNull and corr = None and eid = None and tc = None]
  by (auto simp: run_inserted_def run_row_def initial_system_def new_outbox_row_def
      intro: relay_reachable.step [OF relay_reachable.start, unfolded initial_system_def])

lemma run_claimed_reachable: "relay_reachable run_claimed"
proof (rule relay_reachable.step [OF run_inserted_reachable])
  have "sql_claim 0 (\<lambda>_. False) 1 ''a'' (db run_inserted) = ([run_claim], [lock_row 0 ''a'' run_row])"
    by (simp add: run_inserted_def sql_claim_def Let_def select_claim_ids_def claimable_def
        matching_def run_claim_def)
  from relay_step.claim [OF this] show "relay_step run_inserted run_claimed"
    by (simp add: run_inserted_def run_claimed_def initial_system_def claim_token_def run_claim_def)
qed

lemma run_sent_reachable: "relay_reachable run_sent"
proof (rule relay_reachable.step [OF relay_reachable.step [OF run_claimed_reachable]])
  let ?s = "run_claimed\<lparr>inflight := {(''a'', run_claim, True)}, delivered_rows := {run_claim}\<rparr>"
  show "relay_step run_claimed ?s"
    using relay_step.confirm [of "''a''" run_claim run_claimed] by (simp add: run_claimed_def)
  show "relay_step ?s run_sent"
    using relay_step.sent [of "''a''" run_claim ?s 0]
    by (simp add: run_claimed_def run_sent_def sent_table_def sql_mark_sent_def cas_def run_claim_def)
qed

theorem tick_refines_system_witness:
  "\<exists>s'. rtranclp relay_step run_inserted s' \<and> relay_reachable s' \<and>
     db s' = table (mem (snd (runRelayTick messaging_relay
       (start_world (sample_relay\<lparr>table := [run_row]\<rparr>)))))"
  using tick_refines_system [OF run_inserted_reachable, of "start_world (sample_relay\<lparr>table := [run_row]\<rparr>)"
      messaging_relay, OF _ surjective_pairing]
  by (auto simp: run_inserted_def)

text \<open>
  C11: Fencing tokens. In every reachable state no two claims ever made carry the same
  fencing token of the same row; two claims in flight with the same token are the same claim;
  and no claim in flight is ahead of its row.
\<close>

theorem fencing_tokens_unique:
  assumes "relay_reachable s"
  shows "distinct (claims s) \<and>
    (\<forall>x\<in>inflight s. \<forall>y\<in>inflight s. token x = token y \<longrightarrow> x = y) \<and>
    (\<forall>x\<in>inflight s. \<exists>r\<in>set (db s). row_id r = fst (token x) \<and> snd (token x) \<le> lock_version r)"
proof -
  have inv: "relay_inv s" using assms by (rule relay_inv_reachable)
  then have "distinct (claims s)" "inj_on token (inflight s)"
    by (simp_all add: relay_inv_def sql.tokens_ok_def)
  moreover have "\<exists>r\<in>set (db s). row_id r = fst (token x) \<and> snd (token x) \<le> lock_version r"
    if x: "x \<in> inflight s" for x
    using flight_row [OF inv x] by (metis token_def claim_token_def fst_conv snd_conv)
  ultimately show ?thesis by (auto dest: inj_onD)
qed

theorem fencing_tokens_unique_witness:
  "distinct (claims run_claimed) \<and> token (''a'', run_claim, False) = (1, 1)"
  using fencing_tokens_unique [OF run_claimed_reachable]
  by (simp add: token_def claim_token_def run_claim_def)

text \<open>
  C7: No row is sent without delivery. In every reachable state, for every row that is
  \<open>sent\<close> the broker has confirmed a message made from a claim of that row, with the event type,
  payload, correlation id, event id and trace context that were inserted.
\<close>

theorem sent_rows_delivered:
  assumes "relay_reachable s" and "r \<in> set (db s)" and "status r = Sent"
  shows "\<exists>cr\<in>delivered_rows s. c_id cr = row_id r \<and> c_event_type cr = event_type r \<and>
    c_payload cr = payload r \<and> c_correlation_id cr = correlation_id r \<and>
    c_event_id cr = event_id r \<and> c_trace_context cr = trace_context r"
  using relay_inv_reachable [OF assms(1)] assms(2,3)
  by (fastforce simp: relay_inv_def row_ok_def c_content_def content_def)

theorem sent_rows_delivered_witness:
  "\<exists>cr\<in>delivered_rows run_sent. c_id cr = 1"
  using sent_rows_delivered [OF run_sent_reachable, of "sent_row 0 (lock_row 0 ''a'' run_row)"]
  by (auto simp: run_sent_def)

text \<open>
  The row budget. In every reachable state the attempts of a row are between zero and
  its budget, the row is \<open>failed\<close> exactly when the budget is spent, and a pending row always has
  budget left; this holds across crashes, lost answers, reaps, replays and racing claims.
\<close>

theorem row_budget:
  assumes "relay_reachable s" and "r \<in> set (db s)"
  shows "0 \<le> attempts r \<and> attempts r \<le> max_attempts r \<and>
    (status r = Failed \<longleftrightarrow> attempts r = max_attempts r) \<and>
    (status r = Pending \<longrightarrow> attempts r < max_attempts r)"
  using relay_inv_reachable [OF assms(1)] assms(2)
  by (auto simp: relay_inv_def row_ok_def split: if_splits)

theorem row_budget_witness: "attempts run_row < max_attempts run_row"
  using row_budget [OF run_inserted_reachable, of run_row] by (simp add: run_inserted_def)

lemma sort_key_map_same: "(\<And>x. k (f x) = k x) \<Longrightarrow> sort_key k (map f xs) = map f (sort_key k xs)"
proof -
  assume k: "\<And>x. k (f x) = k x"
  have "insort_key k (f x) (map f ys) = map f (insort_key k x ys)" for x ys
    by (induction ys) (auto simp: k)
  then show ?thesis by (induction xs) auto
qed

lemma select_again:
  "select_claim_ids now c n (snd (sql_claim now c n inst t)) = select_claim_ids now c n t"
proof -
  define ids where "ids = set (select_claim_ids now c n t)"
  define f where "f = (\<lambda>r. if row_id r \<in> ids then lock_row now inst r else r)"
  have f: "row_id (f r) = row_id r" "next_retry_at (f r) = next_retry_at r"
    "claimable now c (f r) = claimable now c r" for r
    by (auto simp: f_def claimable_def)
  have "snd (sql_claim now c n inst t) = map f t"
    by (simp add: sql_claim_def Let_def update_where_def f_def ids_def)
  moreover have "filter (claimable now c) (map f t) = map f (filter (claimable now c) t)"
    by (simp add: filter_map comp_def f)
  ultimately show ?thesis
    by (simp add: select_claim_ids_def sort_key_map_same f take_map comp_def)
qed

lemma map_filter_ids:
  "map row_id (filter (\<lambda>r. row_id r \<in> A) t) = filter (\<lambda>i. i \<in> A) (map row_id t)"
  by (induction t) auto

text \<open>
  A claim does not keep others out. The claiming statement does not look at the lock of
  a row: a second claim right after the first (another instance, or the next tick of the same
  one) takes exactly the same rows, although no lock is stale; the first batch is then fenced off
  and each of its rows is published twice.
\<close>

theorem immediate_reclaim:
  assumes "distinct (map row_id (table (mem w)))"
    and "claimBatch P w = (Inr rows, w1)" and "claimBatch P w2 = (Inr rows2, w3)"
    and "table (mem w2) = table (mem w1)" and "contended (mem w2) = contended (mem w)"
    and "config (mem w2) = config (mem w)" and "clock w2 (calls w2) = clock w (calls w)"
  shows "map c_id rows2 = map c_id rows \<and> (\<forall>cr\<in>set rows. \<not> owns cr (table (mem w3)))"
proof -
  let ?now = "clock w (calls w)" and ?c = "contended (mem w)"
  let ?n = "nat (cfg (config (mem w)) (key_BATCH P) DEFAULT_BATCH_SIZE)"
  let ?t = "table (mem w)"
  let ?ids = "select_claim_ids ?now ?c ?n ?t"
  let ?t1 = "snd (sql_claim ?now ?c ?n (instanceId (mem w)) ?t)"
  have r1: "rows = fst (sql_claim ?now ?c ?n (instanceId (mem w)) ?t)" "table (mem w1) = ?t1"
    using claimBatch_run [OF assms(2)] by (metis fst_conv snd_conv)+
  have r2: "rows2 = fst (sql_claim ?now ?c ?n (instanceId (mem w2)) ?t1)"
    "table (mem w3) = snd (sql_claim ?now ?c ?n (instanceId (mem w2)) ?t1)"
    using claimBatch_run [OF assms(3)] assms(4-7) r1(2) by (metis fst_conv snd_conv)+
  have "map c_id rows2 = map row_id (filter (\<lambda>r. row_id r \<in> set ?ids) ?t1)"
    unfolding r2 claimed_ids_map select_again ..
  also have "\<dots> = map c_id rows"
    unfolding r1 claimed_ids_map map_filter_ids ids_update_where ..
  finally have ids: "map c_id rows2 = map c_id rows" .
  have "\<not> owns cr (table (mem w3))" if "cr \<in> set rows" for cr
  proof -
    from that obtain r where r: "r \<in> set ?t" "row_id r \<in> set ?ids"
      "cr = returning (lock_row ?now (instanceId (mem w)) r)" unfolding r1 by (rule sql_claim_row)
    have "version_of (table (mem w3)) (row_id r) = Some (lock_version r + 2)"
      using version_of_row [OF assms(1) r(1)] r(2)
      by (simp add: r2 version_of_claim select_again)
    moreover have "distinct (map row_id (table (mem w3)))" using assms(1) by (simp add: r2)
    ultimately show ?thesis
      using r(3) by (auto simp: owns_iff dest!: version_of_row)
  qed
  with ids show ?thesis by blast
qed

theorem immediate_reclaim_witness:
  "\<exists>rows w1 rows2 w3. claimBatch messaging_relay (start_world sample_relay) = (Inr rows, w1) \<and>
     claimBatch messaging_relay (w1\<lparr>calls := 0\<rparr>) = (Inr rows2, w3) \<and> map c_id rows2 = map c_id rows"
proof -
  let ?w = "start_world sample_relay"
  have b: "0 \<le> cfg (config sample_relay) (key_BATCH messaging_relay) DEFAULT_BATCH_SIZE"
    by (simp add: sample_batch)
  obtain rows w1 where one: "claimBatch messaging_relay ?w = (Inr rows, w1)"
    by (rule claimBatch_done [of ?w messaging_relay]) (use b in auto)
  have w1: "outcomes w1 = (\<lambda>_. Done)" "clock w1 = clock ?w" "config (mem w1) = config sample_relay"
    "contended (mem w1) = contended sample_relay"
    using one b by (auto simp: claimBatch_def io_defs Let_def split: prod.splits)
  obtain rows2 w3 where two: "claimBatch messaging_relay (w1\<lparr>calls := 0\<rparr>) = (Inr rows2, w3)"
    by (rule claimBatch_done [of "w1\<lparr>calls := 0\<rparr>" messaging_relay]) (use w1 b in auto)
  from immediate_reclaim [OF _ one two] w1 one two show ?thesis by auto
qed

end
