(* ===== verification/Outbox_Admin.thy ===== *)
theory Outbox_Admin
  imports Outbox_Table
begin

text \<open>
  The operator's endpoints on the two outbox tables, behind the API-key guard:
  \<open>apps/messaging/src/outbox/outbox-admin.service.ts\<close> and \<open>outbox-admin.controller.ts\<close>,
  \<open>apps/gateway/src/outbox/gateway-outbox-admin.service.ts\<close> and
  \<open>gateway-outbox-admin.controller.ts\<close>, \<open>libs/common/src/security/internal-api-key.guard.ts\<close>.
  The path parameter has passed \<open>ParseIntPipe\<close>, so it is an integer. What the replaying \<open>UPDATE ... RETURNING\<close>
  resolves to, rows or the pair of rows and count, is the parameter \<open>admin_driver\<close>.
\<close>

section \<open>The guard\<close>

definition INTERNAL_API_KEY_HEADER :: string where
  "INTERNAL_API_KEY_HEADER = ''x-internal-api-key''"

text \<open>\<open>timingSafeEqual\<close> throws on buffers of different length, hence the first test.\<close>

definition timingSafeEqual :: "string \<Rightarrow> string \<Rightarrow> jsval + bool" where
  "timingSafeEqual a b = (if length a \<noteq> length b
     then Inl (JErr ''RangeError'' [(''code'', JStr ''ERR_CRYPTO_TIMING_SAFE_EQUAL_LENGTH'')])
     else Inr (a = b))"

definition safeCompare :: "string \<Rightarrow> string \<Rightarrow> jsval + bool" where
  "safeCompare provided expected =
     (if length provided \<noteq> length expected then Inr False
      else timingSafeEqual provided expected)"

definition unauthorized :: "string \<Rightarrow> jsval" where
  "unauthorized msg = JErr ''UnauthorizedException'' [(''message'', JStr msg)]"

text \<open>\<open>canActivate\<close>, given the environment's key and the request's headers.\<close>

definition canActivate :: "string option \<Rightarrow> (string \<times> jsval) list \<Rightarrow> jsval + bool" where
  "canActivate env headers = (case env of
       None \<Rightarrow> Inl (unauthorized ''Internal API key not configured'')
     | Some expected \<Rightarrow>
         if expected = '''' then Inl (unauthorized ''Internal API key not configured'')
         else (case map_of headers INTERNAL_API_KEY_HEADER of
             Some (JStr provided) \<Rightarrow>
               (case safeCompare provided expected of
                  Inl e \<Rightarrow> Inl e
                | Inr eq \<Rightarrow> if eq then Inr True
                            else Inl (unauthorized ''Invalid or missing internal API key''))
           | _ \<Rightarrow> Inl (unauthorized ''Invalid or missing internal API key'')))"

lemma safeCompare_eq: "safeCompare a b = Inr (a = b)"
  by (auto simp: safeCompare_def timingSafeEqual_def)

lemma canActivate_iff:
  "canActivate env headers = Inr True \<longleftrightarrow>
     (\<exists>k. env = Some k \<and> k \<noteq> '''' \<and> map_of headers INTERNAL_API_KEY_HEADER = Some (JStr k))"
  by (auto simp: canActivate_def safeCompare_eq split: option.split jsval.split)

lemma canActivate_cases: "canActivate env headers = Inr True \<or> (\<exists>m. canActivate env headers = Inl (unauthorized m))"
  by (auto simp: canActivate_def safeCompare_eq split: option.split jsval.split)

section \<open>The services\<close>

record admin_mem =
  admin_table :: outbox_table
  admin_driver :: driver_result
  INTERNAL_API_KEY :: "string option"

record ReplayResult =
  replayed :: nat
  replayed_ids :: "jsval list"

definition not_found :: "int \<Rightarrow> jsval" where
  "not_found i = JErr ''NotFoundException'' [(''message'',
     JStr (''Outbox event id='' @ show_int i @ '' not found or is not in 'failed' status''))]"

text \<open>The replaying UPDATE, and what it resolves to: the rows \<open>{ id }\<close>, or those and their number.\<close>

definition id_rows :: "int list \<Rightarrow> jsval list" where
  "id_rows = map (\<lambda>i. JObj [(''id'', JNum i)])"

definition update_answer :: "driver_result \<Rightarrow> jsval list \<Rightarrow> jsval list" where
  "update_answer d rows = (case d of RowsOnly \<Rightarrow> rows | RowsAndCount \<Rightarrow> [JArr rows, JNum (int (length rows))])"

definition query_replay :: "(outbox_row \<Rightarrow> bool) \<Rightarrow> (admin_mem, jsval list) io" where
  "query_replay P = request (\<lambda>now m. let (ids, t) = sql_replay P now (admin_table m)
     in (Inr (update_answer (admin_driver m) (id_rows ids)), m\<lparr>admin_table := t\<rparr>))"

definition replayById :: "int \<Rightarrow> (admin_mem, ReplayResult) io" where
  "replayById i = bind (query_replay (failed_with_id i)) (\<lambda>rows.
     if rows = [] then throw (not_found i)
     else ret \<lparr>replayed = 1, replayed_ids = [JNum i]\<rparr>)"

text \<open>An empty event type counts as none.\<close>

definition given_type :: "string option \<Rightarrow> string option" where
  "given_type ty = (if ty = Some '''' then None else ty)"

definition replayAllFailed :: "string option \<Rightarrow> (admin_mem, ReplayResult) io" where
  "replayAllFailed eventType = bind (query_replay (failed_of_type (given_type eventType))) (\<lambda>rows.
     ret \<lparr>replayed = length rows, replayed_ids = map (get_prop ''id'') rows\<rparr>)"

record GatewayOutboxRowSummary =
  s_id :: int
  s_eventType :: string
  s_status :: OutboxStatus
  s_attempts :: int
  s_maxAttempts :: int
  s_lastError :: "string option"
  s_correlationId :: "string option"
  s_eventId :: "string option"

definition row_summary :: "outbox_row \<Rightarrow> GatewayOutboxRowSummary" where
  "row_summary r = \<lparr>s_id = row_id r, s_eventType = event_type r, s_status = status r,
     s_attempts = attempts r, s_maxAttempts = max_attempts r, s_lastError = last_error r,
     s_correlationId = correlation_id r, s_eventId = event_id r\<rparr>"

definition gw_listFailed :: "(admin_mem, GatewayOutboxRowSummary list) io" where
  "gw_listFailed = request (\<lambda>_ m.
     (Inr (map row_summary (sort_key row_id (matching (\<lambda>r. status r = Failed) (admin_table m)))), m))"

definition gw_replayById :: "int \<Rightarrow> (admin_mem, bool) io" where
  "gw_replayById i = bind (query_replay (failed_with_id i)) (\<lambda>result. ret (result \<noteq> []))"

definition gw_replayAllFailed :: "string option \<Rightarrow> (admin_mem, nat) io" where
  "gw_replayAllFailed eventType =
     bind (query_replay (failed_of_type (given_type eventType))) (\<lambda>result. ret (length result))"

section \<open>The controllers\<close>

text \<open>\<open>@UseGuards(InternalApiKeyGuard)\<close>: the handler runs only if the guard returns true.\<close>

definition guarded :: "(string \<times> jsval) list \<Rightarrow> (admin_mem, 'a) io \<Rightarrow> (admin_mem, 'a) io" where
  "guarded headers handler = bind (gets INTERNAL_API_KEY) (\<lambda>env.
     case canActivate env headers of Inl e \<Rightarrow> throw e | Inr _ \<Rightarrow> handler)"

definition replayOne where "replayOne headers i = guarded headers (replayById i)"
definition replayFailed where "replayFailed headers ty = guarded headers (replayAllFailed ty)"
definition gw_list_endpoint where "gw_list_endpoint headers = guarded headers gw_listFailed"
definition gw_replayOne where "gw_replayOne headers i = guarded headers (gw_replayById i)"
definition gw_replayFailed where "gw_replayFailed headers ty = guarded headers (gw_replayAllFailed ty)"

lemma guarded_refused:
  assumes "canActivate (INTERNAL_API_KEY (mem w)) headers \<noteq> Inr True"
  shows "\<exists>m. guarded headers h w = (Inl (unauthorized m), w)"
  using assms canActivate_cases [of "INTERNAL_API_KEY (mem w)" headers]
  by (auto simp: guarded_def io_defs)

lemma guarded_admitted:
  "canActivate (INTERNAL_API_KEY (mem w)) headers = Inr True \<Longrightarrow> guarded headers h w = h w"
  by (simp add: guarded_def io_defs)

lemma query_replay_done:
  "outcomes w (calls w) = Done \<Longrightarrow> query_replay P w =
     (Inr (update_answer (admin_driver (mem w)) (id_rows (map row_id (filter P (admin_table (mem w)))))),
      w\<lparr>calls := Suc (calls w), mem := (mem w)\<lparr>admin_table :=
         map (\<lambda>r. if P r then replay_row (clock w (calls w)) r else r) (admin_table (mem w))\<rparr>\<rparr>)"
  by (simp add: query_replay_def request_def sql_replay_def matching_def update_where_def)

section \<open>Properties\<close>

text \<open>
  C37: The guard fails closed. Unless the environment has a non-empty key and the request
  carries exactly that key as a string, every endpoint of the operator, in both services, answers
  401 and leaves the database untouched, without making a call.
\<close>

theorem guard_fails_closed:
  assumes "\<nexists>k. INTERNAL_API_KEY (mem w) = Some k \<and> k \<noteq> '''' \<and>
      map_of headers INTERNAL_API_KEY_HEADER = Some (JStr k)"
  shows "(\<exists>m. replayOne headers i w = (Inl (unauthorized m), w)) \<and>
    (\<exists>m. replayFailed headers ty w = (Inl (unauthorized m), w)) \<and>
    (\<exists>m. gw_list_endpoint headers w = (Inl (unauthorized m), w)) \<and>
    (\<exists>m. gw_replayOne headers i w = (Inl (unauthorized m), w)) \<and>
    (\<exists>m. gw_replayFailed headers ty w = (Inl (unauthorized m), w))"
proof -
  have no: "canActivate (INTERNAL_API_KEY (mem w)) headers \<noteq> Inr True"
    using assms unfolding canActivate_iff by blast
  show ?thesis
    unfolding replayOne_def replayFailed_def gw_list_endpoint_def gw_replayOne_def gw_replayFailed_def
    by (intro conjI guarded_refused [OF no])
qed

definition admin_example :: admin_mem where
  "admin_example = \<lparr>admin_table = [(new_outbox_row 0 1 ''T'' JNull None None None)
     \<lparr>status := Failed, attempts := 5\<rparr>, new_outbox_row 0 2 ''T'' JNull None None None],
     admin_driver = RowsOnly, INTERNAL_API_KEY = Some ''k''\<rparr>"

theorem guard_fails_closed_witness:
  "\<exists>m. replayOne [(''x-internal-api-key'', JStr ''j'')] 1 (start_world admin_example)
     = (Inl (unauthorized m), start_world admin_example)"
  using guard_fails_closed [of "start_world admin_example" "[(''x-internal-api-key'', JStr ''j'')]" 1]
  by (simp add: admin_example_def INTERNAL_API_KEY_HEADER_def)

text \<open>
  Replaying one row. With the key, when the database answers and an update resolves to its rows: a \<open>failed\<close> row is reset to
  \<open>pending\<close> with a fresh budget, due now and unlocked, and no other row changes; a row that is not
  \<open>failed\<close> (so also one that is sent or pending) is refused as not found and nothing changes. The
  gateway does the same, answering whether it did.
\<close>

theorem replay_one_spec:
  assumes "canActivate (INTERNAL_API_KEY (mem w)) headers = Inr True"
    and "outcomes w (calls w) = Done" "admin_driver (mem w) = RowsOnly"
  shows "if \<exists>r\<in>set (admin_table (mem w)). row_id r = i \<and> status r = Failed
    then \<exists>w'. replayOne headers i w = (Inr \<lparr>replayed = 1, replayed_ids = [JNum i]\<rparr>, w') \<and>
            gw_replayOne headers i w = (Inr True, w') \<and>
            admin_table (mem w') = map (\<lambda>r. if row_id r = i \<and> status r = Failed
              then r\<lparr>status := Pending, attempts := 0, next_retry_at := clock w (calls w),
                     locked_at := None, locked_by := None\<rparr> else r) (admin_table (mem w))
    else \<exists>w'. replayOne headers i w = (Inl (not_found i), w') \<and>
            gw_replayOne headers i w = (Inr False, w') \<and>
            admin_table (mem w') = admin_table (mem w)"
proof -
  note run = guarded_admitted [OF assms(1)] query_replay_done [OF assms(2)]
  let ?t = "admin_table (mem w)"
  have some: "filter (failed_with_id i) ?t = [] \<longleftrightarrow> \<not> (\<exists>r\<in>set ?t. row_id r = i \<and> status r = Failed)"
    by (auto simp: filter_empty_conv failed_with_id_def)
  show ?thesis
  proof (cases "\<exists>r\<in>set ?t. row_id r = i \<and> status r = Failed")
    case True
    with some show ?thesis
      by (auto simp: replayOne_def gw_replayOne_def replayById_def gw_replayById_def bind_def run
          ret_def replay_row_def failed_with_id_def id_rows_def update_answer_def assms(3))
  next
    case False
    with some have "map (\<lambda>r. if failed_with_id i r then replay_row now r else r) ?t = ?t" for now
      by (intro map_idI) (auto simp: failed_with_id_def)
    with False some show ?thesis
      by (simp add: replayOne_def gw_replayOne_def replayById_def gw_replayById_def bind_def run
          ret_def throw_def id_rows_def update_answer_def assms(3))
  qed
qed

text \<open>
  Replaying in bulk. With the key, when the database answers and an update resolves to its rows, the reply names exactly the
  rows that were \<open>failed\<close> (of the given event type, if one is given), in both services the same
  number; afterwards no such row is \<open>failed\<close>, and every other row is unchanged.
\<close>

theorem replay_all_spec:
  assumes "canActivate (INTERNAL_API_KEY (mem w)) headers = Inr True"
    and "outcomes w (calls w) = Done" "admin_driver (mem w) = RowsOnly"
  shows "\<exists>w' ids. replayFailed headers ty w =
        (Inr \<lparr>replayed = length ids, replayed_ids = map JNum ids\<rparr>, w') \<and>
      gw_replayFailed headers ty w = (Inr (length ids), w') \<and>
      ids = map row_id (filter (\<lambda>r. status r = Failed \<and>
        (ty = None \<or> ty = Some '''' \<or> ty = Some (event_type r))) (admin_table (mem w))) \<and>
      (\<forall>r\<in>set (admin_table (mem w')). status r = Failed \<longrightarrow>
         r \<in> set (admin_table (mem w)) \<and> ty \<noteq> None \<and> ty \<noteq> Some '''' \<and> ty \<noteq> Some (event_type r)) \<and>
      (\<forall>r\<in>set (admin_table (mem w)). status r \<noteq> Failed \<longrightarrow> r \<in> set (admin_table (mem w')))"
proof -
  have P: "failed_of_type (given_type ty) = (\<lambda>r. status r = Failed \<and>
      (ty = None \<or> ty = Some '''' \<or> ty = Some (event_type r)))"
    by (auto simp: failed_of_type_def given_type_def fun_eq_iff split: option.splits)
  note run = guarded_admitted [OF assms(1)] query_replay_done [OF assms(2)]
  show ?thesis
    by (rule exI, rule exI, intro conjI)
      (auto simp: replayFailed_def gw_replayFailed_def replayAllFailed_def gw_replayAllFailed_def P
        bind_def run ret_def id_rows_def update_answer_def assms(3) get_prop_def)
qed

text \<open>
  With the pair, the operator is told of a replay that did not happen. When an update resolves to the pair
  of rows and count and the database answers, both services report the replay of one row as done, also of a row that
  does not exist or is not \<open>failed\<close>, and a replay in bulk as two rows without identifiers; the table is
  updated as it should be.
\<close>

theorem replay_answers_pair:
  assumes "canActivate (INTERNAL_API_KEY (mem w)) headers = Inr True"
    and "outcomes w (calls w) = Done" "admin_driver (mem w) = RowsAndCount"
  shows "\<exists>w'. replayOne headers i w = (Inr \<lparr>replayed = 1, replayed_ids = [JNum i]\<rparr>, w') \<and>
      gw_replayOne headers i w = (Inr True, w') \<and>
      admin_table (mem w') = map (\<lambda>r. if row_id r = i \<and> status r = Failed
        then replay_row (clock w (calls w)) r else r) (admin_table (mem w))"
    and "\<exists>w'. replayFailed headers ty w = (Inr \<lparr>replayed = 2, replayed_ids = [JUndef, JUndef]\<rparr>, w') \<and>
      gw_replayFailed headers ty w = (Inr 2, w')"
  by (simp_all add: replayOne_def gw_replayOne_def replayById_def gw_replayById_def bind_def replayFailed_def
      gw_replayFailed_def replayAllFailed_def gw_replayAllFailed_def guarded_admitted [OF assms(1)]
      query_replay_done [OF assms(2)] assms(3) update_answer_def ret_def failed_with_id_def get_prop_def)

theorem replay_answers_pair_witness:
  "\<exists>w'. gw_replayOne [(''x-internal-api-key'', JStr ''k'')] 7
     (start_world (admin_example\<lparr>admin_driver := RowsAndCount\<rparr>)) = (Inr True, w')"
  using replay_answers_pair(1) [where w = "start_world (admin_example\<lparr>admin_driver := RowsAndCount\<rparr>)"
      and headers = "[(''x-internal-api-key'', JStr ''k'')]" and i = 7]
  by (auto simp: canActivate_iff admin_example_def INTERNAL_API_KEY_HEADER_def)

lemma admin_example_admitted:
  "canActivate (INTERNAL_API_KEY (mem (start_world admin_example)))
     [(''x-internal-api-key'', JStr ''k'')] = Inr True"
  by (simp add: canActivate_iff admin_example_def INTERNAL_API_KEY_HEADER_def)

theorem replay_one_spec_witness:
  "\<exists>w'. replayOne [(''x-internal-api-key'', JStr ''k'')] 2 (start_world admin_example)
     = (Inl (not_found 2), w')"
  using replay_one_spec [OF admin_example_admitted, of 2]
  by (auto simp: admin_example_def)

theorem replay_all_spec_witness:
  "\<exists>w'. gw_replayFailed [(''x-internal-api-key'', JStr ''k'')] None (start_world admin_example)
     = (Inr 1, w')"
  using replay_all_spec [OF admin_example_admitted, of None]
  by (auto simp: admin_example_def)

end
