(* ===== verification/Error_Class.thy ===== *)
theory Error_Class
  imports Prelude
begin

text \<open>
  Error classification: \<open>apps/messaging/src/reliability/error-classifier.ts\<close>, and the two readings
  of a PostgreSQL error code, \<open>extractPgCode\<close> of
  \<open>apps/messaging/src/idempotency/idempotency.service.ts\<close> and \<open>isUniqueViolation\<close> of
  \<open>apps/messaging/src/outbox/outbox-transaction.service.ts\<close>.
\<close>

datatype ErrorClass = VALIDATION | TRANSIENT | PERMANENT

fun class_name :: "ErrorClass \<Rightarrow> string" where
  "class_name VALIDATION = ''VALIDATION''"
| "class_name TRANSIENT = ''TRANSIENT''"
| "class_name PERMANENT = ''PERMANENT''"

definition TRANSIENT_PG_CODES :: "string set" where
  "TRANSIENT_PG_CODES = {''08000'', ''08003'', ''08006'', ''08001'', ''08004'', ''57P03'', ''53300'',
     ''40001'', ''40P01''}"

definition TRANSIENT_NODE_CODES :: "string set" where
  "TRANSIENT_NODE_CODES = {''ECONNREFUSED'', ''ECONNRESET'', ''ETIMEDOUT'', ''ENOTFOUND'', ''EPIPE'',
     ''ENETUNREACH'', ''EAI_AGAIN''}"

definition ValidationError :: "string \<Rightarrow> jsval \<Rightarrow> jsval" where
  "ValidationError message details = JErr ''ValidationError''
     [(''message'', JStr message), (''name'', JStr ''ValidationError''),
      (''errorClass'', JStr ''VALIDATION''), (''details'', details)]"

text \<open>\<open>codes.has(c)\<close>, which is false for all that is not a string of the set.\<close>

definition code_in :: "string set \<Rightarrow> jsval \<Rightarrow> bool" where
  "code_in codes c = (case as_string c of None \<Rightarrow> False | Some s \<Rightarrow> s \<in> codes)"

definition classifyError :: "jsval \<Rightarrow> ErrorClass" where
  "classifyError error = (case error of
       JErr ctor _ \<Rightarrow>
         if ctor = ''ValidationError'' then VALIDATION
         else (let code = get_prop ''code'' error;
                   driverCode = get_prop ''code'' (get_prop ''driverError'' error)
           in if code_in TRANSIENT_PG_CODES code then TRANSIENT
              else if code_in TRANSIENT_PG_CODES driverCode then TRANSIENT
              else if code_in TRANSIENT_NODE_CODES code then TRANSIENT
              else if ctor = ''QueryFailedError'' then
                (if code = JStr ''23505'' then PERMANENT
                 else if code = JStr ''23503'' then PERMANENT
                 else if code = JStr ''23502'' then PERMANENT
                 else PERMANENT)
              else PERMANENT)
     | _ \<Rightarrow> PERMANENT)"

definition extractPgCode :: "jsval \<Rightarrow> string option" where
  "extractPgCode err = (if \<not> is_object err then None
     else case as_string (get_prop ''code'' err) of
       Some c \<Rightarrow> Some c
     | None \<Rightarrow> (let driver = get_prop ''driverError'' err
         in if is_object driver then as_string (get_prop ''code'' driver) else None))"

definition isUniqueViolation :: "jsval \<Rightarrow> bool" where
  "isUniqueViolation err = (if \<not> is_object err then False
     else if get_prop ''code'' err = JStr ''23505'' then True
     else (let driver = get_prop ''driverError'' err
       in if is_object driver then get_prop ''code'' driver = JStr ''23505'' else False))"

text \<open>A violated unique constraint, as TypeORM wraps it.\<close>

definition unique_violation :: jsval where
  "unique_violation = JErr ''QueryFailedError''
     [(''message'', JStr ''duplicate key value violates unique constraint''), (''code'', JStr ''23505''),
      (''driverError'', JErr ''DatabaseError'' [(''code'', JStr ''23505'')])]"

lemma unique_violation_facts [simp]:
  "isUniqueViolation unique_violation" "extractPgCode unique_violation = Some ''23505''"
  "classifyError unique_violation = PERMANENT"
  by (simp_all add: unique_violation_def isUniqueViolation_def extractPgCode_def classifyError_def
      get_prop_def code_in_def TRANSIENT_PG_CODES_def TRANSIENT_NODE_CODES_def Let_def)

text \<open>
  What is retried. An error is transient exactly when it is an Error other than a
  \<open>ValidationError\<close> whose own code, or whose driver's code, is one of the listed PostgreSQL
  connection or serialisation codes, or whose own code is one of the listed network codes; everything
  else that is thrown, constraint violations and non-errors included, is permanent or validation, so
  it is never retried.
\<close>

theorem transient_iff:
  "classifyError e = TRANSIENT \<longleftrightarrow>
     (\<exists>ctor ms c. e = JErr ctor ms \<and> ctor \<noteq> ''ValidationError'' \<and>
        (get_prop ''code'' e = JStr c \<and> c \<in> TRANSIENT_PG_CODES \<union> TRANSIENT_NODE_CODES \<or>
         get_prop ''code'' (get_prop ''driverError'' e) = JStr c \<and> c \<in> TRANSIENT_PG_CODES))"
proof -
  have code: "code_in A v \<longleftrightarrow> (\<exists>s. v = JStr s \<and> s \<in> A)" for A v
    by (cases v) (simp_all add: code_in_def)
  show ?thesis
    by (cases e) (auto simp: classifyError_def code Let_def split: if_splits)
qed

text \<open>
  The two code readers differ. Whenever the reader used inside the transaction sees a
  unique violation on an error whose own code is not another string, so does the reader of the
  idempotency service, and the other way round; but on an error whose own code is some other string
  and whose driver reports 23505 they disagree, although the source calls them the same logic.
\<close>

theorem code_readers_differ:
  "(\<forall>err. (as_string (get_prop ''code'' err) = None \<or> get_prop ''code'' err = JStr ''23505'') \<longrightarrow>
      (isUniqueViolation err \<longleftrightarrow> extractPgCode err = Some ''23505'')) \<and>
   (\<forall>c. c \<noteq> ''23505'' \<longrightarrow>
      (let err = JErr ''QueryFailedError'' [(''code'', JStr c),
                   (''driverError'', JErr ''DatabaseError'' [(''code'', JStr ''23505'')])]
       in isUniqueViolation err \<and> extractPgCode err \<noteq> Some ''23505''))"
proof -
  have str: "as_string v = Some s \<longleftrightarrow> v = JStr s" for v s by (cases v) auto
  show ?thesis
    by (auto simp: isUniqueViolation_def extractPgCode_def Let_def str get_prop_def split: option.split)
qed

theorem code_readers_differ_witness:
  "isUniqueViolation unique_violation \<and>
   (let err = JErr ''QueryFailedError'' [(''code'', JStr ''X''),
      (''driverError'', JErr ''DatabaseError'' [(''code'', JStr ''23505'')])]
    in extractPgCode err \<noteq> Some ''23505'')"
  using code_readers_differ by (simp add: Let_def)

end
