(* ===== verification/Lifecycle.thy ===== *)
theory Lifecycle
  imports Amqp_Client "HOL-Library.Multiset"
begin

text \<open>
  The event-lifecycle tracer: \<open>libs/contracts/src/lifecycle/event-lifecycle-publisher.ts\<close>, which
  the services report the stages of an event to, and
  \<open>libs/contracts/src/lifecycle/event-lifecycle-subscriber.ts\<close>, which collects the reports.
  The memory of a service extends the AMQP client's, so that both run in one world.
\<close>

section \<open>Records\<close>

datatype EventLifecycleStage = Emitted | Received | Validated | Rejected | Persisted

record EventLifecycleRecord =
  stage :: EventLifecycleStage
  lc_service :: string
  lc_eventType :: string
  lc_eventId :: string
  lc_correlationId :: string
  lc_timestamp :: int
  lc_errors :: "(string \<times> string) list"

section \<open>The publisher\<close>

text \<open>
  \<open>lc_enabled\<close> is the environment switch, \<open>lc_connecting\<close> says that the cached promise exists (it
  never rejects), \<open>lc_records\<close> is what was published, \<open>lc_onError\<close> the errors reported.
\<close>

record lifecycle_mem = amqp_client +
  lc_enabled :: bool
  serviceName :: string
  lc_channel :: bool
  lc_connection :: bool
  lc_connecting :: bool
  lc_records :: "EventLifecycleRecord list"
  lc_onError :: "jsval list"

definition lc_connect :: "('a lifecycle_mem_scheme, unit) io" where
  "lc_connect = catching
     (andThen external
       (andThen (modify (\<lambda>m. m\<lparr>lc_connection := True\<rparr>))
         (andThen external
           (andThen (modify (\<lambda>m. m\<lparr>lc_channel := True\<rparr>))
             (andThen external (ret ()))))))
     (\<lambda>error. modify (\<lambda>m. m\<lparr>lc_onError := lc_onError m @ [error], lc_channel := False,
                              lc_connection := False\<rparr>))"

text \<open>\<open>ensureChannel\<close>, as the answer whether there is a channel.\<close>

definition ensureChannel :: "('a lifecycle_mem_scheme, bool) io" where
  "ensureChannel = bind (gets lc_enabled) (\<lambda>enabled.
     if \<not> enabled then ret False
     else bind (gets lc_channel) (\<lambda>channel.
       if channel then ret True
       else bind (gets lc_connecting) (\<lambda>connecting.
         andThen (when_do (\<not> connecting)
             (andThen (modify (\<lambda>m. m\<lparr>lc_connecting := True\<rparr>)) lc_connect))
           (gets lc_channel))))"

definition lc_publish :: "EventLifecycleStage \<Rightarrow> string \<Rightarrow> string \<Rightarrow> string \<Rightarrow> (string \<times> string) list \<Rightarrow>
    ('a lifecycle_mem_scheme, unit) io" where
  "lc_publish st eventType eventId correlationId errors = bind ensureChannel (\<lambda>channel.
     if \<not> channel then ret ()
     else bind now_ms (\<lambda>timestamp. bind (gets serviceName) (\<lambda>service.
       catching
         (andThen external (modify (\<lambda>m. m\<lparr>lc_records := lc_records m @
            [\<lparr>stage = st, lc_service = service, lc_eventType = eventType, lc_eventId = eventId,
              lc_correlationId = correlationId, lc_timestamp = timestamp, lc_errors = errors\<rparr>]\<rparr>)))
         (\<lambda>error. modify (\<lambda>m. m\<lparr>lc_onError := lc_onError m @ [error]\<rparr>)))))"

definition lc_close :: "('a lifecycle_mem_scheme, unit) io" where
  "lc_close = catching
     (bind (gets lc_channel) (\<lambda>ch. andThen (when_do ch (andThen external (ret ())))
        (bind (gets lc_connection) (\<lambda>conn. when_do conn (andThen external (ret ()))))))
     (\<lambda>_. ret ())"

section \<open>The subscriber\<close>

text \<open>
  A waiter is an event and a stage to wait for; \<open>resolved\<close> are the waiters whose promise was
  resolved, with their record, \<open>acked\<close> counts acknowledged messages.
\<close>

record subscriber =
  received_records :: "EventLifecycleRecord list"
  waiters :: "(nat \<times> string \<times> EventLifecycleStage) list"
  resolved :: "(nat \<times> EventLifecycleRecord) list"
  acked :: nat

fun waits_for :: "nat \<times> string \<times> EventLifecycleStage \<Rightarrow> EventLifecycleRecord \<Rightarrow> bool" where
  "waits_for (n, eventId, st) r \<longleftrightarrow> lc_eventId r = eventId \<and> stage r = st"

text \<open>
  \<open>notifyWaiters\<close> walks the waiters from the last to the first and removes those it resolves.
\<close>

definition notifyWaiters :: "EventLifecycleRecord \<Rightarrow> subscriber \<Rightarrow> subscriber" where
  "notifyWaiters r s = s\<lparr>waiters := filter (\<lambda>x. \<not> waits_for x r) (waiters s),
     resolved := resolved s @ map (\<lambda>x. (fst x, r)) (rev (filter (\<lambda>x. waits_for x r) (waiters s)))\<rparr>"

text \<open>The consumer callback: \<open>None\<close> is a body that does not parse; a null message is ignored.\<close>

definition on_message :: "EventLifecycleRecord option option \<Rightarrow> subscriber \<Rightarrow> subscriber" where
  "on_message msg s = (case msg of
       None \<Rightarrow> s
     | Some parsed \<Rightarrow>
         let s' = (case parsed of None \<Rightarrow> s
                   | Some r \<Rightarrow> notifyWaiters r (s\<lparr>received_records := received_records s @ [r]\<rparr>))
         in s'\<lparr>acked := Suc (acked s')\<rparr>)"

text \<open>\<open>waitFor\<close>: an earlier record at once, or a new waiter (numbered by the caller).\<close>

definition waitFor :: "nat \<Rightarrow> string \<Rightarrow> EventLifecycleStage \<Rightarrow> subscriber \<Rightarrow>
    EventLifecycleRecord option \<times> subscriber" where
  "waitFor n eventId st s = (case find (waits_for (n, eventId, st)) (received_records s) of
       Some r \<Rightarrow> (Some r, s)
     | None \<Rightarrow> (None, s\<lparr>waiters := waiters s @ [(n, eventId, st)]\<rparr>))"

text \<open>The timer of a waiter: it is removed if it is still there.\<close>

definition wait_timeout :: "nat \<Rightarrow> subscriber \<Rightarrow> subscriber" where
  "wait_timeout n s = s\<lparr>waiters := filter (\<lambda>x. fst x \<noteq> n) (waiters s)\<rparr>"

section \<open>Facts\<close>

text \<open>All that a lifecycle call leaves alone: the client below it and the service above it.\<close>

definition same_service :: "'a lifecycle_mem_scheme \<Rightarrow> 'a lifecycle_mem_scheme \<Rightarrow> bool" where
  "same_service m m' \<longleftrightarrow> amqpChannel m' = amqpChannel m \<and> amqpConnection m' = amqpConnection m \<and>
     connecting m' = connecting m \<and> published m' = published m \<and> unconfirmed m' = unconfirmed m \<and>
     confirmed m' = confirmed m \<and> lifecycle_mem.more m' = lifecycle_mem.more m"

lemma same_service_refl [simp]: "same_service m m"
  by (simp add: same_service_def)

lemma same_service_updates [simp]:
  "same_service m (m'\<lparr>lc_channel := a\<rparr>) = same_service m m'"
  "same_service m (m'\<lparr>lc_connection := a\<rparr>) = same_service m m'"
  "same_service m (m'\<lparr>lc_connecting := a\<rparr>) = same_service m m'"
  "same_service m (m'\<lparr>lc_records := rs\<rparr>) = same_service m m'"
  "same_service m (m'\<lparr>lc_onError := es\<rparr>) = same_service m m'"
  by (simp_all add: same_service_def)

text \<open>A report never throws, and touches nothing but the tracer's own state.\<close>

definition lc_frame :: "'a lifecycle_mem_scheme world \<Rightarrow> 'a lifecycle_mem_scheme world \<Rightarrow> bool" where
  "lc_frame w w' \<longleftrightarrow> same_service (mem w) (mem w') \<and> outcomes w' = outcomes w \<and> clock w' = clock w \<and>
     fresh w' = fresh w \<and> uuids w' = uuids w \<and> otel_inject w' = otel_inject w"

lemma lc_frame_simps [simp]:
  "lc_frame w w" "lc_frame w (w'\<lparr>calls := n\<rparr>) = lc_frame w w'"
  by (simp_all add: lc_frame_def)

lemma lc_connect_frame: "wp lc_connect (\<lambda>_. lc_frame w) (\<lambda>_ _. False) w"
  by (simp add: lc_connect_def wp_eqs lc_frame_def split: outcome.split)

lemma ensureChannel_frame: "wp ensureChannel (\<lambda>_. lc_frame w) (\<lambda>_ _. False) w"
proof -
  have "wp lc_connect (\<lambda>_ w'. lc_frame w w') (\<lambda>_ _. False)
      (w\<lparr>mem := (mem w)\<lparr>lc_connecting := True\<rparr>\<rparr>)"
    by (rule wp_mono [OF lc_connect_frame]) (simp_all add: lc_frame_def same_service_def)
  then show ?thesis
    by (auto simp: ensureChannel_def wp_eqs elim!: wp_mono)
qed

lemma lc_publish_frame:
  "wp (lc_publish st ty i c errs) (\<lambda>_. lc_frame w) (\<lambda>_ _. False) w"
  unfolding lc_publish_def wp_bind [of ensureChannel]
  by (rule wp_mono [OF ensureChannel_frame])
    (auto simp: wp_eqs lc_frame_def same_service_def split: outcome.split)

text \<open>In weakest-precondition proofs a report is any step of its frame.\<close>

lemma wp_lc_publish:
  assumes "\<And>w'. lc_frame w w' \<Longrightarrow> Q () w'"
  shows "wp (lc_publish st ty i c errs) Q E w"
  by (rule wp_mono [OF lc_publish_frame]) (use assms in auto)

section \<open>Properties\<close>

text \<open>
  Tracing is harmless. Whatever the broker does, reporting a stage returns normally and
  changes nothing outside the tracer; with tracing disabled it makes no call and records nothing.
\<close>

theorem lifecycle_publish_harmless:
  "\<exists>w'. lc_publish st ty i c errs w = (Inr (), w') \<and> same_service (mem w) (mem w') \<and>
     (\<not> lc_enabled (mem w) \<longrightarrow> w' = w)"
proof -
  obtain w' where "lc_publish st ty i c errs w = (Inr (), w')" "lc_frame w w'"
    using lc_publish_frame [of st ty i c errs w] by (auto simp: wp_def split: prod.splits sum.splits)
  moreover from this(1) have "w' = w" if "\<not> lc_enabled (mem w)"
    using that by (simp add: lc_publish_def ensureChannel_def io_defs)
  ultimately show ?thesis by (auto simp: lc_frame_def)
qed

definition traced_mem :: lifecycle_mem where
  "traced_mem = amqp_client.extend amqp_client_init \<lparr>lc_enabled = False, serviceName = ''s'',
     lc_channel = False, lc_connection = False, lc_connecting = False, lc_records = [], lc_onError = []\<rparr>"

theorem lifecycle_publish_harmless_witness:
  "snd (lc_publish Emitted ''t'' ''e'' ''c'' [] (start_world traced_mem)) = start_world traced_mem"
  using lifecycle_publish_harmless [of Emitted "''t''" "''e''" "''c''" "[]" "start_world traced_mem"]
  by (auto simp: traced_mem_def amqp_client.defs)

text \<open>
  Waiters are served once. A record resolves exactly the waiters for its event and stage,
  each once, and removes them; every message, readable or not, is acknowledged; and after a record
  has arrived, waiting for it answers at once.
\<close>

theorem subscriber_serves_waiters:
  "waiters (on_message (Some (Some r)) s) = filter (\<lambda>x. \<not> waits_for x r) (waiters s) \<and>
   mset (resolved (on_message (Some (Some r)) s)) =
     mset (resolved s) + mset (map (\<lambda>x. (fst x, r)) (filter (\<lambda>x. waits_for x r) (waiters s))) \<and>
   acked (on_message (Some p) s) = Suc (acked s) \<and>
   (\<exists>r'. waitFor n (lc_eventId r) (stage r) (on_message (Some (Some r)) s)
           = (Some r', on_message (Some (Some r)) s) \<and>
         lc_eventId r' = lc_eventId r \<and> stage r' = stage r)"
proof -
  let ?s = "on_message (Some (Some r)) s"
  have "find (waits_for (n, lc_eventId r, stage r)) (received_records ?s) \<noteq> None"
    by (auto simp: find_None_iff on_message_def notifyWaiters_def Let_def)
  then obtain r' where r': "find (waits_for (n, lc_eventId r, stage r)) (received_records ?s) = Some r'"
    by auto
  then have "waits_for (n, lc_eventId r, stage r) r'" by (auto simp: find_Some_iff)
  with r' show ?thesis
    by (auto simp: on_message_def notifyWaiters_def Let_def waitFor_def mset_map split: option.split)
qed

end
