(* ===== verification/Service_Db.thy ===== *)
theory Service_Db
  imports Error_Class Lifecycle Outbox_Table
begin

text \<open>
  The database of a service and its transactions. A service's memory holds the committed
  database and, while a query runner has a transaction open, the working copy its statements act
  on: COMMIT installs the copy, ROLLBACK discards it. The messaging service keeps four tables
  (\<open>apps/messaging/src/entities\<close>): messages, processed events, outbox events and event attempts; the
  gateway keeps its outbox table only.
\<close>

section \<open>Tables\<close>

record message_row =
  msg_id :: int
  msg_title :: string
  msg_content :: string
  msg_sender :: string
  msg_recipient :: "string option"
  msg_createdAt :: int

record processed_row =
  pe_id :: int
  pe_eventId :: string
  pe_eventType :: string
  pe_correlationId :: "string option"
  pe_result :: jsval
  pe_processedAt :: int

record attempt_row =
  ea_eventId :: string
  ea_attempts :: int
  ea_updatedAt :: int

text \<open>The gateway's outbox entity has the columns of the messaging service's.\<close>

type_synonym GatewayOutboxEvent = outbox_row

record service_tables =
  messages :: "message_row list"
  processed_events :: "processed_row list"
  outbox_events :: outbox_table
  event_attempts :: "attempt_row list"

section \<open>A service's memory\<close>

text \<open>
  The channel of the delivery being handled records how it was settled; \<open>seqs\<close> are the
  identifier sequences, which no rollback resets.
\<close>

datatype settlement = Ack int | Nack int bool

record 'db service_mem = lifecycle_mem +
  committed :: 'db
  open_tx :: "'db option"
  seqs :: "string \<Rightarrow> int"
  settled :: "settlement list"
  svc_metrics :: "metric_event list"

text \<open>A service that has just started, on a given database, with tracing disabled.\<close>

definition new_service :: "'db \<Rightarrow> 'db service_mem" where
  "new_service d = \<lparr>amqpConnection = None, amqpChannel = None, connecting = None, handlers = [],
     opened_conns = 0, published = [], unconfirmed = [], confirmed = [], lc_enabled = False,
     serviceName = ''service'', lc_channel = False, lc_connection = False, lc_connecting = False,
     lc_records = [], lc_onError = [], committed = d, open_tx = None, seqs = \<lambda>_. 1, settled = [],
     svc_metrics = []\<rparr>"

definition no_tables :: service_tables where
  "no_tables = \<lparr>messages = [], processed_events = [], outbox_events = [], event_attempts = []\<rparr>"

section \<open>Transactions\<close>

definition no_tx_error :: jsval where
  "no_tx_error = JErr ''QueryRunnerAlreadyReleasedError'' [(''message'', JStr ''no transaction'')]"

text \<open>\<open>createQueryRunner(); connect(); startTransaction()\<close>.\<close>

definition begin_tx :: "(('db, 'a) service_mem_scheme, unit) io" where
  "begin_tx = andThen external (request (\<lambda>_ m. (Inr (), m\<lparr>open_tx := Some (committed m)\<rparr>)))"

text \<open>A statement in the open transaction.\<close>

definition in_tx :: "(int \<Rightarrow> ('db, 'a) service_mem_scheme \<Rightarrow> 'db \<Rightarrow>
    (jsval + 'b) \<times> 'db \<times> ('db, 'a) service_mem_scheme) \<Rightarrow> (('db, 'a) service_mem_scheme, 'b) io" where
  "in_tx f = request (\<lambda>now m. case open_tx m of
       None \<Rightarrow> (Inl no_tx_error, m)
     | Some d \<Rightarrow> (case f now m d of (r, d', m') \<Rightarrow> (r, m'\<lparr>open_tx := Some d'\<rparr>)))"

definition commit_tx :: "(('db, 'a) service_mem_scheme, unit) io" where
  "commit_tx = request (\<lambda>_ m. case open_tx m of
       None \<Rightarrow> (Inl no_tx_error, m)
     | Some d \<Rightarrow> (Inr (), m\<lparr>committed := d, open_tx := None\<rparr>))"

definition rollback_tx :: "(('db, 'a) service_mem_scheme, unit) io" where
  "rollback_tx = request (\<lambda>_ m. (Inr (), m\<lparr>open_tx := None\<rparr>))"

text \<open>\<open>release()\<close>: the connection goes back to the pool, an unfinished transaction is lost.\<close>

definition release_tx :: "(('db, 'a) service_mem_scheme, unit) io" where
  "release_tx = andThen external (modify (\<lambda>m. m\<lparr>open_tx := None\<rparr>))"

section \<open>Metrics of a service\<close>

definition count_metric :: "metric_event \<Rightarrow> (('db, 'a) service_mem_scheme, unit) io" where
  "count_metric e = modify (\<lambda>m. m\<lparr>svc_metrics := svc_metrics m @ [e]\<rparr>)"

text \<open>The function that \<open>startTimer\<close> returns, called with the outcome.\<close>

definition end_timer :: "string \<Rightarrow> int \<Rightarrow> string \<Rightarrow> string \<Rightarrow> (('db, 'a) service_mem_scheme, unit) io" where
  "end_timer service started eventType result = bind now_ms (\<lambda>now.
     count_metric (Observe ''processing_duration_seconds''
       [(''service'', service), (''event_type'', eventType), (''outcome'', result)] (now - started)))"

definition processed_metric :: "string \<Rightarrow> string \<Rightarrow> string \<Rightarrow> metric_event" where
  "processed_metric service eventType result = Inc ''messages_processed_total''
     [(''service'', service), (''event_type'', eventType), (''outcome'', result)]"

definition failed_metric :: "string \<Rightarrow> string \<Rightarrow> ErrorClass \<Rightarrow> metric_event" where
  "failed_metric service eventType c = Inc ''messages_failed_total''
     [(''service'', service), (''event_type'', eventType), (''error_class'', class_name c)]"

lemma wp_count_metric [wp_eqs]:
  "wp (count_metric e) Q E w \<longleftrightarrow> Q () (w\<lparr>mem := (mem w)\<lparr>svc_metrics := svc_metrics (mem w) @ [e]\<rparr>\<rparr>)"
  by (simp add: count_metric_def wp_eqs)

lemma wp_end_timer [wp_eqs]:
  "wp (end_timer service s ty out) Q E w \<longleftrightarrow> wp (count_metric (Observe ''processing_duration_seconds''
     [(''service'', service), (''event_type'', ty), (''outcome'', out)] (clock w (calls w) - s))) Q E w"
  by (simp add: end_timer_def wp_eqs)

section \<open>Inserts\<close>

definition next_id :: "string \<Rightarrow> ('db, 'a) service_mem_scheme \<Rightarrow> int \<times> ('db, 'a) service_mem_scheme" where
  "next_id tbl m = (seqs m tbl, m\<lparr>seqs := (seqs m)(tbl := seqs m tbl + 1)\<rparr>)"

text \<open>What a nullable \<open>jsonb\<close> column stores.\<close>

definition jsonb_of :: "jsval \<Rightarrow> jsval" where
  "jsonb_of v = (if v = JUndef then JNull else json_of v)"

definition insert_processed :: "string \<Rightarrow> string \<Rightarrow> string option \<Rightarrow> jsval \<Rightarrow> int \<Rightarrow>
    (service_tables, 'a) service_mem_scheme \<Rightarrow> service_tables \<Rightarrow>
    (jsval + processed_row) \<times> service_tables \<times> (service_tables, 'a) service_mem_scheme" where
  "insert_processed eventId eventType correlationId res now m d =
     (let (i, m') = next_id ''processed_events'' m in
      if eventId \<in> pe_eventId ` set (processed_events d) then (Inl unique_violation, d, m')
      else let row = \<lparr>pe_id = i, pe_eventId = eventId, pe_eventType = eventType,
                  pe_correlationId = correlationId, pe_result = jsonb_of res, pe_processedAt = now\<rparr>
           in (Inr row, d\<lparr>processed_events := processed_events d @ [row]\<rparr>, m'))"

definition insert_message :: "string \<Rightarrow> string \<Rightarrow> string \<Rightarrow> string option \<Rightarrow> int \<Rightarrow>
    (service_tables, 'a) service_mem_scheme \<Rightarrow> service_tables \<Rightarrow>
    (jsval + message_row) \<times> service_tables \<times> (service_tables, 'a) service_mem_scheme" where
  "insert_message title body sender recipient now m d =
     (let (i, m') = next_id ''messages'' m;
          row = \<lparr>msg_id = i, msg_title = title, msg_content = body, msg_sender = sender,
                 msg_recipient = recipient, msg_createdAt = now\<rparr>
      in (Inr row, d\<lparr>messages := messages d @ [row]\<rparr>, m'))"

text \<open>What a writer of an outbox row gives; a \<open>jsonb\<close> column stores the JSON of the payload.\<close>

record OutboxEventInput =
  in_eventType :: string
  in_payload :: jsval
  in_correlationId :: "string option"
  in_eventId :: "string option"
  in_maxAttempts :: "int option"

definition outbox_row_of :: "OutboxEventInput \<Rightarrow> string \<Rightarrow> int \<Rightarrow> (string \<times> string) list \<Rightarrow> int \<Rightarrow> int \<Rightarrow>
    outbox_row" where
  "outbox_row_of ev eventId due carrier i now =
     (new_outbox_row now i (in_eventType ev) (json_of (in_payload ev)) (in_correlationId ev)
        (Some eventId) (if carrier = [] then None else Some carrier))
     \<lparr>next_retry_at := due, max_attempts := or_else (in_maxAttempts ev) 5\<rparr>"

text \<open>The partial unique index on \<open>event_id\<close>.\<close>

definition event_id_taken :: "string \<Rightarrow> outbox_table \<Rightarrow> bool" where
  "event_id_taken e t \<longleftrightarrow> Some e \<in> event_id ` set t"

section \<open>Facts\<close>

text \<open>The part of the memory below the database: the broker client and the tracer.\<close>

lemma wp_begin_tx [wp_eqs]:
  "wp begin_tx Q E w \<longleftrightarrow> wp external (\<lambda>_. wp (request (\<lambda>_ m.
     (Inr (), m\<lparr>open_tx := Some (committed m)\<rparr>))) Q E) E w"
  by (simp add: begin_tx_def wp_eqs)

lemma outbox_row_of_sel [simp]:
  "row_id (outbox_row_of ev e due c i now) = i" "status (outbox_row_of ev e due c i now) = Pending"
  "event_id (outbox_row_of ev e due c i now) = Some e" "attempts (outbox_row_of ev e due c i now) = 0"
  "event_type (outbox_row_of ev e due c i now) = in_eventType ev"
  "payload (outbox_row_of ev e due c i now) = json_of (in_payload ev)"
  "next_retry_at (outbox_row_of ev e due c i now) = due"
  "correlation_id (outbox_row_of ev e due c i now) = in_correlationId ev"
  by (simp_all add: outbox_row_of_def)

end
