(* ===== verification/Outbox_Tx.thy ===== *)
theory Outbox_Tx
  imports Service_Db Tracing
begin

text \<open>
  Transactional writes: \<open>apps/messaging/src/outbox/outbox-transaction.service.ts\<close>,
  \<open>apps/messaging/src/messaging.service.ts\<close> on top of it, and the gateway's
  \<open>apps/gateway/src/outbox/gateway-outbox-transaction.service.ts\<close>. Every statement, and the commit
  itself, may fail, or take effect and lose its answer.
\<close>

type_synonym messaging_mem = "service_tables service_mem"
type_synonym gateway_mem = "GatewayOutboxEvent list service_mem"

section \<open>The messaging service\<close>

definition insert_outbox :: "OutboxEventInput \<Rightarrow> string \<Rightarrow> int \<Rightarrow> (string \<times> string) list \<Rightarrow>
    (messaging_mem, unit) io" where
  "insert_outbox ev eventId due carrier = in_tx (\<lambda>now m d.
     let (i, m') = next_id ''outbox_events'' m
     in if event_id_taken eventId (outbox_events d) then (Inl unique_violation, d, m')
        else (Inr (), d\<lparr>outbox_events := outbox_events d @
               [outbox_row_of ev eventId due carrier i now]\<rparr>, m'))"

definition insertOutboxEvents :: "OutboxEventInput list \<Rightarrow> (messaging_mem, unit) io" where
  "insertOutboxEvents events = bind now_ms (\<lambda>now. bind captureTraceContextCarrier (\<lambda>traceContext.
     for_each (\<lambda>ev. bind randomUUID (\<lambda>eventId. insert_outbox ev eventId now traceContext)) events))"

definition runWithOutboxEvents :: "(messaging_mem, 'a) io \<Rightarrow> OutboxEventInput list \<Rightarrow>
    (messaging_mem, 'a) io" where
  "runWithOutboxEvents work events = andThen begin_tx
     (finally_do
       (catching
         (bind work (\<lambda>result.
            andThen (insertOutboxEvents events) (andThen commit_tx (ret result))))
         (\<lambda>err. andThen rollback_tx (throw err)))
       release_tx)"

text \<open>The idempotency row, and whether it was there already; \<open>None\<close> is a duplicate run.\<close>

definition idempotency_insert :: "string \<Rightarrow> string \<Rightarrow> string option \<Rightarrow> (messaging_mem, bool) io" where
  "idempotency_insert eventId eventType correlationId = catching
     (andThen (in_tx (\<lambda>now m d. insert_processed eventId eventType correlationId JUndef now m d))
        (ret False))
     (\<lambda>err. if isUniqueViolation err then andThen rollback_tx (ret True) else throw err)"

definition runIdempotentWithOutboxEvents :: "string \<Rightarrow> string \<Rightarrow> string option \<Rightarrow>
    (messaging_mem, 'a) io \<Rightarrow> OutboxEventInput list \<Rightarrow> (messaging_mem, 'a option) io" where
  "runIdempotentWithOutboxEvents eventId eventType correlationId work events = andThen begin_tx
     (finally_do
       (catching
         (bind (idempotency_insert eventId eventType correlationId) (\<lambda>duplicate.
            if duplicate then ret None
            else bind work (\<lambda>result.
              andThen (insertOutboxEvents events) (andThen commit_tx (ret (Some result))))))
         (\<lambda>err. andThen rollback_tx (throw err)))
       release_tx)"

text \<open>
  The business write of \<open>handleMessageCreation\<close> and its idempotent variant, and the event they
  record: its \<open>messageId\<close> is \<open>undefined\<close> in the source.
\<close>

definition save_message :: "string option \<Rightarrow> string option \<Rightarrow> (messaging_mem, message_row) io" where
  "save_message subject body = in_tx (\<lambda>now m d.
     insert_message (or_else subject ''Untitled'') (or_else body ''No content'') ''system-user'' None now m d)"

definition message_persisted_input :: "string option \<Rightarrow> string option \<Rightarrow> OutboxEventInput" where
  "message_persisted_input subject correlationId = \<lparr>in_eventType = ''MessagePersisted'',
     in_payload = JObj [(''messageId'', JUndef), (''title'', JStr (or_else subject ''Untitled''))],
     in_correlationId = correlationId, in_eventId = None, in_maxAttempts = None\<rparr>"

definition handleMessageCreation :: "string option \<Rightarrow> string option \<Rightarrow> string option \<Rightarrow>
    (messaging_mem, message_row) io" where
  "handleMessageCreation subject body correlationId =
     runWithOutboxEvents (save_message subject body) [message_persisted_input subject correlationId]"

definition handleMessageCreationIdempotent :: "string option \<Rightarrow> string option \<Rightarrow> string \<Rightarrow> string \<Rightarrow>
    string option \<Rightarrow> (messaging_mem, message_row option) io" where
  "handleMessageCreationIdempotent subject body eventId eventType correlationId =
     runIdempotentWithOutboxEvents eventId eventType correlationId (save_message subject body)
       [message_persisted_input subject correlationId]"

text \<open>\<open>onModuleInit\<close>: a probe of the database whose failure is only logged.\<close>

definition messaging_onModuleInit :: "(messaging_mem, unit) io" where
  "messaging_onModuleInit = catching (andThen external (ret ())) (\<lambda>_. ret ())"

section \<open>The gateway\<close>

definition insertOutboxEvent :: "OutboxEventInput \<Rightarrow> (gateway_mem, outbox_row) io" where
  "insertOutboxEvent event = bind now_ms (\<lambda>now. bind captureTraceContextCarrier (\<lambda>traceContext.
     bind (case in_eventId event of Some e \<Rightarrow> ret e | None \<Rightarrow> randomUUID) (\<lambda>eventId.
       in_tx (\<lambda>t m d. let (i, m') = next_id ''gateway_outbox_events'' m;
                          row = outbox_row_of event eventId now traceContext i t
                      in if event_id_taken eventId d then (Inl unique_violation, d, m')
                         else (Inr row, d @ [row], m')))))"

definition runWithOutboxEvent :: "(gateway_mem, unit) io \<Rightarrow> OutboxEventInput \<Rightarrow>
    (gateway_mem, outbox_row) io" where
  "runWithOutboxEvent work event = andThen begin_tx
     (finally_do
       (catching
         (andThen work (bind (insertOutboxEvent event) (\<lambda>row. andThen commit_tx (ret row))))
         (\<lambda>err. andThen rollback_tx (throw err)))
       release_tx)"

definition gateway_record :: "OutboxEventInput \<Rightarrow> (gateway_mem, outbox_row) io" where
  "gateway_record event = runWithOutboxEvent (ret ()) event"

section \<open>Frames\<close>

text \<open>A run that touches nothing but the database part of the memory.\<close>

definition db_frame :: "'db service_mem world \<Rightarrow> 'db service_mem world \<Rightarrow> bool" where
  "db_frame w w' \<longleftrightarrow> (mem w')\<lparr>committed := committed (mem w), open_tx := open_tx (mem w),
       seqs := seqs (mem w)\<rparr> = mem w \<and>
     outcomes w' = outcomes w \<and> clock w' = clock w \<and> fresh w' = fresh w \<and>
     otel_inject w' = otel_inject w"

text \<open>The errors that the outside can produce in a world.\<close>

definition outside_errors :: "'d world \<Rightarrow> jsval set" where
  "outside_errors w = {e. \<exists>n. outcomes w n = Fails e \<or> outcomes w n = Lost e}"

lemma db_frame_refl [simp]: "db_frame w w"
  by (simp add: db_frame_def)

lemma db_frame_trans:
  assumes "db_frame a b" "db_frame b c"
  shows "db_frame a c"
proof -
  have "mem a = (mem b)\<lparr>committed := committed (mem a), open_tx := open_tx (mem a),
      seqs := seqs (mem a)\<rparr>"
    using assms(1) by (simp add: db_frame_def)
  also have "\<dots> = (mem c)\<lparr>committed := committed (mem b), open_tx := open_tx (mem b),
      seqs := seqs (mem b), committed := committed (mem a), open_tx := open_tx (mem a),
      seqs := seqs (mem a)\<rparr>"
    using assms(2) by (simp add: db_frame_def)
  finally show ?thesis
    using assms by (simp add: db_frame_def)
qed

lemma db_frame_errors: "db_frame w w' \<Longrightarrow> outside_errors w' = outside_errors w"
  by (simp add: db_frame_def outside_errors_def)

lemma db_frame_updates:
  "db_frame w (w\<lparr>calls := n, mem := (mem w)\<lparr>open_tx := t\<rparr>\<rparr>)"
  "db_frame w (w\<lparr>calls := n, mem := (mem w)\<lparr>committed := c, open_tx := t\<rparr>\<rparr>)"
  "db_frame w (w\<lparr>calls := n, mem := (mem w)\<lparr>seqs := s, open_tx := t\<rparr>\<rparr>)"
  "db_frame w (w\<lparr>calls := n\<rparr>)" "db_frame w (w\<lparr>uuids := n\<rparr>)"
  by (simp_all add: db_frame_def)

lemma outside_errorsI:
  "outcomes w n = Fails e \<Longrightarrow> e \<in> outside_errors w" "outcomes w n = Lost e \<Longrightarrow> e \<in> outside_errors w"
  by (auto simp: outside_errors_def)

text \<open>The transaction statements: how they move the committed database and the working copy.\<close>

definition tx_at :: "'db service_mem world \<Rightarrow> 'db \<Rightarrow> 'db option \<Rightarrow> 'db service_mem world \<Rightarrow> bool" where
  "tx_at w c t w' \<longleftrightarrow> db_frame w w' \<and> committed (mem w') = c \<and> open_tx (mem w') = t"

definition tx_failed :: "'db service_mem world \<Rightarrow> jsval \<Rightarrow> 'db service_mem world \<Rightarrow> bool" where
  "tx_failed w e w' \<longleftrightarrow> db_frame w w' \<and> committed (mem w') = committed (mem w) \<and> e \<in> outside_errors w"

lemma wp_begin_tx':
  "wp begin_tx (\<lambda>_. tx_at w (committed (mem w)) (Some (committed (mem w)))) (tx_failed w) w"
  by (auto simp: wp_eqs tx_at_def tx_failed_def db_frame_updates outside_errorsI split: outcome.split)

lemma wp_rollback_tx:
  "wp rollback_tx (\<lambda>_. tx_at w (committed (mem w)) None) (tx_failed w) w"
  by (auto simp: rollback_tx_def wp_eqs tx_at_def tx_failed_def db_frame_updates outside_errorsI
      split: outcome.split)

lemma wp_release_tx:
  "wp release_tx (\<lambda>_. tx_at w (committed (mem w)) None) (tx_failed w) w"
  by (auto simp: release_tx_def wp_eqs tx_at_def tx_failed_def db_frame_updates outside_errorsI
      split: outcome.split)

lemma wp_commit_tx:
  assumes "open_tx (mem w) = Some d"
  shows "wp commit_tx (\<lambda>_. tx_at w d None)
    (\<lambda>e w'. db_frame w w' \<and> (committed (mem w') = committed (mem w) \<or> committed (mem w') = d) \<and>
       e \<in> outside_errors w) w"
  using assms
  by (auto simp: commit_tx_def wp_eqs tx_at_def db_frame_updates outside_errorsI split: outcome.split)

text \<open>
  What the bracket \<open>try ... catch (rollback; throw) ... finally (release)\<close> relies on: \<open>rollback\<close> and
  \<open>release\<close>, whether they succeed or fail, leave the committed state alone and stay within the frame.
\<close>

locale transaction_bracket =
  fixes rollback :: "('m, unit) io" and release :: "('m, unit) io"
    and view :: "'m world \<Rightarrow> 'db" and frame :: "'m world \<Rightarrow> 'm world \<Rightarrow> bool"
  assumes frame_trans: "frame a b \<Longrightarrow> frame b c \<Longrightarrow> frame a c"
    and rollback_keeps: "wp rollback (\<lambda>_ w'. frame w w' \<and> view w' = view w) (\<lambda>_ w'. frame w w' \<and> view w' = view w) w"
    and release_keeps: "wp release (\<lambda>_ w'. frame w w' \<and> view w' = view w) (\<lambda>_ w'. frame w w' \<and> view w' = view w) w"
begin

text \<open>
  What holds of the committed state after the body holds after the whole, if it may also be
  reported as an error.
\<close>

lemma bracket:
  assumes body: "wp body (\<lambda>x w'. frame w w' \<and> P (Some x) (view w')) (\<lambda>e w'. frame w w' \<and> P None (view w')) v"
    and weak: "\<And>x c. P (Some x) c \<Longrightarrow> P None c"
  shows "wp (finally_do (catching body (\<lambda>err. andThen rollback (throw err))) release)
    (\<lambda>x w'. frame w w' \<and> P (Some x) (view w')) (\<lambda>e w'. frame w w' \<and> P None (view w')) v"
proof -
  have fin: "wp release (\<lambda>_ w2. frame w w2 \<and> P r (view w2)) (\<lambda>_ w2. frame w w2 \<and> P None (view w2)) w1"
    if "frame w w1" "P r (view w1)" for w1 r
    by (rule wp_mono [OF release_keeps])
      (use that(2) weak frame_trans [OF that(1)] in \<open>cases r; auto\<close>)+
  have roll: "wp rollback (\<lambda>_ w2. frame w w2 \<and> P None (view w2)) (\<lambda>_ w2. frame w w2 \<and> P None (view w2)) w1"
    if "frame w w1" "P None (view w1)" for w1
    by (rule wp_mono [OF rollback_keeps]) (use that frame_trans [OF that(1)] in auto)
  show ?thesis
    unfolding wp_finally wp_catch
  proof (rule wp_mono [OF body])
    fix e w1 assume "frame w w1 \<and> P None (view w1)"
    then show "wp (andThen rollback (throw e))
        (\<lambda>x. wp release (\<lambda>_ w'. frame w w' \<and> P (Some x) (view w')) (\<lambda>e w'. frame w w' \<and> P None (view w')))
        (\<lambda>e. wp release (\<lambda>_ w'. frame w w' \<and> P None (view w')) (\<lambda>e w'. frame w w' \<and> P None (view w'))) w1"
      unfolding wp_andThen wp_funs by (intro wp_mono [OF roll]) (use fin [of _ None] in auto)
  qed (use fin in blast)
qed

end

interpretation tx: transaction_bracket rollback_tx release_tx "\<lambda>w. committed (mem w)" db_frame
  by unfold_locales
    (rule db_frame_trans, assumption, assumption,
     (rule wp_mono [OF wp_rollback_tx] wp_mono [OF wp_release_tx]; simp add: tx_at_def tx_failed_def)+)

lemmas tx_wrapper = tx.bracket

section \<open>Statements of a transaction\<close>

text \<open>
  A statement that changes nothing but the working copy and the sequences: what it answers is
  what it did, and an error leaves the committed database alone.
\<close>

lemma wp_in_tx:
  assumes op: "open_tx (mem w) = Some d"
    and pure: "\<And>now r d' m'. f now (mem w) d = (r, d', m') \<Longrightarrow>
      (\<exists>s. m' = (mem w)\<lparr>seqs := s\<rparr>) \<and> (\<forall>e. r = Inl e \<longrightarrow> e \<in> errs) \<and> (\<forall>x. r = Inr x \<longrightarrow> R x d')"
  shows "wp (in_tx f)
    (\<lambda>x w'. db_frame w w' \<and> committed (mem w') = committed (mem w) \<and>
       (\<exists>d'. open_tx (mem w') = Some d' \<and> R x d'))
    (\<lambda>e w'. db_frame w w' \<and> committed (mem w') = committed (mem w) \<and>
       e \<in> outside_errors w \<union> errs) w"
proof -
  obtain r d' m' where f: "f (clock w (calls w)) (mem w) d = (r, d', m')"
    by (cases "f (clock w (calls w)) (mem w) d") auto
  from pure [OF f] obtain s where m: "m' = (mem w)\<lparr>seqs := s\<rparr>"
    and r: "\<And>e. r = Inl e \<Longrightarrow> e \<in> errs" "\<And>x. r = Inr x \<Longrightarrow> R x d'" by blast
  show ?thesis
    unfolding in_tx_def wp_request
    by (simp add: op f m db_frame_updates db_frame_def outside_errorsI Let_def r
        split: outcome.split sum.split)
qed

text \<open>The same with the effects threaded from an earlier world of the same run.\<close>

definition tx_open :: "'db service_mem world \<Rightarrow> 'db \<Rightarrow> 'db service_mem world \<Rightarrow> bool" where
  "tx_open w0 d w \<longleftrightarrow> db_frame w0 w \<and> committed (mem w) = committed (mem w0) \<and> open_tx (mem w) = Some d"

definition tx_err :: "'db service_mem world \<Rightarrow> jsval set \<Rightarrow> jsval \<Rightarrow> 'db service_mem world \<Rightarrow> bool" where
  "tx_err w0 errs e w \<longleftrightarrow> db_frame w0 w \<and> committed (mem w) = committed (mem w0) \<and>
     e \<in> outside_errors w0 \<union> errs"

lemma wp_statement:
  assumes "tx_open w0 d w"
    and "\<And>now r d' m'. f now (mem w) d = (r, d', m') \<Longrightarrow>
      (\<exists>s. m' = (mem w)\<lparr>seqs := s\<rparr>) \<and> (\<forall>e. r = Inl e \<longrightarrow> e \<in> errs) \<and> (\<forall>x. r = Inr x \<longrightarrow> R x d')"
  shows "wp (in_tx f) (\<lambda>x w'. \<exists>d'. R x d' \<and> tx_open w0 d' w') (tx_err w0 errs) w"
proof -
  have fr: "db_frame w0 w" and op: "open_tx (mem w) = Some d"
    using assms(1) by (simp_all add: tx_open_def)
  show ?thesis
    by (rule wp_mono [OF wp_in_tx [where R = R and errs = errs, OF op assms(2)]])
      (use assms(1) fr db_frame_errors [OF fr] in
        \<open>auto simp: tx_open_def tx_err_def intro: db_frame_trans [OF fr]\<close>)
qed

lemma wp_begin_open:
  "wp begin_tx (\<lambda>_. tx_open w (committed (mem w))) (tx_err w errs) w"
  by (rule wp_mono [OF wp_begin_tx']) (auto simp: tx_open_def tx_err_def tx_at_def tx_failed_def)

lemma tx_open_uuids: "tx_open w0 d w \<Longrightarrow> tx_open w0 d (w\<lparr>uuids := n\<rparr>)"
  by (auto simp: tx_open_def db_frame_def)

text \<open>The idempotency row: \<open>duplicate\<close> only for an event already processed, or an outside error
  that looks like a unique violation.\<close>

definition processed_ids :: "service_tables \<Rightarrow> string set" where
  "processed_ids d = pe_eventId ` set (processed_events d)"

definition unique_noise :: "'d world \<Rightarrow> bool" where
  "unique_noise w \<longleftrightarrow> (\<exists>e \<in> outside_errors w. isUniqueViolation e)"

definition insert_post :: "messaging_mem world \<Rightarrow> service_tables \<Rightarrow> string \<Rightarrow> string \<Rightarrow> string option \<Rightarrow>
    bool \<Rightarrow> messaging_mem world \<Rightarrow> bool" where
  "insert_post w0 d eventId eventType corr dup w' \<longleftrightarrow>
     db_frame w0 w' \<and> committed (mem w') = committed (mem w0) \<and>
     (if dup then eventId \<in> processed_ids d \<or> unique_noise w0
      else \<exists>p. tx_open w0 (d\<lparr>processed_events := processed_events d @ [p]\<rparr>) w' \<and>
        eventId \<notin> processed_ids d \<and> pe_eventId p = eventId \<and> pe_eventType p = eventType \<and>
        pe_correlationId p = corr)"

lemma wp_idempotency_insert:
  assumes op: "tx_open w0 d w"
  shows "wp (idempotency_insert eventId eventType corr)
    (insert_post w0 d eventId eventType corr)
    (\<lambda>e w'. db_frame w0 w' \<and> committed (mem w') = committed (mem w0)) w"
proof -
  let ?R = "\<lambda>p d'. d' = d\<lparr>processed_events := processed_events d @ [p]\<rparr> \<and>
    eventId \<notin> processed_ids d \<and> pe_eventId p = eventId \<and> pe_eventType p = eventType \<and>
    pe_correlationId p = corr"
  let ?errs = "if eventId \<in> processed_ids d then {unique_violation} else {}"
  have stmt: "wp (in_tx (insert_processed eventId eventType corr JUndef))
      (\<lambda>p w'. \<exists>d'. ?R p d' \<and> tx_open w0 d' w') (tx_err w0 ?errs) w"
    by (rule wp_statement [OF op])
      (auto simp: insert_processed_def next_id_def processed_ids_def Let_def split: if_splits)
  have roll: "wp rollback_tx (\<lambda>_ w'. db_frame w0 w' \<and> committed (mem w') = committed (mem w0))
      (\<lambda>_ w'. db_frame w0 w' \<and> committed (mem w') = committed (mem w0)) w1"
    if "db_frame w0 w1" "committed (mem w1) = committed (mem w0)" for w1
    by (rule wp_mono [OF wp_rollback_tx])
      (use that in \<open>auto simp: tx_at_def tx_failed_def intro: db_frame_trans\<close>)
  show ?thesis
    unfolding idempotency_insert_def wp_catch wp_andThen
  proof (rule wp_mono [OF stmt])
    fix p w1 assume "\<exists>d'. ?R p d' \<and> tx_open w0 d' w1"
    then show "wp (ret False) (insert_post w0 d eventId eventType corr)
      (\<lambda>e. wp (if isUniqueViolation e then andThen rollback_tx (ret True) else throw e)
         (insert_post w0 d eventId eventType corr)
         (\<lambda>e w'. db_frame w0 w' \<and> committed (mem w') = committed (mem w0))) w1"
      by (auto simp: wp_ret tx_open_def insert_post_def)
  next
    fix e w1 assume err: "tx_err w0 ?errs e w1"
    then have fr: "db_frame w0 w1" "committed (mem w1) = committed (mem w0)"
      by (simp_all add: tx_err_def)
    have "eventId \<in> processed_ids d \<or> unique_noise w0" if "isUniqueViolation e"
      using err that by (auto simp: tx_err_def unique_noise_def split: if_splits)
    then show "wp (if isUniqueViolation e then andThen rollback_tx (ret True) else throw e)
         (insert_post w0 d eventId eventType corr)
         (\<lambda>e w'. db_frame w0 w' \<and> committed (mem w') = committed (mem w0)) w1"
      using fr by (auto simp: wp_eqs insert_post_def intro!: wp_mono [OF roll [OF fr]])
  qed
qed

lemma wp_save_message:
  assumes "tx_open w0 d w"
  shows "wp (save_message subject body)
    (\<lambda>m w'. tx_open w0 (d\<lparr>messages := messages d @ [m]\<rparr>) w' \<and>
       msg_title m = or_else subject ''Untitled'' \<and> msg_content m = or_else body ''No content'')
    (tx_err w0 {}) w"
  unfolding save_message_def
  by (rule wp_mono [OF wp_statement [OF assms, where errs = "{}" and
        R = "\<lambda>m d'. d' = d\<lparr>messages := messages d @ [m]\<rparr> \<and>
           msg_title m = or_else subject ''Untitled'' \<and> msg_content m = or_else body ''No content''"]])
    (auto simp: insert_message_def next_id_def Let_def)

text \<open>What \<open>insertOutboxEvents\<close> writes for one input.\<close>

definition outbox_row_for :: "OutboxEventInput \<Rightarrow> outbox_row \<Rightarrow> bool" where
  "outbox_row_for ev row \<longleftrightarrow> (\<exists>e due c i now. row = outbox_row_of ev e due c i now)"

lemma outbox_row_forI [simp]: "outbox_row_for ev (outbox_row_of ev e due c i now)"
  unfolding outbox_row_for_def by blast

lemma wp_capture_carrier:
  "wp captureTraceContextCarrier (\<lambda>_ w'. w' = w) (\<lambda>_ _. False) w"
  by (simp add: captureTraceContextCarrier_def wp_def)

lemma wp_insert_outbox:
  assumes "tx_open w0 d w"
  shows "wp (insert_outbox ev e due c)
    (\<lambda>_ w'. \<exists>row. tx_open w0 (d\<lparr>outbox_events := outbox_events d @ [row]\<rparr>) w' \<and>
       outbox_row_for ev row \<and> event_id row = Some e)
    (tx_err w0 {unique_violation}) w"
proof -
  let ?R = "\<lambda>_ d'. \<exists>row. d' = d\<lparr>outbox_events := outbox_events d @ [row]\<rparr> \<and>
      outbox_row_for ev row \<and> event_id row = Some e"
  have "\<exists>row. d\<lparr>outbox_events := outbox_events d @ [outbox_row_of ev e due c i now]\<rparr> =
      d\<lparr>outbox_events := outbox_events d @ [row]\<rparr> \<and> outbox_row_for ev row \<and> event_id row = Some e"
    for i now by (rule exI [of _ "outbox_row_of ev e due c i now"]) simp
  then show ?thesis
    unfolding insert_outbox_def
    by (intro wp_mono [OF wp_statement [OF assms, where errs = "{unique_violation}" and R = ?R]])
      (auto simp: next_id_def Let_def split: if_splits)
qed

lemma wp_insertOutboxEvents:
  assumes "tx_open w0 d w"
  shows "wp (insertOutboxEvents evs)
    (\<lambda>_ w'. \<exists>rows. tx_open w0 (d\<lparr>outbox_events := outbox_events d @ rows\<rparr>) w' \<and>
       list_all2 outbox_row_for evs rows)
    (tx_err w0 {unique_violation}) w"
proof -
  have loop: "wp (for_each (\<lambda>ev. bind randomUUID (\<lambda>e. insert_outbox ev e due c)) evs)
      (\<lambda>_ w'. \<exists>rows. tx_open w0 (d\<lparr>outbox_events := outbox_events d @ rows\<rparr>) w' \<and>
         list_all2 outbox_row_for evs rows)
      (tx_err w0 {unique_violation}) w1" if "tx_open w0 d w1" for due c w1 d
    using that
  proof (induction evs arbitrary: w1 d)
    case Nil
    then show ?case by (auto simp: wp_eqs)
  next
    case (Cons ev evs)
    show ?case
      unfolding wp_for_each_Cons wp_bind wp_randomUUID
    proof (rule wp_mono [OF wp_insert_outbox [OF tx_open_uuids [OF Cons.prems]]])
      fix x w2
      assume "\<exists>row. tx_open w0 (d\<lparr>outbox_events := outbox_events d @ [row]\<rparr>) w2 \<and>
          outbox_row_for ev row \<and> event_id row = Some (fresh w1 (uuids w1))"
      then obtain row where row: "tx_open w0 (d\<lparr>outbox_events := outbox_events d @ [row]\<rparr>) w2"
        "outbox_row_for ev row" by blast
      show "wp (for_each (\<lambda>ev. bind randomUUID (\<lambda>e. insert_outbox ev e due c)) evs)
          (\<lambda>_ w'. \<exists>rows. tx_open w0 (d\<lparr>outbox_events := outbox_events d @ rows\<rparr>) w' \<and>
             list_all2 outbox_row_for (ev # evs) rows)
          (tx_err w0 {unique_violation}) w2"
      proof (rule wp_mono [OF Cons.IH [OF row(1)]])
        fix y w' assume "\<exists>rows. tx_open w0 (d\<lparr>outbox_events := outbox_events d @ [row],
            outbox_events := outbox_events (d\<lparr>outbox_events := outbox_events d @ [row]\<rparr>) @ rows\<rparr>) w' \<and>
            list_all2 outbox_row_for evs rows"
        then obtain rows where "tx_open w0 (d\<lparr>outbox_events := outbox_events d @ row # rows\<rparr>) w'"
          "list_all2 outbox_row_for evs rows" by auto
        with row(2) show "\<exists>rows. tx_open w0 (d\<lparr>outbox_events := outbox_events d @ rows\<rparr>) w' \<and>
            list_all2 outbox_row_for (ev # evs) rows"
          by (intro exI [of _ "row # rows"]) simp
      qed simp
    qed
  qed
  show ?thesis
    unfolding insertOutboxEvents_def wp_bind wp_now_ms
    by (rule wp_mono [OF wp_capture_carrier]) (use loop [OF assms] in auto)
qed

text \<open>The end of every run: the events, the commit, the result.\<close>

lemma wp_events_commit:
  assumes "tx_open w0 d w"
  shows "wp (andThen (insertOutboxEvents evs) (andThen commit_tx (ret x)))
    (\<lambda>y w'. y = x \<and> db_frame w0 w' \<and> (\<exists>rows. list_all2 outbox_row_for evs rows \<and>
       committed (mem w') = d\<lparr>outbox_events := outbox_events d @ rows\<rparr>))
    (\<lambda>e w'. db_frame w0 w' \<and> (committed (mem w') = committed (mem w0) \<or>
       (\<exists>rows. list_all2 outbox_row_for evs rows \<and>
         committed (mem w') = d\<lparr>outbox_events := outbox_events d @ rows\<rparr>))) w"
  unfolding wp_andThen
proof (rule wp_mono [OF wp_insertOutboxEvents [OF assms]])
  fix u w1
  assume "\<exists>rows. tx_open w0 (d\<lparr>outbox_events := outbox_events d @ rows\<rparr>) w1 \<and>
      list_all2 outbox_row_for evs rows"
  then obtain rows where rows: "tx_open w0 (d\<lparr>outbox_events := outbox_events d @ rows\<rparr>) w1"
    "list_all2 outbox_row_for evs rows" by blast
  then have op: "open_tx (mem w1) = Some (d\<lparr>outbox_events := outbox_events d @ rows\<rparr>)"
    and fr: "db_frame w0 w1" "committed (mem w1) = committed (mem w0)" by (simp_all add: tx_open_def)
  show "wp commit_tx (\<lambda>_. wp (ret x)
      (\<lambda>y w'. y = x \<and> db_frame w0 w' \<and> (\<exists>rows. list_all2 outbox_row_for evs rows \<and>
         committed (mem w') = d\<lparr>outbox_events := outbox_events d @ rows\<rparr>))
      (\<lambda>e w'. db_frame w0 w' \<and> (committed (mem w') = committed (mem w0) \<or>
       (\<exists>rows. list_all2 outbox_row_for evs rows \<and>
         committed (mem w') = d\<lparr>outbox_events := outbox_events d @ rows\<rparr>))))
      (\<lambda>e w'. db_frame w0 w' \<and> (committed (mem w') = committed (mem w0) \<or>
       (\<exists>rows. list_all2 outbox_row_for evs rows \<and>
         committed (mem w') = d\<lparr>outbox_events := outbox_events d @ rows\<rparr>))) w1"
    by (rule wp_mono [OF wp_commit_tx [OF op]])
      (use rows(2) fr db_frame_trans [OF fr(1)] in \<open>auto simp: wp_eqs tx_at_def\<close>)
qed (auto simp: tx_err_def)

section \<open>What a run leaves behind\<close>

text \<open>
  The writes of one processed event: the processed row, the message and the event announcing it,
  all three or nothing.
\<close>

definition written_once :: "string option \<Rightarrow> string option \<Rightarrow> string \<Rightarrow> string \<Rightarrow> string option \<Rightarrow>
    service_tables \<Rightarrow> message_row \<Rightarrow> service_tables \<Rightarrow> bool" where
  "written_once subject body eventId eventType corr d m d' \<longleftrightarrow>
     eventId \<notin> processed_ids d \<and>
     (\<exists>p row. pe_eventId p = eventId \<and> pe_eventType p = eventType \<and> pe_correlationId p = corr \<and>
        msg_title m = or_else subject ''Untitled'' \<and> msg_content m = or_else body ''No content'' \<and>
        outbox_row_for (message_persisted_input subject corr) row \<and>
        d' = d\<lparr>processed_events := processed_events d @ [p], messages := messages d @ [m],
              outbox_events := outbox_events d @ [row]\<rparr>)"

definition idempotent_post :: "string option \<Rightarrow> string option \<Rightarrow> string \<Rightarrow> string \<Rightarrow> string option \<Rightarrow>
    messaging_mem world \<Rightarrow> message_row option option \<Rightarrow> service_tables \<Rightarrow> bool" where
  "idempotent_post subject body eventId eventType corr w r d' \<longleftrightarrow>
     (case r of
        None \<Rightarrow> d' = committed (mem w) \<or>
          (\<exists>m. written_once subject body eventId eventType corr (committed (mem w)) m d')
      | Some None \<Rightarrow> d' = committed (mem w) \<and>
          (eventId \<in> processed_ids (committed (mem w)) \<or> unique_noise w)
      | Some (Some m) \<Rightarrow> written_once subject body eventId eventType corr (committed (mem w)) m d')"

lemma wp_idempotent_body:
  assumes op: "tx_open w0 (committed (mem w0)) w"
  shows "wp (bind (idempotency_insert eventId eventType corr) (\<lambda>duplicate.
            if duplicate then ret None
            else bind (save_message subject body) (\<lambda>result.
              andThen (insertOutboxEvents [message_persisted_input subject corr])
                (andThen commit_tx (ret (Some result))))))
    (\<lambda>x w'. db_frame w0 w' \<and> idempotent_post subject body eventId eventType corr w0 (Some x) (committed (mem w')))
    (\<lambda>e w'. db_frame w0 w' \<and> idempotent_post subject body eventId eventType corr w0 None (committed (mem w'))) w"
  (is "wp _ ?Q ?E w")
  unfolding wp_bind
proof (rule wp_mono [OF wp_idempotency_insert [OF op]])
  let ?D = "committed (mem w0)"
  fix dup w1 assume post: "insert_post w0 ?D eventId eventType corr dup w1"
  show "wp (if dup then ret None else bind (save_message subject body) (\<lambda>result.
      andThen (insertOutboxEvents [message_persisted_input subject corr])
        (andThen commit_tx (ret (Some result))))) ?Q ?E w1"
  proof (cases dup)
    case True
    then show ?thesis using post by (simp add: wp_ret insert_post_def idempotent_post_def)
  next
    case False
    then obtain p where p: "tx_open w0 (?D\<lparr>processed_events := processed_events ?D @ [p]\<rparr>) w1"
      and new: "eventId \<notin> processed_ids ?D" "pe_eventId p = eventId" "pe_eventType p = eventType"
        "pe_correlationId p = corr"
      using post by (auto simp: insert_post_def)
    have "wp (bind (save_message subject body) (\<lambda>result.
        andThen (insertOutboxEvents [message_persisted_input subject corr])
          (andThen commit_tx (ret (Some result))))) ?Q ?E w1"
      unfolding wp_bind
    proof (rule wp_mono [OF wp_save_message [OF p]])
      fix m w2
      let ?d = "?D\<lparr>processed_events := processed_events ?D @ [p], messages := messages ?D @ [m]\<rparr>"
      assume "tx_open w0 (?D\<lparr>processed_events := processed_events ?D @ [p], messages := messages
          (?D\<lparr>processed_events := processed_events ?D @ [p]\<rparr>) @ [m]\<rparr>) w2 \<and>
        msg_title m = or_else subject ''Untitled'' \<and> msg_content m = or_else body ''No content''"
      then have m: "tx_open w0 ?d w2"
        "msg_title m = or_else subject ''Untitled''" "msg_content m = or_else body ''No content''"
        by simp_all
      have written: "written_once subject body eventId eventType corr ?D m c"
        if "\<exists>rows. list_all2 outbox_row_for [message_persisted_input subject corr] rows \<and>
          c = ?d\<lparr>outbox_events := outbox_events ?d @ rows\<rparr>" for c
        using that new m(2,3) by (auto simp: written_once_def list_all2_Cons1)
      show "wp (andThen (insertOutboxEvents [message_persisted_input subject corr])
          (andThen commit_tx (ret (Some m)))) ?Q ?E w2"
      proof (rule wp_mono [OF wp_events_commit [OF m(1)]])
        fix e w' assume "db_frame w0 w' \<and> (committed (mem w') = committed (mem w0) \<or>
            (\<exists>rows. list_all2 outbox_row_for [message_persisted_input subject corr] rows \<and>
              committed (mem w') = ?d\<lparr>outbox_events := outbox_events ?d @ rows\<rparr>))"
        then show "db_frame w0 w' \<and>
            idempotent_post subject body eventId eventType corr w0 None (committed (mem w'))"
          using written [of "committed (mem w')"] unfolding idempotent_post_def by simp blast
      qed (simp add: idempotent_post_def written)
    qed (auto simp: tx_err_def idempotent_post_def)
    with False show ?thesis by simp
  qed
qed (simp add: idempotent_post_def)

lemma wp_handleMessageCreationIdempotent:
  "wp (handleMessageCreationIdempotent subject body eventId eventType corr)
    (\<lambda>x w'. db_frame w w' \<and> idempotent_post subject body eventId eventType corr w (Some x) (committed (mem w')))
    (\<lambda>e w'. db_frame w w' \<and> idempotent_post subject body eventId eventType corr w None (committed (mem w'))) w"
  unfolding handleMessageCreationIdempotent_def runIdempotentWithOutboxEvents_def wp_andThen
proof (rule wp_mono [OF wp_begin_open])
  fix u w1 assume op: "tx_open w (committed (mem w)) w1"
  let ?P = "idempotent_post subject body eventId eventType corr w"
  show "wp (finally_do (catching (bind (idempotency_insert eventId eventType corr) (\<lambda>duplicate.
      if duplicate then ret None
      else bind (save_message subject body) (\<lambda>result.
        andThen (insertOutboxEvents [message_persisted_input subject corr])
          (andThen commit_tx (ret (Some result))))))
      (\<lambda>err. andThen rollback_tx (throw err))) release_tx)
    (\<lambda>x w'. db_frame w w' \<and> ?P (Some x) (committed (mem w')))
    (\<lambda>e w'. db_frame w w' \<and> ?P None (committed (mem w'))) w1"
    by (rule tx_wrapper [OF wp_idempotent_body [OF op]])
      (auto simp: idempotent_post_def split: option.splits)
qed (auto simp: tx_err_def idempotent_post_def)

section \<open>The messaging service's writes\<close>

text \<open>
  A run of the idempotent handler ends in one of three ways. It returns the message: then exactly
  the processed row, the message and its outbox event were committed, and the event had not been
  processed before. It returns \<open>null\<close>: then nothing changed, and the event had been processed
  (or the outside produced an error that reads as a unique violation). It throws: then either
  nothing or all three rows are committed, never a part.
\<close>

theorem idempotent_run:
  "let (r, w') = handleMessageCreationIdempotent subject body eventId eventType corr w;
       d = committed (mem w); d' = committed (mem w')
   in case r of
        Inr (Some m) \<Rightarrow> written_once subject body eventId eventType corr d m d'
      | Inr None \<Rightarrow> d' = d \<and> (eventId \<in> processed_ids d \<or> unique_noise w)
      | Inl _ \<Rightarrow> d' = d \<or> (\<exists>m. written_once subject body eventId eventType corr d m d')"
proof -
  obtain r w' where run: "handleMessageCreationIdempotent subject body eventId eventType corr w = (r, w')"
    by fastforce
  note all = wp_handleMessageCreationIdempotent [of subject body eventId eventType corr w]
  show ?thesis
  proof (cases r)
    case (Inl e)
    with wp_error [OF all run [unfolded Inl]] show ?thesis
      by (simp add: run idempotent_post_def)
  next
    case (Inr x)
    with wp_result [OF all run [unfolded Inr]] show ?thesis
      by (cases x) (simp_all add: run idempotent_post_def)
  qed
qed

text \<open>
  Any schedule of deliveries and redeliveries, each handled to its end, errors included: RabbitMQ
  brings the same event again whenever a run throws.
\<close>

definition handle_commands :: "(string option \<times> string option \<times> string \<times> string \<times> string option) list \<Rightarrow>
    (messaging_mem, unit) io" where
  "handle_commands = for_each (\<lambda>(subject, body, eventId, eventType, corr).
     catching (andThen (handleMessageCreationIdempotent subject body eventId eventType corr) (ret ()))
       (\<lambda>_. ret ()))"

definition once_per_event :: "service_tables \<Rightarrow> bool" where
  "once_per_event d \<longleftrightarrow> distinct (map pe_eventId (processed_events d)) \<and>
     length (messages d) = length (processed_events d) \<and>
     map correlation_id (outbox_events d) = map pe_correlationId (processed_events d)"

lemma idempotent_post_cases:
  "idempotent_post s b i t c w r d' \<Longrightarrow>
     d' = committed (mem w) \<or> (\<exists>m. written_once s b i t c (committed (mem w)) m d')"
  by (auto simp: idempotent_post_def split: option.splits)

lemma once_per_event_written:
  "written_once subject body eventId eventType corr d m d' \<Longrightarrow> once_per_event d \<Longrightarrow>
     once_per_event d' \<and> processed_ids d' = insert eventId (processed_ids d)"
  by (auto simp: written_once_def once_per_event_def processed_ids_def outbox_row_for_def
      message_persisted_input_def)

text \<open>
  C5: Whatever commands arrive, in whatever order, however often each is redelivered and whichever
  calls fail, the tables hold one processed row per event, one message per processed row, and one
  outbox event per processed row, with its correlation id.
\<close>

theorem exactly_once_effect:
  assumes "once_per_event (committed (mem w))"
  shows "once_per_event (committed (mem (snd (handle_commands cs w)))) \<and>
    processed_ids (committed (mem (snd (handle_commands cs w)))) \<subseteq>
      processed_ids (committed (mem w)) \<union> set (map (\<lambda>(s, b, i, t, c). i) cs)"
proof -
  let ?I = "\<lambda>v :: messaging_mem world. once_per_event (committed (mem v)) \<and>
    processed_ids (committed (mem v)) \<subseteq>
      processed_ids (committed (mem w)) \<union> set (map (\<lambda>(s, b, i, t, c). i) cs)"
  have keep: "?I v'" if "?I v" "(s, b, i, t, c) \<in> set cs"
    "idempotent_post s b i t c v r (committed (mem v'))" for v v' s b i t c r
    using idempotent_post_cases [OF that(3)]
  proof
    assume "\<exists>m. written_once s b i t c (committed (mem v)) m (committed (mem v'))"
    then obtain m where m: "written_once s b i t c (committed (mem v)) m (committed (mem v'))" by blast
    have "i \<in> set (map (\<lambda>(s, b, i, t, c). i) cs)" using that(2) by force
    then show ?thesis using that(1) once_per_event_written [OF m] by simp
  qed (use that(1) in simp)
  have "wp (handle_commands cs) (\<lambda>_. ?I) (\<lambda>_. ?I) w"
    unfolding handle_commands_def
  proof (rule wp_for_each)
    fix x v assume x: "x \<in> set cs" and I: "?I v"
    obtain s b i t c where x': "x = (s, b, i, t, c)" by (cases x)
    show "wp (case x of (s, b, i, t, c) \<Rightarrow> catching (andThen
        (handleMessageCreationIdempotent s b i t c) (ret ())) (\<lambda>_. ret ())) (\<lambda>_. ?I) (\<lambda>_. ?I) v"
      unfolding x' prod.case wp_catch wp_andThen wp_funs
      by (rule wp_mono [OF wp_handleMessageCreationIdempotent])
        (use keep [OF I x [unfolded x']] in blast)+
  qed (use assms in auto)
  then show ?thesis by (simp add: wp_snd)
qed

theorem exactly_once_effect_witness:
  "once_per_event (committed (mem (snd (handle_commands [(None, None, ''e1'', ''t'', None),
     (None, None, ''e1'', ''t'', None)] (start_world (new_service no_tables))))))"
  using exactly_once_effect [of "start_world (new_service no_tables)"]
  by (simp add: new_service_def no_tables_def once_per_event_def)

text \<open>
  An event can be processed. When the calls succeed and the event is new, the handler returns
  its message; a second delivery of the same event then returns \<open>null\<close>.
\<close>

theorem new_event_is_processed:
  assumes "outcomes w = (\<lambda>_. Done)" "eventId \<notin> processed_ids (committed (mem w))"
    "\<not> event_id_taken (fresh w (uuids w)) (outbox_events (committed (mem w)))"
  shows "\<exists>m w' w''. handleMessageCreationIdempotent subject body eventId eventType corr w = (Inr (Some m), w') \<and>
    handleMessageCreationIdempotent subject body eventId eventType corr w' = (Inr None, w'')"
  using assms
  by (simp add: handleMessageCreationIdempotent_def runIdempotentWithOutboxEvents_def begin_tx_def
      release_tx_def commit_tx_def rollback_tx_def idempotency_insert_def in_tx_def insert_processed_def
      insert_message_def next_id_def save_message_def insertOutboxEvents_def insert_outbox_def io_defs
      Let_def processed_ids_def captureTraceContextCarrier_def)

theorem new_event_is_processed_witness:
  "\<exists>m w' w''. handleMessageCreationIdempotent None None ''e1'' ''t'' None
      (start_world (new_service no_tables)) = (Inr (Some m), w') \<and>
    handleMessageCreationIdempotent None None ''e1'' ''t'' None w' = (Inr None, w'')"
  by (rule new_event_is_processed)
    (simp_all add: new_service_def no_tables_def processed_ids_def event_id_taken_def)

text \<open>What the handler without an event id writes: the message and the event that announces it.\<close>

definition created_once :: "string option \<Rightarrow> string option \<Rightarrow> service_tables \<Rightarrow> message_row \<Rightarrow>
    service_tables \<Rightarrow> bool" where
  "created_once subject corr d m d' \<longleftrightarrow> (\<exists>row. msg_title m = or_else subject ''Untitled'' \<and>
     outbox_row_for (message_persisted_input subject corr) row \<and>
     d' = d\<lparr>messages := messages d @ [m], outbox_events := outbox_events d @ [row]\<rparr>)"

lemma created_once_rows:
  assumes "msg_title m = or_else subject ''Untitled''"
    and "list_all2 outbox_row_for [message_persisted_input subject corr] rows"
    and "c = d\<lparr>messages := messages d @ [m], outbox_events := outbox_events d @ rows\<rparr>"
  shows "created_once subject corr d m c"
  using assms by (auto simp: created_once_def list_all2_Cons1)

lemma wp_creation_body:
  assumes op: "tx_open w (committed (mem w)) w1"
  shows "wp (bind (save_message subject body) (\<lambda>m.
      andThen (insertOutboxEvents [message_persisted_input subject corr]) (andThen commit_tx (ret m))))
    (\<lambda>m w'. db_frame w w' \<and> created_once subject corr (committed (mem w)) m (committed (mem w')))
    (\<lambda>_ w'. db_frame w w' \<and> (committed (mem w') = committed (mem w) \<or>
       (\<exists>m. created_once subject corr (committed (mem w)) m (committed (mem w'))))) w1"
  unfolding wp_bind
proof (rule wp_mono [OF wp_save_message [OF op]])
  fix m w2
  let ?D = "committed (mem w)"
  assume m: "tx_open w (?D\<lparr>messages := messages ?D @ [m]\<rparr>) w2 \<and> msg_title m = or_else subject ''Untitled'' \<and>
    msg_content m = or_else body ''No content''"
  show "wp (andThen (insertOutboxEvents [message_persisted_input subject corr]) (andThen commit_tx (ret m)))
    (\<lambda>m w'. db_frame w w' \<and> created_once subject corr ?D m (committed (mem w')))
    (\<lambda>_ w'. db_frame w w' \<and> (committed (mem w') = ?D \<or> (\<exists>m. created_once subject corr ?D m (committed (mem w'))))) w2"
    by (rule wp_mono [OF wp_events_commit [OF conjunct1 [OF m]]])
      (use m in \<open>auto intro!: created_once_rows\<close>)
qed (auto simp: tx_err_def)

lemma wp_handleMessageCreation:
  "wp (handleMessageCreation subject body corr)
    (\<lambda>m w'. db_frame w w' \<and> created_once subject corr (committed (mem w)) m (committed (mem w')))
    (\<lambda>_ w'. db_frame w w' \<and> (committed (mem w') = committed (mem w) \<or>
       (\<exists>m. created_once subject corr (committed (mem w)) m (committed (mem w'))))) w"
proof -
  let ?D = "committed (mem w)"
  let ?P = "\<lambda>r c. case r of Some m \<Rightarrow> created_once subject corr ?D m c
    | None \<Rightarrow> c = ?D \<or> (\<exists>m. created_once subject corr ?D m c)"
  let ?Q = "\<lambda>x w'. db_frame w w' \<and> ?P (Some x) (committed (mem w'))"
  let ?E = "\<lambda>e w'. db_frame w w' \<and> ?P None (committed (mem w'))"
  have "wp (handleMessageCreation subject body corr) ?Q ?E w"
    unfolding handleMessageCreation_def runWithOutboxEvents_def wp_andThen
  proof (rule wp_mono [OF wp_begin_open])
    fix u w1 assume op: "tx_open w ?D w1"
    have "wp (bind (save_message subject body) (\<lambda>m.
        andThen (insertOutboxEvents [message_persisted_input subject corr]) (andThen commit_tx (ret m)))) ?Q ?E w1"
      using wp_creation_body [OF op] by simp
    then show "wp (finally_do (catching (bind (save_message subject body) (\<lambda>m.
        andThen (insertOutboxEvents [message_persisted_input subject corr]) (andThen commit_tx (ret m))))
        (\<lambda>err. andThen rollback_tx (throw err))) release_tx) ?Q ?E w1"
      by (rule tx_wrapper) auto
  qed (auto simp: tx_err_def)
  then show ?thesis by simp
qed

text \<open>
  The handler without an event id is atomic: a result means that the message and the event
  announcing it were committed together; an error means that both were, or neither.
\<close>

theorem creation_atomic:
  "let (r, w') = handleMessageCreation subject body corr w;
       d = committed (mem w); d' = committed (mem w')
   in case r of Inr m \<Rightarrow> created_once subject corr d m d'
      | Inl _ \<Rightarrow> d' = d \<or> (\<exists>m. created_once subject corr d m d')"
  using wp_handleMessageCreation [of subject body corr w]
  by (auto simp: wp_def Let_def split: prod.splits sum.splits)

section \<open>The gateway's write\<close>

lemma wp_insertOutboxEvent:
  assumes op: "tx_open w0 d w"
  shows "wp (insertOutboxEvent ev)
    (\<lambda>row w'. tx_open w0 (d @ [row]) w' \<and> outbox_row_for ev row \<and>
       (\<forall>e. in_eventId ev = Some e \<longrightarrow> event_id row = Some e))
    (tx_err w0 {unique_violation}) w"
proof -
  have stmt: "wp (in_tx (\<lambda>t m d. let (i, m') = next_id ''gateway_outbox_events'' m;
      row = outbox_row_of ev e now c i t
      in if event_id_taken e d then (Inl unique_violation, d, m') else (Inr row, d @ [row], m')))
    (\<lambda>row w'. tx_open w0 (d @ [row]) w' \<and> outbox_row_for ev row \<and>
       (\<forall>e. in_eventId ev = Some e \<longrightarrow> event_id row = Some e))
    (tx_err w0 {unique_violation}) v"
    if "tx_open w0 d v" "\<forall>e'. in_eventId ev = Some e' \<longrightarrow> e' = e" for e now c v
    by (rule wp_mono [OF wp_statement [OF that(1), where errs = "{unique_violation}" and
        R = "\<lambda>row d'. d' = d @ [row] \<and> outbox_row_for ev row \<and> event_id row = Some e"]])
      (use that(2) in \<open>auto simp: next_id_def Let_def split: if_splits\<close>)
  show ?thesis
    unfolding insertOutboxEvent_def wp_bind wp_now_ms
    by (rule wp_mono [OF wp_capture_carrier])
      (use op stmt tx_open_uuids [OF op] in \<open>auto simp: wp_eqs split: option.split\<close>)
qed

definition gateway_recorded :: "OutboxEventInput \<Rightarrow> outbox_table \<Rightarrow> outbox_row \<Rightarrow> outbox_table \<Rightarrow> bool" where
  "gateway_recorded ev t row t' \<longleftrightarrow> t' = t @ [row] \<and> outbox_row_for ev row \<and>
     (\<forall>e. in_eventId ev = Some e \<longrightarrow> event_id row = Some e)"

lemma wp_gateway_record:
  "wp (gateway_record ev)
    (\<lambda>row w'. db_frame w w' \<and> gateway_recorded ev (committed (mem w)) row (committed (mem w')))
    (\<lambda>_ w'. db_frame w w' \<and> (committed (mem w') = committed (mem w) \<or>
       (\<exists>row. gateway_recorded ev (committed (mem w)) row (committed (mem w'))))) w"
proof -
  let ?T = "committed (mem w)"
  let ?P = "\<lambda>r c. case r of Some row \<Rightarrow> gateway_recorded ev ?T row c
     | None \<Rightarrow> c = ?T \<or> (\<exists>row. gateway_recorded ev ?T row c)"
  let ?Q = "\<lambda>x w'. db_frame w w' \<and> ?P (Some x) (committed (mem w'))"
  let ?E = "\<lambda>e w'. db_frame w w' \<and> ?P None (committed (mem w'))"
  have body: "wp (andThen (ret ()) (bind (insertOutboxEvent ev) (\<lambda>row. andThen commit_tx (ret row)))) ?Q ?E w1"
    if op: "tx_open w ?T w1" for w1
    unfolding wp_bind wp_andThen wp_ret
  proof (rule wp_mono [OF wp_insertOutboxEvent [OF op]])
    fix row w2 assume row: "tx_open w (?T @ [row]) w2 \<and> outbox_row_for ev row \<and>
      (\<forall>e. in_eventId ev = Some e \<longrightarrow> event_id row = Some e)"
    then have o: "open_tx (mem w2) = Some (?T @ [row])" and fr: "db_frame w w2"
      and c: "committed (mem w2) = ?T" by (simp_all add: tx_open_def)
    show "wp commit_tx (\<lambda>_. ?Q row) ?E w2"
      by (rule wp_mono [OF wp_commit_tx [OF o]])
        (use row c db_frame_trans [OF fr] in \<open>auto simp: wp_eqs tx_at_def gateway_recorded_def\<close>)
  qed (auto simp: tx_err_def)
  have "wp (gateway_record ev) ?Q ?E w"
    unfolding gateway_record_def runWithOutboxEvent_def wp_andThen [of begin_tx]
  proof (rule wp_mono [OF wp_begin_open])
    fix u w1 assume "tx_open w ?T w1"
    then show "wp (finally_do (catching (andThen (ret ()) (bind (insertOutboxEvent ev) (\<lambda>row.
        andThen commit_tx (ret row)))) (\<lambda>err. andThen rollback_tx (throw err))) release_tx) ?Q ?E w1"
      by (intro tx_wrapper [OF body]) auto
  qed (auto simp: tx_err_def)
  then show ?thesis by simp
qed

text \<open>
  The gateway records an event durably before it answers. A row is returned only when exactly
  that row, pending, unattempted, with the caller's event id and the JSON of the payload, was
  appended to the committed outbox; an error leaves the outbox as it was or with such a row.
\<close>

theorem gateway_record_durable:
  "let (r, w') = gateway_record ev w;
       t = committed (mem w); t' = committed (mem w');
       recorded = (\<lambda>row. t' = t @ [row] \<and> status row = Pending \<and> attempts row = 0 \<and>
         event_type row = in_eventType ev \<and> payload row = json_of (in_payload ev) \<and>
         (case in_eventId ev of Some e \<Rightarrow> event_id row = Some e | None \<Rightarrow> True))
   in case r of Inr row \<Rightarrow> recorded row | Inl _ \<Rightarrow> t' = t \<or> (\<exists>row. recorded row)"
  using wp_gateway_record [of ev w]
  by (auto simp: wp_def Let_def gateway_recorded_def outbox_row_for_def split: prod.splits sum.splits
      option.splits)

end
