(* ===== verification/Idempotency.thy ===== *)
theory Idempotency
  imports Outbox_Tx
begin

text \<open>
  The idempotency ledger, \<open>apps/messaging/src/idempotency/idempotency.service.ts\<close>, and the durable
  attempt counter, \<open>apps/messaging/src/reliability/retry-attempt-tracker.service.ts\<close>. Both run
  single statements outside any transaction.
\<close>

section \<open>Statements of their own\<close>

definition autocommit :: "(int \<Rightarrow> ('db, 'a) service_mem_scheme \<Rightarrow> 'db \<Rightarrow>
    (jsval + 'b) \<times> 'db \<times> ('db, 'a) service_mem_scheme) \<Rightarrow> (('db, 'a) service_mem_scheme, 'b) io" where
  "autocommit f = request (\<lambda>now m. case f now m (committed m) of
       (r, d, m') \<Rightarrow> (r, m'\<lparr>committed := d\<rparr>))"

definition query :: "('db \<Rightarrow> 'b) \<Rightarrow> (('db, 'a) service_mem_scheme, 'b) io" where
  "query f = request (\<lambda>_ m. (Inr (f (committed m)), m))"

section \<open>The idempotency ledger\<close>

record MarkProcessedOptions =
  mp_eventId :: string
  mp_eventType :: string
  mp_correlationId :: "string option"
  mp_result :: jsval

datatype IdempotencyResult =
    DuplicateRecord int jsval
  | RecordedEvent int

definition find_processed :: "string \<Rightarrow> service_tables \<Rightarrow> processed_row option" where
  "find_processed eventId d = find (\<lambda>p. pe_eventId p = eventId) (processed_events d)"

definition findByEventId :: "string \<Rightarrow> (messaging_mem, processed_row option) io" where
  "findByEventId eventId = query (find_processed eventId)"

definition checkAndMark :: "MarkProcessedOptions \<Rightarrow> (messaging_mem, IdempotencyResult) io" where
  "checkAndMark options = catching
     (bind (autocommit (\<lambda>now m d. insert_processed (mp_eventId options) (mp_eventType options)
              (mp_correlationId options) (mp_result options) now m d))
        (\<lambda>saved. ret (RecordedEvent (pe_processedAt saved))))
     (\<lambda>err. if extractPgCode err = Some ''23505''
        then bind (findByEventId (mp_eventId options)) (\<lambda>existing.
          case existing of
            Some row \<Rightarrow> ret (DuplicateRecord (pe_processedAt row) (pe_result row))
          | None \<Rightarrow> bind now_ms (\<lambda>now. ret (DuplicateRecord now JUndef)))
        else throw err)"

section \<open>The attempt counter\<close>

text \<open>\<open>INSERT ... ON CONFLICT (event_id) DO UPDATE SET attempts = attempts + 1 RETURNING attempts\<close>.\<close>

fun upsert_attempt :: "int \<Rightarrow> string \<Rightarrow> attempt_row list \<Rightarrow> int \<times> attempt_row list" where
  "upsert_attempt now e [] = (1, [\<lparr>ea_eventId = e, ea_attempts = 1, ea_updatedAt = now\<rparr>])"
| "upsert_attempt now e (r # rs) =
     (if ea_eventId r = e
      then (ea_attempts r + 1, r\<lparr>ea_attempts := ea_attempts r + 1, ea_updatedAt := now\<rparr> # rs)
      else (case upsert_attempt now e rs of (n, rs') \<Rightarrow> (n, r # rs')))"

definition recordAttempt :: "string \<Rightarrow> (messaging_mem, int) io" where
  "recordAttempt eventId = autocommit (\<lambda>now m d.
     case upsert_attempt now eventId (event_attempts d) of
       (n, rows) \<Rightarrow> (Inr n, d\<lparr>event_attempts := rows\<rparr>, m))"

definition find_attempts :: "string \<Rightarrow> service_tables \<Rightarrow> int" where
  "find_attempts eventId d =
     (case find (\<lambda>r. ea_eventId r = eventId) (event_attempts d) of None \<Rightarrow> 0 | Some r \<Rightarrow> ea_attempts r)"

definition getAttemptCount :: "string \<Rightarrow> (messaging_mem, int) io" where
  "getAttemptCount eventId = query (find_attempts eventId)"

definition clearAttempts :: "string \<Rightarrow> (messaging_mem, unit) io" where
  "clearAttempts eventId = autocommit (\<lambda>_ m d. (Inr (),
     d\<lparr>event_attempts := filter (\<lambda>r. ea_eventId r \<noteq> eventId) (event_attempts d)\<rparr>, m))"

section \<open>Facts\<close>

lemma upsert_attempt_spec:
  "(case upsert_attempt now e rs of (n, rs') \<Rightarrow>
     n = (case find (\<lambda>r. ea_eventId r = e) rs of None \<Rightarrow> 0 | Some r \<Rightarrow> ea_attempts r) + 1 \<and>
     find (\<lambda>r. ea_eventId r = e) rs' = Some \<lparr>ea_eventId = e, ea_attempts = n, ea_updatedAt = now\<rparr> \<and>
     (\<forall>e'. e' \<noteq> e \<longrightarrow> find (\<lambda>r. ea_eventId r = e') rs' = find (\<lambda>r. ea_eventId r = e') rs))"
  by (induction rs) (auto split: prod.splits)

lemma find_attempts_upsert [simp]:
  "fst (upsert_attempt now e (event_attempts d)) = find_attempts e d + 1"
  "find_attempts e' (d\<lparr>event_attempts := snd (upsert_attempt now e (event_attempts d))\<rparr>) =
     (if e' = e then find_attempts e d + 1 else find_attempts e' d)"
  using upsert_attempt_spec [where now = now and e = e and rs = "event_attempts d"]
  by (auto simp: find_attempts_def split: prod.splits)

lemma find_attempts_filter [simp]:
  "find_attempts e' (d\<lparr>event_attempts := filter (\<lambda>r. ea_eventId r \<noteq> e) (event_attempts d)\<rparr>) =
     (if e' = e then 0 else find_attempts e' d)"
proof -
  have "find (\<lambda>r. ea_eventId r = e') (filter (\<lambda>r. ea_eventId r \<noteq> e) rs) =
      (if e' = e then None else find (\<lambda>r. ea_eventId r = e') rs)" for rs :: "attempt_row list"
    by (induction rs) auto
  then show ?thesis by (simp add: find_attempts_def)
qed

lemma find_attempts_other [simp]:
  "find_attempts e (d\<lparr>messages := a\<rparr>) = find_attempts e d"
  "find_attempts e (d\<lparr>processed_events := b\<rparr>) = find_attempts e d"
  "find_attempts e (d\<lparr>outbox_events := c\<rparr>) = find_attempts e d"
  by (simp_all add: find_attempts_def)

lemma insert_processed_cases:
  obtains "insert_processed e ty c res now m d = (Inl unique_violation, d, snd (next_id ''processed_events'' m))"
      "e \<in> processed_ids d"
  | p where "insert_processed e ty c res now m d =
        (Inr p, d\<lparr>processed_events := processed_events d @ [p]\<rparr>, snd (next_id ''processed_events'' m))"
      "e \<notin> processed_ids d" "pe_eventId p = e" "pe_result p = jsonb_of res"
  by (cases "e \<in> processed_ids d")
    (auto simp: insert_processed_def next_id_def Let_def processed_ids_def)

text \<open>What a statement on the attempt table leaves alone.\<close>

definition same_business :: "service_tables \<Rightarrow> service_tables \<Rightarrow> bool" where
  "same_business d d' \<longleftrightarrow> messages d' = messages d \<and> processed_events d' = processed_events d \<and>
     outbox_events d' = outbox_events d"

lemma same_business_refl [simp]: "same_business d d"
  by (simp add: same_business_def)

lemma wp_recordAttempt:
  "wp (recordAttempt e)
    (\<lambda>n w'. db_frame w w' \<and> same_business (committed (mem w)) (committed (mem w')) \<and>
       n = find_attempts e (committed (mem w)) + 1 \<and>
       (\<lambda>e'. find_attempts e' (committed (mem w'))) = (\<lambda>e'. find_attempts e' (committed (mem w))) (e := n))
    (\<lambda>x w'. db_frame w w' \<and> same_business (committed (mem w)) (committed (mem w')) \<and>
       x \<in> outside_errors w \<and>
       (\<lambda>e'. find_attempts e' (committed (mem w'))) \<in>
         {\<lambda>e'. find_attempts e' (committed (mem w)),
          (\<lambda>e'. find_attempts e' (committed (mem w))) (e := find_attempts e (committed (mem w)) + 1)}) w"
  by (auto simp: recordAttempt_def autocommit_def wp_eqs case_prod_beta same_business_def fun_eq_iff
      db_frame_def outside_errorsI Let_def split: outcome.split)

lemma wp_clearAttempts:
  "wp (clearAttempts e)
    (\<lambda>_ w'. db_frame w w' \<and> same_business (committed (mem w)) (committed (mem w')) \<and>
       (\<lambda>e'. find_attempts e' (committed (mem w'))) = (\<lambda>e'. find_attempts e' (committed (mem w))) (e := 0))
    (\<lambda>x w'. db_frame w w' \<and> same_business (committed (mem w)) (committed (mem w')) \<and>
       x \<in> outside_errors w \<and>
       (\<lambda>e'. find_attempts e' (committed (mem w'))) \<in>
         {\<lambda>e'. find_attempts e' (committed (mem w)),
          (\<lambda>e'. find_attempts e' (committed (mem w))) (e := 0)}) w"
  by (auto simp: clearAttempts_def autocommit_def wp_eqs same_business_def fun_eq_iff
      db_frame_def outside_errorsI Let_def split: outcome.split)

section \<open>Properties\<close>

text \<open>
  C16: The attempt counter refines a map from events to numbers: the first recorded attempt of an
  event is 1, each further one is one more, whatever headers the delivery carries; reading does not
  count; clearing resets the one event; and an error leaves the map as it was or with the operation
  done, never with another event's count changed.
\<close>

theorem attempt_counter_refines:
  "let count = (\<lambda>w e. find_attempts e (committed (mem w)));
       (r, w') = recordAttempt eventId w; (r2, w2) = clearAttempts eventId w;
       (r3, w3) = getAttemptCount eventId w;
       counted = (count w)(eventId := count w eventId + 1); cleared = (count w)(eventId := 0)
   in (case r of Inr n \<Rightarrow> n = count w eventId + 1 \<and> count w' = counted
               | Inl _ \<Rightarrow> count w' \<in> {count w, counted}) \<and>
      (case r2 of Inr _ \<Rightarrow> count w2 = cleared | Inl _ \<Rightarrow> count w2 \<in> {count w, cleared}) \<and>
      (case r3 of Inr n \<Rightarrow> n = count w eventId | Inl _ \<Rightarrow> True) \<and> count w3 = count w"
proof -
  obtain r w' where r: "recordAttempt eventId w = (r, w')" by fastforce
  obtain r2 w2 where r2: "clearAttempts eventId w = (r2, w2)" by fastforce
  obtain r3 w3 where r3: "getAttemptCount eventId w = (r3, w3)" by fastforce
  have "(\<forall>n. r3 = Inr n \<longrightarrow> n = find_attempts eventId (committed (mem w))) \<and>
      committed (mem w3) = committed (mem w)"
    using r3 by (auto simp: getAttemptCount_def query_def request_def Let_def split: outcome.splits)
  then show ?thesis
    using wp_recordAttempt [of eventId w] wp_clearAttempts [of eventId w]
    by (auto simp: r r2 r3 wp_def Let_def split: sum.splits)
qed

text \<open>
  \<open>checkAndMark\<close> records an event at most once and says so truthfully. \<open>RecordedEvent\<close>: the
  event was new and exactly its row was added. \<open>DuplicateRecord\<close>: the table is as before, and the
  answer carries time and result of the first record (unless the outside produced an error that
  reads as a unique violation). An error leaves the table as it was or with the one new row.
\<close>

theorem check_and_mark_spec:
  "let (r, w') = checkAndMark options w; d = committed (mem w); d' = committed (mem w');
       e = mp_eventId options;
       added = (\<lambda>p. e \<notin> processed_ids d \<and> pe_eventId p = e \<and> pe_result p = jsonb_of (mp_result options) \<and>
         d' = d\<lparr>processed_events := processed_events d @ [p]\<rparr>)
   in case r of
        Inr (RecordedEvent t) \<Rightarrow> \<exists>p. added p \<and> pe_processedAt p = t
      | Inr (DuplicateRecord t res) \<Rightarrow>
          (d' = d \<and> (\<exists>p. find_processed e d = Some p \<and> pe_processedAt p = t \<and> pe_result p = res)) \<or>
          (\<exists>x \<in> outside_errors w. extractPgCode x = Some ''23505'')
      | Inl _ \<Rightarrow> d' = d \<or> (\<exists>p. added p)"
proof -
  let ?e = "mp_eventId options" and ?d = "committed (mem w)"
  let ?added = "\<lambda>p d'. ?e \<notin> processed_ids ?d \<and> pe_eventId p = ?e \<and>
    pe_result p = jsonb_of (mp_result options) \<and>
    d' = ?d\<lparr>processed_events := processed_events ?d @ [p]\<rparr>"
  let ?noise = "\<exists>x \<in> outside_errors w. extractPgCode x = Some ''23505''"
  let ?ins = "autocommit (\<lambda>now m d. insert_processed ?e (mp_eventType options)
      (mp_correlationId options) (mp_result options) now m d)"
  have ins: "wp ?ins (\<lambda>p w'. ?added p (committed (mem w')))
      (\<lambda>x w'. (x = unique_violation \<and> ?e \<in> processed_ids ?d \<and> committed (mem w') = ?d) \<or>
         (x \<in> outside_errors w \<and> (committed (mem w') = ?d \<or> (\<exists>p. ?added p (committed (mem w')))))) w"
  proof (cases rule: insert_processed_cases [of ?e "mp_eventType options" "mp_correlationId options"
        "mp_result options" "clock w (calls w)" "mem w" ?d])
    case 1
    then show ?thesis
      by (simp add: autocommit_def wp_eqs Let_def outside_errorsI next_id_def split: outcome.split)
  next
    case (2 p)
    then have "?added p (?d\<lparr>processed_events := processed_events ?d @ [p]\<rparr>)" by simp
    then have "\<exists>p'. ?added p' (?d\<lparr>processed_events := processed_events ?d @ [p]\<rparr>)" by blast
    with 2 show ?thesis
      by (simp add: autocommit_def wp_eqs Let_def outside_errorsI next_id_def split: outcome.split)
  qed
  have found: "find_processed ?e ?d \<noteq> None" if "?e \<in> processed_ids ?d"
    using that by (auto simp: find_processed_def processed_ids_def find_None_iff)
  have find: "wp (findByEventId ?e) (\<lambda>x w'. w' = v\<lparr>calls := Suc (calls v)\<rparr> \<and>
      x = find_processed ?e (committed (mem v))) (\<lambda>_ w'. committed (mem w') = committed (mem v)) v" for v
    by (simp add: findByEventId_def query_def wp_eqs split: outcome.split)
  have "wp (checkAndMark options)
    (\<lambda>r w'. case r of
        RecordedEvent t \<Rightarrow> \<exists>p. ?added p (committed (mem w')) \<and> pe_processedAt p = t
      | DuplicateRecord t res \<Rightarrow> (committed (mem w') = ?d \<and>
          (\<exists>p. find_processed ?e ?d = Some p \<and> pe_processedAt p = t \<and> pe_result p = res)) \<or> ?noise)
    (\<lambda>_ w'. committed (mem w') = ?d \<or> (\<exists>p. ?added p (committed (mem w')))) w"
    unfolding checkAndMark_def wp_catch wp_bind
  proof (rule wp_mono [OF ins])
    fix x and v :: "messaging_mem world"
    assume x: "(x = unique_violation \<and> ?e \<in> processed_ids ?d \<and> committed (mem v) = ?d) \<or>
         (x \<in> outside_errors w \<and> (committed (mem v) = ?d \<or> (\<exists>p. ?added p (committed (mem v)))))"
    let ?Q = "\<lambda>r (w' :: messaging_mem world). case r of
        RecordedEvent t \<Rightarrow> \<exists>p. ?added p (committed (mem w')) \<and> pe_processedAt p = t
      | DuplicateRecord t res \<Rightarrow> (committed (mem w') = ?d \<and>
          (\<exists>p. find_processed ?e ?d = Some p \<and> pe_processedAt p = t \<and> pe_result p = res)) \<or> ?noise"
    let ?E = "\<lambda>_ (w' :: messaging_mem world). committed (mem w') = ?d \<or> (\<exists>p. ?added p (committed (mem w')))"
    have E: "?E x v" using x by blast
    have dup: "wp (bind (findByEventId ?e) (\<lambda>existing. case existing of
          Some row \<Rightarrow> ret (DuplicateRecord (pe_processedAt row) (pe_result row))
        | None \<Rightarrow> bind now_ms (\<lambda>now. ret (DuplicateRecord now JUndef)))) ?Q ?E v"
      if "extractPgCode x = Some ''23505''"
      unfolding wp_bind
    proof (rule wp_mono [OF find])
      fix y v' assume y: "v' = v\<lparr>calls := Suc (calls v)\<rparr> \<and> y = find_processed ?e (committed (mem v))"
      have "?noise \<or> (committed (mem v) = ?d \<and> ?e \<in> processed_ids ?d)" using x that by blast
      then show "wp (case y of
          Some row \<Rightarrow> ret (DuplicateRecord (pe_processedAt row) (pe_result row))
        | None \<Rightarrow> bind now_ms (\<lambda>now. ret (DuplicateRecord now JUndef))) ?Q ?E v'"
        using y found by (auto simp: wp_eqs split: option.split)
    qed (use E in simp)
    show "wp (if extractPgCode x = Some ''23505'' then bind (findByEventId ?e) (\<lambda>existing.
          case existing of
            Some row \<Rightarrow> ret (DuplicateRecord (pe_processedAt row) (pe_result row))
          | None \<Rightarrow> bind now_ms (\<lambda>now. ret (DuplicateRecord now JUndef)))
        else throw x) ?Q ?E v"
      using dup E by (simp add: wp_throw)
  qed (auto simp: wp_ret)
  then show ?thesis
    by (auto simp: wp_def Let_def split: prod.splits sum.splits IdempotencyResult.splits)
qed

end
