(* ===== verification/Retry_Publisher.thy ===== *)
theory Retry_Publisher
  imports Amqp_Client Tracing Topology
begin

text \<open>
  Scheduling a retry: \<open>apps/messaging/src/reliability/retry-publisher.service.ts\<close>. Its private
  \<open>getChannel\<close> and \<open>connect\<close> are the lazy client of \<open>Amqp_Client\<close>.
\<close>

text \<open>
  \<open>String(ttl)\<close>: the delay is an integer unless the retry count of the headers is negative; then it
  is a dyadic fraction, written out to twelve decimals.
\<close>

fun decimals :: "nat \<Rightarrow> rat \<Rightarrow> string" where
  "decimals 0 r = []"
| "decimals (Suc n) r = (if r = 0 then []
     else digit_char (nat \<lfloor>10 * r\<rfloor>) # decimals n (10 * r - of_int \<lfloor>10 * r\<rfloor>))"

definition show_ms :: "rat \<Rightarrow> string" where
  "show_ms r = (if of_int \<lfloor>r\<rfloor> = r then show_int \<lfloor>r\<rfloor>
     else show_int \<lfloor>r\<rfloor> @ ''.'' @ decimals 12 (r - of_int \<lfloor>r\<rfloor>))"

definition retry_message :: "string \<Rightarrow> (string \<times> jsval) list \<Rightarrow> int \<Rightarrow> amqp_message" where
  "retry_message content headersWithTrace attemptNumber =
     \<lparr>m_exchange = ex_MAIN EXCHANGES, m_routingKey = rk_RETRY ROUTING_KEYS, m_body = JBuf content,
      m_persistent = True, m_contentType = ''application/json'',
      m_expiration = Some (show_ms (retryDelayMs attemptNumber)), m_headers = headersWithTrace\<rparr>"

definition retry_back_pressure :: "int \<Rightarrow> string option \<Rightarrow> jsval" where
  "retry_back_pressure attemptNumber correlationId = new_Error
     (''Retry publish back-pressured (local buffer full) for attempt='' @ show_int attemptNumber @
      '', correlationId='' @ or_else correlationId ''unknown'')"

definition publishToRetry :: "string \<Rightarrow> (string \<times> jsval) list \<Rightarrow> int \<Rightarrow> string option \<Rightarrow>
    ('a amqp_client_scheme, unit) io" where
  "publishToRetry content headers attemptNumber correlationId = bind getChannel (\<lambda>ch.
     bind (injectTraceContext None headers) (\<lambda>headersWithTrace.
     bind (ch_publish ch (retry_message content headersWithTrace attemptNumber)) (\<lambda>published.
       if \<not> published then throw (retry_back_pressure attemptNumber correlationId)
       else ch_waitForConfirms ch)))"

definition retry_onModuleDestroy :: "('a amqp_client_scheme, unit) io" where
  "retry_onModuleDestroy = closeAmqp"

section \<open>Facts\<close>

text \<open>A run that leaves alone all that is above the client, and the outside.\<close>

definition client_frame :: "'a amqp_client_scheme world \<Rightarrow> 'a amqp_client_scheme world \<Rightarrow> bool" where
  "client_frame w w' \<longleftrightarrow> amqp_client.more (mem w') = amqp_client.more (mem w) \<and>
     outcomes w' = outcomes w \<and> clock w' = clock w \<and> otel_inject w' = otel_inject w"

lemma getChannel_client_frame:
  "wp getChannel
     (\<lambda>ch w'. client_frame w w' \<and> published (mem w') = published (mem w) \<and> confirmed (mem w') = confirmed (mem w))
     (\<lambda>e w'. client_frame w w' \<and> published (mem w') = published (mem w) \<and> confirmed (mem w') = confirmed (mem w)) w"
  by (rule wp_mono [OF getChannel_frame]) (auto simp: client_frame_def same_log_def)

text \<open>The copy that is written, and what a return and a throw of \<open>publishToRetry\<close> say of it.\<close>

definition retry_copy :: "string \<Rightarrow> (string \<times> jsval) list \<Rightarrow> int \<Rightarrow> 'd world \<Rightarrow> amqp_message" where
  "retry_copy content headers n w = retry_message content
     (spread headers (map (\<lambda>(k, v). (k, JStr v)) (otel_inject w None))) n"

definition confirmed_since :: "'a amqp_client_scheme world \<Rightarrow> 'a amqp_client_scheme world \<Rightarrow>
    nat \<times> amqp_message \<Rightarrow> bool" where
  "confirmed_since w w' p \<longleftrightarrow> (\<exists>new. confirmed (mem w') = confirmed (mem w) @ new \<and> p \<in> set new)"

lemma publishToRetry_effect:
  "wp (publishToRetry content headers n c)
    (\<lambda>_ w'. client_frame w w' \<and> (\<exists>ch.
       published (mem w') = published (mem w) @ [(ch, retry_copy content headers n w)] \<and>
       confirmed_since w w' (ch, retry_copy content headers n w)))
    (\<lambda>_ w'. client_frame w w' \<and> (published (mem w') = published (mem w) \<or>
       (\<exists>ch. published (mem w') = published (mem w) @ [(ch, retry_copy content headers n w)]))) w"
  unfolding publishToRetry_def wp_bind [of getChannel]
proof (rule wp_mono [OF getChannel_client_frame])
  fix ch w1 assume "client_frame w w1 \<and> published (mem w1) = published (mem w) \<and> confirmed (mem w1) = confirmed (mem w)"
  then show "wp (bind (injectTraceContext None headers) (\<lambda>hs.
      bind (ch_publish ch (retry_message content hs n)) (\<lambda>published.
        if \<not> published then throw (retry_back_pressure n c) else ch_waitForConfirms ch)))
    (\<lambda>_ w'. client_frame w w' \<and> (\<exists>ch.
       published (mem w') = published (mem w) @ [(ch, retry_copy content headers n w)] \<and>
       confirmed_since w w' (ch, retry_copy content headers n w)))
    (\<lambda>_ w'. client_frame w w' \<and> (published (mem w') = published (mem w) \<or>
       (\<exists>ch. published (mem w') = published (mem w) @ [(ch, retry_copy content headers n w)]))) w1"
    by (cases ch) (auto simp: wp_bind wp_injectTraceContext ch_publish_def wp_throw wp_ret wp_andThen
        wp_external wp_modify wp_if ch_waitForConfirms_def wp_request client_frame_def retry_copy_def
        confirmed_since_def Let_def split: outcome.split)
qed auto

section \<open>Properties\<close>

text \<open>
  A retry is scheduled durably or refused. When \<open>publishToRetry\<close> returns, exactly one message was
  published, to the retry queue's routing key, persistent, with the original content, the given headers
  under the injected trace context and the back-off delay of the attempt as its expiration, and
  the broker has confirmed it; in any case nothing above the client changes.
\<close>

theorem retry_is_confirmed:
  "let (r, w') = publishToRetry content headers n c w; msg = retry_copy content headers n w
   in amqp_client.more (mem w') = amqp_client.more (mem w) \<and>
      m_exchange msg = ex_MAIN EXCHANGES \<and> m_routingKey msg = rk_RETRY ROUTING_KEYS \<and>
      m_persistent msg \<and> m_body msg = JBuf content \<and>
      m_expiration msg = Some (show_ms (retryDelayMs n)) \<and>
      (case r of
         Inr _ \<Rightarrow> \<exists>ch. published (mem w') = published (mem w) @ [(ch, msg)] \<and>
                   confirmed_since w w' (ch, msg)
       | Inl _ \<Rightarrow> published (mem w') = published (mem w) \<or>
                   (\<exists>ch. published (mem w') = published (mem w) @ [(ch, msg)]))"
proof -
  have msg: "m_exchange (retry_copy content headers n w) = ex_MAIN EXCHANGES"
    "m_routingKey (retry_copy content headers n w) = rk_RETRY ROUTING_KEYS"
    "m_persistent (retry_copy content headers n w)" "m_body (retry_copy content headers n w) = JBuf content"
    "m_expiration (retry_copy content headers n w) = Some (show_ms (retryDelayMs n))"
    by (simp_all add: retry_copy_def retry_message_def)
  show ?thesis
    using publishToRetry_effect [of content headers n c w]
    by (auto simp: wp_def Let_def msg client_frame_def split: prod.splits sum.splits)
qed

text \<open>
  Back-pressure is reported as a failure although the copy was written: with a channel open and
  the write buffer full, \<open>publishToRetry\<close> throws, and the retry copy is among the published messages
  all the same, so a caller that then requeues the original has two copies in the broker.
\<close>

theorem back_pressure_still_publishes:
  assumes "amqpChannel (mem w) = Some ch" and "outcomes w (calls w) = Refused"
  shows "\<exists>w'. publishToRetry content headers n c w = (Inl (retry_back_pressure n c), w') \<and>
    published (mem w') = published (mem w) @ [(ch, retry_copy content headers n w)]"
  using assms
  by (simp add: publishToRetry_def getChannel_def ch_publish_def injectTraceContext_def io_defs
      retry_copy_def)

theorem back_pressure_still_publishes_witness:
  "\<exists>w'. publishToRetry ''m'' [] 1 None ((start_world (amqp_client_init\<lparr>amqpChannel := Some 0\<rparr>))
      \<lparr>outcomes := \<lambda>_. Refused\<rparr>) = (Inl (retry_back_pressure 1 None), w') \<and>
    length (published (mem w')) = 1"
  using back_pressure_still_publishes [of "(start_world (amqp_client_init\<lparr>amqpChannel := Some 0\<rparr>))
      \<lparr>outcomes := \<lambda>_. Refused\<rparr>" 0 "''m''" "[]" 1 None]
  by (auto simp: amqp_client_init_def)

end
