(* ===== verification/Contracts.thy ===== *)
theory Contracts
  imports Prelude
begin

text \<open>
  The event contracts, \<open>libs/contracts/src/events\<close>: the envelope and payload schemas, the
  registry, validation, the resolution of the schema version, the builders and the upcaster.

  Zod is a third-party library. A schema is kept as the expression the source builds
  (\<open>schema\<close>), and what \<open>safeParse\<close> does with it is a parameter, the component \<open>zparse\<close> of \<open>zod\<close>; the
  hypothesis \<open>zod_documented\<close> says that it accepts and returns what Zod's documentation says
  (\<open>documented\<close>), leaving the issues it reports open, as well as the two formats \<open>uuid\<close> and \<open>datetime\<close>.
\<close>

section \<open>Schema expressions and Zod\<close>

datatype schema =
    ZString nat "nat option"
  | ZUuid
  | ZIsoDatetime
  | ZEnum "string list"
  | ZLiteral string
  | ZArray nat schema
  | ZOptional schema
  | ZDefault schema jsval
  | ZRecord schema schema nat
  | ZObject "(string \<times> schema) list"

text \<open>An issue has a path and a message.\<close>

record issue =
  issue_path :: "string list"
  issue_message :: string

record zod =
  zparse :: "schema \<Rightarrow> jsval \<Rightarrow> issue list + jsval"
  is_uuid :: "string \<Rightarrow> bool"
  is_datetime :: "string \<Rightarrow> bool"
  toISOString :: "int \<Rightarrow> string"

text \<open>The results of a list of parses, if all of them succeed.\<close>

fun all_some :: "'a option list \<Rightarrow> 'a list option" where
  "all_some [] = Some []"
| "all_some (None # _) = None"
| "all_some (Some x # xs) = (case all_some xs of None \<Rightarrow> None | Some ys \<Rightarrow> Some (x # ys))"

text \<open>
  The documented result of parsing: strings with length bounds, formats, enumerations, arrays with a
  minimal length, optional and defaulted values, records with checked keys and values and at most
  so many entries, and objects, whose unknown members are stripped.
\<close>

fun documented :: "(string \<Rightarrow> bool) \<Rightarrow> (string \<Rightarrow> bool) \<Rightarrow> schema \<Rightarrow> jsval \<Rightarrow> jsval option" where
  "documented u d (ZString mn mx) v = (case v of
       JStr s \<Rightarrow> if mn \<le> length s \<and> (case mx of None \<Rightarrow> True | Some n \<Rightarrow> length s \<le> n)
                 then Some v else None
     | _ \<Rightarrow> None)"
| "documented u d ZUuid v = (case v of JStr s \<Rightarrow> if u s then Some v else None | _ \<Rightarrow> None)"
| "documented u d ZIsoDatetime v = (case v of JStr s \<Rightarrow> if d s then Some v else None | _ \<Rightarrow> None)"
| "documented u d (ZEnum ss) v = (case v of JStr s \<Rightarrow> if s \<in> set ss then Some v else None | _ \<Rightarrow> None)"
| "documented u d (ZLiteral x) v = (if v = JStr x then Some v else None)"
| "documented u d (ZArray mn s) v = (case v of
       JArr vs \<Rightarrow> if mn \<le> length vs then map_option JArr (all_some (map (documented u d s) vs)) else None
     | _ \<Rightarrow> None)"
| "documented u d (ZOptional s) v = (if v = JUndef then Some JUndef else documented u d s v)"
| "documented u d (ZDefault s dflt) v = (if v = JUndef then Some dflt else documented u d s v)"
| "documented u d (ZRecord ks vs mx) v = (case v of
       JObj kvs \<Rightarrow>
         if length kvs \<le> mx \<and> (\<forall>k\<in>set (map fst kvs). documented u d ks (JStr k) \<noteq> None)
         then map_option (\<lambda>ws. JObj (zip (map fst kvs) ws))
                (all_some (map (documented u d vs) (map snd kvs)))
         else None
     | _ \<Rightarrow> None)"
| "documented u d (ZObject fs) v = (case v of
       JObj kvs \<Rightarrow>
         map_option (\<lambda>ws. JObj (filter (\<lambda>(k, w). w \<noteq> JUndef \<or> k \<in> fst ` set kvs) (zip (map fst fs) ws)))
           (all_some (map (\<lambda>(k, s). documented u d s (get_prop k v)) fs))
     | _ \<Rightarrow> None)"

definition zod_documented :: "zod \<Rightarrow> bool" where
  "zod_documented Z \<longleftrightarrow>
     (\<forall>s v. case zparse Z s v of
        Inr v' \<Rightarrow> documented (is_uuid Z) (is_datetime Z) s v = Some v'
      | Inl issues \<Rightarrow> documented (is_uuid Z) (is_datetime Z) s v = None \<and> issues \<noteq> []) \<and>
     (\<forall>t. is_datetime Z (toISOString Z t))"

section \<open>The schemas\<close>

definition SERVICE_IDS :: "string list" where
  "SERVICE_IDS = [''gateway'', ''messaging'']"

definition serviceIdSchema :: schema where
  "serviceIdSchema = ZEnum SERVICE_IDS"

definition SCHEMA_VERSIONS :: "string list" where
  "SCHEMA_VERSIONS = [''1'', ''2'']"

definition schemaVersionSchema :: schema where
  "schemaVersionSchema = ZEnum SCHEMA_VERSIONS"

definition eventEnvelopeSchema :: "(string \<times> schema) list" where
  "eventEnvelopeSchema =
    [(''eventId'', ZUuid), (''correlationId'', ZUuid), (''timestamp'', ZIsoDatetime),
     (''source'', serviceIdSchema), (''trace'', ZArray 1 serviceIdSchema),
     (''schemaVersion'', ZOptional schemaVersionSchema)]"

text \<open>\<open>envelope.extend({...})\<close>: new members, or members replaced in place.\<close>

definition extend_schema :: "(string \<times> schema) list \<Rightarrow> (string \<times> schema) list \<Rightarrow>
    (string \<times> schema) list" where
  "extend_schema fs gs = spread fs gs"

definition createMessageEventV1PayloadSchema :: schema where
  "createMessageEventV1PayloadSchema = ZObject
    [(''subject'', ZString 1 (Some 255)), (''content'', ZString 1 None),
     (''recipient'', ZOptional (ZString 0 (Some 255)))]"

definition createMessageEventV1Schema :: schema where
  "createMessageEventV1Schema = ZObject (extend_schema eventEnvelopeSchema
    [(''type'', ZLiteral ''CreateMessageEvent.v1''),
     (''payload'', createMessageEventV1PayloadSchema)])"

definition MESSAGE_PRIORITIES :: "string list" where
  "MESSAGE_PRIORITIES = [''low'', ''normal'', ''high'']"

definition messagePrioritySchema :: schema where
  "messagePrioritySchema = ZEnum MESSAGE_PRIORITIES"

definition MAX_METADATA_ENTRIES :: nat where
  "MAX_METADATA_ENTRIES = 20"

definition MAX_METADATA_STRING_LENGTH :: nat where
  "MAX_METADATA_STRING_LENGTH = 256"

definition messageMetadataSchema :: schema where
  "messageMetadataSchema = ZRecord (ZString 1 (Some MAX_METADATA_STRING_LENGTH))
     (ZString 0 (Some MAX_METADATA_STRING_LENGTH)) MAX_METADATA_ENTRIES"

definition createMessageEventV2PayloadSchema :: schema where
  "createMessageEventV2PayloadSchema = ZObject
    [(''subject'', ZString 1 (Some 255)), (''content'', ZString 1 None),
     (''recipient'', ZOptional (ZString 0 (Some 255))),
     (''priority'', ZDefault messagePrioritySchema (JStr ''normal'')),
     (''metadata'', ZDefault messageMetadataSchema (JObj []))]"

definition createMessageEventV2Schema :: schema where
  "createMessageEventV2Schema = ZObject (extend_schema eventEnvelopeSchema
    [(''type'', ZLiteral ''CreateMessageEvent.v2''), (''schemaVersion'', ZLiteral ''2''),
     (''payload'', createMessageEventV2PayloadSchema)])"

text \<open>The registry; \<open>EventRegistry[eventType]\<close> is only used at its two keys.\<close>

datatype EventType = CreateMessageV1 | CreateMessageV2

instantiation EventType :: enum
begin

definition enum_EventType :: "EventType list" where
  "enum_EventType = [CreateMessageV1, CreateMessageV2]"

definition enum_all_EventType :: "(EventType \<Rightarrow> bool) \<Rightarrow> bool" where
  "enum_all_EventType P \<longleftrightarrow> P CreateMessageV1 \<and> P CreateMessageV2"

definition enum_ex_EventType :: "(EventType \<Rightarrow> bool) \<Rightarrow> bool" where
  "enum_ex_EventType P \<longleftrightarrow> P CreateMessageV1 \<or> P CreateMessageV2"

instance
proof
  have all: "\<forall>x. x = CreateMessageV1 \<or> x = CreateMessageV2" using EventType.exhaust by blast
  then show "(UNIV :: EventType set) = set enum_class.enum" by (auto simp: enum_EventType_def)
  show "distinct (enum_class.enum :: EventType list)" by (simp add: enum_EventType_def)
  show "enum_class.enum_all P \<longleftrightarrow> Ball UNIV P" for P :: "EventType \<Rightarrow> bool"
    using all by (auto simp: enum_all_EventType_def) metis
  show "enum_class.enum_ex P \<longleftrightarrow> Bex UNIV P" for P :: "EventType \<Rightarrow> bool"
    using all by (auto simp: enum_ex_EventType_def) metis
qed

end

definition CreateMessageEvent :: string where
  "CreateMessageEvent = ''CreateMessageEvent.v1''"

definition CreateMessageEventNameV2 :: string where
  "CreateMessageEventNameV2 = ''CreateMessageEvent.v2''"


fun event_name :: "EventType \<Rightarrow> string" where
  "event_name CreateMessageV1 = CreateMessageEvent"
| "event_name CreateMessageV2 = CreateMessageEventNameV2"

fun EventRegistry :: "EventType \<Rightarrow> schema" where
  "EventRegistry CreateMessageV1 = createMessageEventV1Schema"
| "EventRegistry CreateMessageV2 = createMessageEventV2Schema"

section \<open>Validation\<close>

text \<open>A failure detail is a path and a message.\<close>

definition issue_detail :: "issue \<Rightarrow> string \<times> string" where
  "issue_detail i = (let path = join_with ''.'' (issue_path i)
     in (if path = '''' then ''(root)'' else path, issue_message i))"

definition validateEvent :: "zod \<Rightarrow> EventType \<Rightarrow> jsval \<Rightarrow> (string \<times> string) list + jsval" where
  "validateEvent Z eventType raw = (case zparse Z (EventRegistry eventType) raw of
       Inr data \<Rightarrow> Inr data
     | Inl issues \<Rightarrow> Inl (map issue_detail issues))"

section \<open>The schema version of a message\<close>

definition SCHEMA_VERSION_HEADER :: string where
  "SCHEMA_VERSION_HEADER = ''x-schema-version''"

definition DEFAULT_SCHEMA_VERSION :: string where
  "DEFAULT_SCHEMA_VERSION = ''1''"

definition coerceToSchemaVersion :: "jsval \<Rightarrow> string option" where
  "coerceToSchemaVersion value =
     (let candidate = (case value of JBuf s \<Rightarrow> JStr s | JNum n \<Rightarrow> JStr (show_int n) | v \<Rightarrow> v)
      in case as_string candidate of
           None \<Rightarrow> None
         | Some s \<Rightarrow> let trimmed = js_trim s
                     in if trimmed \<in> set SCHEMA_VERSIONS then Some trimmed else None)"

text \<open>\<open>/\.v(\d+)$/\<close>: the digits at the end of the string, when \<open>.v\<close> stands before them.\<close>

definition match_version_suffix :: "string \<Rightarrow> string option" where
  "match_version_suffix s =
     (let ds = takeWhile is_digit (rev s); rest = dropWhile is_digit (rev s)
      in if ds \<noteq> [] \<and> take 2 rest = ''v.'' then Some (rev ds) else None)"

definition extractFromTypeSuffix :: "jsval \<Rightarrow> string option" where
  "extractFromTypeSuffix value = (case as_string value of
       None \<Rightarrow> None
     | Some s \<Rightarrow> (case match_version_suffix s of
           None \<Rightarrow> None | Some ds \<Rightarrow> coerceToSchemaVersion (JStr ds)))"

definition readEnvelopeSchemaVersion :: "jsval \<Rightarrow> string option" where
  "readEnvelopeSchemaVersion value =
     (if \<not> is_object value then None
      else if \<not> has_prop ''schemaVersion'' value then None
      else coerceToSchemaVersion (get_prop ''schemaVersion'' value))"

definition readEnvelopeType :: "jsval \<Rightarrow> jsval" where
  "readEnvelopeType value =
     (if \<not> is_object value then JUndef
      else if \<not> has_prop ''type'' value then JUndef
      else get_prop ''type'' value)"

record SchemaVersionSources =
  src_envelope :: jsval
  src_header :: jsval
  src_type :: jsval

definition resolveSchemaVersion :: "SchemaVersionSources \<Rightarrow> string" where
  "resolveSchemaVersion sources =
    (case readEnvelopeSchemaVersion (src_envelope sources) of Some v \<Rightarrow> v | None \<Rightarrow>
     (case coerceToSchemaVersion (src_header sources) of Some v \<Rightarrow> v | None \<Rightarrow>
      (let typeSource = (if src_type sources \<noteq> JUndef then src_type sources
                         else readEnvelopeType (src_envelope sources))
       in case extractFromTypeSuffix typeSource of Some v \<Rightarrow> v | None \<Rightarrow> DEFAULT_SCHEMA_VERSION)))"

section \<open>Builders and the upcaster\<close>

text \<open>\<open>schema.parse(v)\<close> throws a \<open>ZodError\<close> on failure.\<close>

definition zod_parse_or_throw :: "zod \<Rightarrow> schema \<Rightarrow> jsval \<Rightarrow> jsval + jsval" where
  "zod_parse_or_throw Z s v = (case zparse Z s v of
       Inl issues \<Rightarrow> Inl (JErr ''ZodError'' [(''message'', JStr (concat (map issue_message issues)))])
     | Inr x \<Rightarrow> Inr x)"

definition lift_sum :: "jsval + 'a \<Rightarrow> ('d, 'a) io" where
  "lift_sum r = (case r of Inl e \<Rightarrow> throw e | Inr x \<Rightarrow> ret x)"

definition buildCreateMessageEventV1 :: "zod \<Rightarrow> jsval \<Rightarrow> jsval \<Rightarrow> ('d, jsval) io" where
  "buildCreateMessageEventV1 Z payload correlationId =
     bind randomUUID (\<lambda>eventId. bind now_ms (\<lambda>now. ret (JObj
      [(''type'', JStr CreateMessageEvent), (''eventId'', JStr eventId),
       (''correlationId'', correlationId), (''timestamp'', JStr (toISOString Z now)),
       (''source'', JStr ''gateway''), (''trace'', JArr [JStr ''gateway'']), (''payload'', payload)])))"

definition buildCreateMessageEventV2 :: "zod \<Rightarrow> jsval \<Rightarrow> jsval \<Rightarrow> ('d, jsval) io" where
  "buildCreateMessageEventV2 Z payload correlationId =
     bind randomUUID (\<lambda>eventId. bind now_ms (\<lambda>now.
     bind (lift_sum (zod_parse_or_throw Z createMessageEventV2PayloadSchema payload)) (\<lambda>parsed. ret (JObj
      [(''type'', JStr CreateMessageEventNameV2), (''schemaVersion'', JStr ''2''),
       (''eventId'', JStr eventId), (''correlationId'', correlationId),
       (''timestamp'', JStr (toISOString Z now)), (''source'', JStr ''gateway''),
       (''trace'', JArr [JStr ''gateway'']), (''payload'', parsed)]))))"

definition upcastCreateMessageEventV1ToV2 :: "zod \<Rightarrow> jsval \<Rightarrow> jsval + jsval" where
  "upcastCreateMessageEventV1ToV2 Z v1 =
     (let pl = get_prop ''payload'' v1
      in if pl = JUndef \<or> pl = JNull then Inl type_error
         else case zod_parse_or_throw Z createMessageEventV2PayloadSchema (JObj
                [(''subject'', get_prop ''subject'' pl), (''content'', get_prop ''content'' pl),
                 (''recipient'', get_prop ''recipient'' pl)]) of
           Inl e \<Rightarrow> Inl e
         | Inr payload \<Rightarrow> Inr (JObj
            [(''type'', JStr ''CreateMessageEvent.v2''), (''schemaVersion'', JStr ''2''),
             (''eventId'', get_prop ''eventId'' v1), (''correlationId'', get_prop ''correlationId'' v1),
             (''timestamp'', get_prop ''timestamp'' v1), (''source'', get_prop ''source'' v1),
             (''trace'', get_prop ''trace'' v1), (''payload'', payload)]))"

section \<open>Facts about documented parsing\<close>

lemma all_some_map [simp]: "all_some (map Some ys) = Some ys"
  by (induction ys) auto

lemma all_some_iff: "all_some xs = Some ys \<longleftrightarrow> xs = map Some ys"
proof
  show "all_some xs = Some ys \<Longrightarrow> xs = map Some ys"
  proof (induction xs arbitrary: ys)
    case (Cons x xs)
    then obtain a zs where "x = Some a" "all_some xs = Some zs" "ys = a # zs"
      by (cases x) (auto split: option.splits)
    with Cons.IH show ?case by simp
  qed simp
qed simp

lemma all_some_exists: "(\<forall>x\<in>set xs. x \<noteq> None) \<Longrightarrow> \<exists>ys. all_some xs = Some ys"
  by (induction xs) auto

text \<open>Members whose value is \<open>undefined\<close> may be present or not: access cannot tell.\<close>

lemma get_prop_filter:
  assumes "distinct (map fst kvs)" and "\<And>k w. (k, w) \<in> set kvs \<Longrightarrow> \<not> P (k, w) \<Longrightarrow> w = JUndef"
  shows "get_prop k (JObj (filter P kvs)) = get_prop k (JObj kvs)"
  using assms
proof (induction kvs)
  case (Cons x kvs)
  obtain k' w where x: "x = (k', w)" by (cases x)
  have IH: "get_prop k (JObj (filter P kvs)) = get_prop k (JObj kvs)"
    using Cons.prems by (intro Cons.IH) auto
  show ?case
  proof (cases "P x")
    case True
    with IH x show ?thesis by (simp add: get_prop_def)
  next
    case False
    then have "w = JUndef" using Cons.prems(2) [of k' w] x by simp
    moreover have "map_of (filter P kvs) k' = None"
      using Cons.prems(1) x by (auto simp: map_of_eq_None_iff)
    ultimately show ?thesis using IH False x by (auto simp: get_prop_def)
  qed
qed simp

text \<open>A parsed object has, at each member of the schema, the parsed member of the input.\<close>

lemma documented_member:
  assumes "documented u d (ZObject fs) v = Some ob" and "distinct (map fst fs)" and "(k, s) \<in> set fs"
  shows "documented u d s (get_prop k v) = Some (get_prop k ob)"
proof -
  from assms(1) obtain kvs ws where v: "v = JObj kvs"
    and ws: "map (\<lambda>(k, s). documented u d s (get_prop k v)) fs = map Some ws"
    and ob: "ob = JObj (filter (\<lambda>(k, w). w \<noteq> JUndef \<or> k \<in> fst ` set kvs) (zip (map fst fs) ws))"
    by (auto simp: all_some_iff split: jsval.splits)
  have len: "length ws = length fs" using ws by (metis length_map)
  from assms(3) obtain i where i: "i < length fs" "fs ! i = (k, s)" by (metis in_set_conv_nth)
  have "documented u d s (get_prop k v) = Some (ws ! i)"
    using arg_cong [OF ws, of "\<lambda>l. l ! i"] i len by simp
  moreover have "get_prop k ob = ws ! i"
  proof -
    have keys: "map fst (zip (map fst fs) ws) = map fst fs" using len by (simp add: map_fst_zip)
    have "get_prop k ob = get_prop k (JObj (zip (map fst fs) ws))"
      unfolding ob using assms(2) by (intro get_prop_filter) (auto simp: keys)
    also have "\<dots> = ws ! i"
    proof -
      have "(k, ws ! i) \<in> set (zip (map fst fs) ws)"
        using i len by (auto simp: set_zip intro!: exI [of _ i])
      then have "map_of (zip (map fst fs) ws) k = Some (ws ! i)"
        using assms(2) by (intro map_of_is_SomeI) (simp_all add: keys)
      then show ?thesis by (simp add: get_prop_def)
    qed
    finally show ?thesis .
  qed
  ultimately show ?thesis by simp
qed

lemma documented_object:
  "(\<exists>ob. documented u d (ZObject fs) v = Some ob) \<longleftrightarrow>
     (\<exists>kvs. v = JObj kvs) \<and> (\<forall>(k, s)\<in>set fs. documented u d s (get_prop k v) \<noteq> None)"
proof
  assume "\<exists>ob. documented u d (ZObject fs) v = Some ob"
  then obtain ws where "\<exists>kvs. v = JObj kvs"
    and ws: "map (\<lambda>(k, s). documented u d s (get_prop k v)) fs = map Some ws"
    by (auto simp: all_some_iff split: jsval.splits)
  moreover have "documented u d s (get_prop k v) \<noteq> None" if "(k, s) \<in> set fs" for k s
  proof -
    have "documented u d s (get_prop k v) \<in> set (map (\<lambda>(k, s). documented u d s (get_prop k v)) fs)"
      using that by force
    then show ?thesis unfolding ws by auto
  qed
  ultimately show "(\<exists>kvs. v = JObj kvs) \<and> (\<forall>(k, s)\<in>set fs. documented u d s (get_prop k v) \<noteq> None)"
    by blast
next
  assume a: "(\<exists>kvs. v = JObj kvs) \<and> (\<forall>(k, s)\<in>set fs. documented u d s (get_prop k v) \<noteq> None)"
  then have "\<exists>ws. all_some (map (\<lambda>(k, s). documented u d s (get_prop k v)) fs) = Some ws"
    by (intro all_some_exists) auto
  with a show "\<exists>ob. documented u d (ZObject fs) v = Some ob" by auto
qed

lemma documented_object_shape: "documented u d (ZObject fs) v = Some ob \<Longrightarrow> \<exists>kvs. ob = JObj kvs"
  by (auto split: jsval.splits)

text \<open>The schemas, member by member.\<close>

definition v1_members :: "(string \<times> schema) list" where
  "v1_members =
    [(''eventId'', ZUuid), (''correlationId'', ZUuid), (''timestamp'', ZIsoDatetime),
     (''source'', serviceIdSchema), (''trace'', ZArray 1 serviceIdSchema),
     (''schemaVersion'', ZOptional schemaVersionSchema),
     (''type'', ZLiteral ''CreateMessageEvent.v1''),
     (''payload'', createMessageEventV1PayloadSchema)]"

definition v2_members :: "(string \<times> schema) list" where
  "v2_members =
    [(''eventId'', ZUuid), (''correlationId'', ZUuid), (''timestamp'', ZIsoDatetime),
     (''source'', serviceIdSchema), (''trace'', ZArray 1 serviceIdSchema),
     (''schemaVersion'', ZLiteral ''2''), (''type'', ZLiteral ''CreateMessageEvent.v2''),
     (''payload'', createMessageEventV2PayloadSchema)]"

lemma v1_schema: "createMessageEventV1Schema = ZObject v1_members" "distinct (map fst v1_members)"
  by (simp_all add: createMessageEventV1Schema_def v1_members_def extend_schema_def spread_def
      eventEnvelopeSchema_def)

lemma v2_schema: "createMessageEventV2Schema = ZObject v2_members" "distinct (map fst v2_members)"
  by (simp_all add: createMessageEventV2Schema_def v2_members_def extend_schema_def spread_def
      eventEnvelopeSchema_def)

abbreviation doc :: "zod \<Rightarrow> schema \<Rightarrow> jsval \<Rightarrow> jsval option" where
  "doc Z \<equiv> documented (is_uuid Z) (is_datetime Z)"

lemma zod_documented_case:
  "zod_documented Z \<Longrightarrow> (case zparse Z s v of Inr v' \<Rightarrow> doc Z s v = Some v'
     | Inl issues \<Rightarrow> doc Z s v = None \<and> issues \<noteq> [])"
  unfolding zod_documented_def by blast

lemma zparse_valid: "zod_documented Z \<Longrightarrow> zparse Z s v = Inr v' \<Longrightarrow> doc Z s v = Some v'"
  using zod_documented_case [of Z s v] by simp

lemma zparse_invalid: "zod_documented Z \<Longrightarrow> zparse Z s v = Inl is \<Longrightarrow> doc Z s v = None \<and> is \<noteq> []"
  using zod_documented_case [of Z s v] by simp

lemma zparse_iff: "zod_documented Z \<Longrightarrow> zparse Z s v = Inr v' \<longleftrightarrow> doc Z s v = Some v'"
  using zparse_valid zparse_invalid by (cases "zparse Z s v") fastforce+

lemma validateEvent_iff:
  "zod_documented Z \<Longrightarrow> validateEvent Z t raw = Inr ev \<longleftrightarrow> doc Z (EventRegistry t) raw = Some ev"
  by (auto simp: validateEvent_def zparse_iff split: sum.splits dest: zparse_invalid)

text \<open>Schemas without defaults return what they were given.\<close>

lemma documented_same:
  "documented u d (ZString mn mx) v = Some w \<Longrightarrow> w = v"
  "documented u d ZUuid v = Some w \<Longrightarrow> w = v"
  "documented u d ZIsoDatetime v = Some w \<Longrightarrow> w = v"
  "documented u d (ZEnum ss) v = Some w \<Longrightarrow> w = v"
  "documented u d (ZLiteral x) v = Some w \<Longrightarrow> w = v \<and> v = JStr x"
  by (auto split: jsval.splits if_splits)

lemma documented_formats:
  "documented u d ZUuid v = Some w \<longleftrightarrow> w = v \<and> (\<exists>s. v = JStr s \<and> u s)"
  "documented u d ZIsoDatetime v = Some w \<longleftrightarrow> w = v \<and> (\<exists>s. v = JStr s \<and> d s)"
  "documented u d (ZEnum ss) v = Some w \<longleftrightarrow> w = v \<and> (\<exists>s. v = JStr s \<and> s \<in> set ss)"
  by (auto split: jsval.splits if_splits)

lemma documented_trace:
  "documented u d (ZArray n (ZEnum ss)) v = Some w \<longleftrightarrow>
     w = v \<and> (\<exists>xs. v = JArr (map JStr xs) \<and> n \<le> length xs \<and> set xs \<subseteq> set ss)"
proof -
  have one: "documented u d (ZEnum ss) x = Some y \<longleftrightarrow> (\<exists>s. x = JStr s \<and> s \<in> set ss \<and> y = x)" for x y
    by (auto split: jsval.splits)
  have all: "map (documented u d (ZEnum ss)) vs = map Some ws \<longleftrightarrow>
      ws = vs \<and> (\<forall>x\<in>set vs. \<exists>s\<in>set ss. x = JStr s)" for vs ws
  proof (induction vs arbitrary: ws)
    case (Cons v vs)
    then show ?case by (cases ws) (auto simp: one simp del: documented.simps)
  qed simp
  have "(\<forall>x\<in>set vs. \<exists>s\<in>set ss. x = JStr s) \<longleftrightarrow> (\<exists>xs. vs = map JStr xs \<and> set xs \<subseteq> set ss)" for vs
  proof
    assume "\<forall>x\<in>set vs. \<exists>s\<in>set ss. x = JStr s"
    then show "\<exists>xs. vs = map JStr xs \<and> set xs \<subseteq> set ss"
    proof (induction vs)
      case (Cons v vs)
      then obtain s xs where "v = JStr s" "s \<in> set ss" "vs = map JStr xs" "set xs \<subseteq> set ss" by auto
      then show ?case by (intro exI [of _ "s # xs"]) simp
    qed simp
  next
    assume "\<exists>xs. vs = map JStr xs \<and> set xs \<subseteq> set ss"
    then show "\<forall>x\<in>set vs. \<exists>s\<in>set ss. x = JStr s" by force
  qed
  with all show ?thesis
    by (cases v) (auto simp: all_some_iff split: if_splits)
qed

lemma documented_optional_string:
  "documented u d (ZOptional (ZString 0 mx)) v = Some w \<Longrightarrow> w = v"
  by (auto split: if_splits jsval.splits)

lemma v1_payload_members:
  assumes "documented u d createMessageEventV1PayloadSchema v = Some pl"
  shows "(\<exists>x. get_prop ''subject'' v = JStr x \<and> 1 \<le> length x \<and> length x \<le> 255) \<and>
    (\<exists>x. get_prop ''content'' v = JStr x \<and> 1 \<le> length x) \<and>
    get_prop ''subject'' pl = get_prop ''subject'' v \<and> get_prop ''content'' pl = get_prop ''content'' v \<and>
    get_prop ''recipient'' pl = get_prop ''recipient'' v \<and>
    documented u d (ZOptional (ZString 0 (Some 255))) (get_prop ''recipient'' v) \<noteq> None"
proof -
  note member = documented_member [OF assms [unfolded createMessageEventV1PayloadSchema_def]]
  have s: "documented u d (ZString 1 (Some 255)) (get_prop ''subject'' v) = Some (get_prop ''subject'' pl)"
    by (rule member) simp_all
  have c: "documented u d (ZString 1 None) (get_prop ''content'' v) = Some (get_prop ''content'' pl)"
    by (rule member) simp_all
  have r: "documented u d (ZOptional (ZString 0 (Some 255))) (get_prop ''recipient'' v)
      = Some (get_prop ''recipient'' pl)"
    by (rule member) simp_all
  from s c documented_optional_string [OF r] r show ?thesis
    by (auto simp del: documented.simps(7) split: jsval.splits if_splits)
qed

lemma v2_payload_members:
  assumes "documented u d createMessageEventV2PayloadSchema v = Some pl"
  shows "(\<exists>x. get_prop ''subject'' v = JStr x \<and> 1 \<le> length x \<and> length x \<le> 255) \<and>
    (\<exists>x. get_prop ''content'' v = JStr x \<and> 1 \<le> length x) \<and>
    get_prop ''subject'' pl = get_prop ''subject'' v \<and> get_prop ''content'' pl = get_prop ''content'' v \<and>
    get_prop ''recipient'' pl = get_prop ''recipient'' v \<and>
    (\<exists>p\<in>set MESSAGE_PRIORITIES. get_prop ''priority'' pl = JStr p) \<and>
    (get_prop ''priority'' v = JUndef \<longrightarrow> get_prop ''priority'' pl = JStr ''normal'') \<and>
    (get_prop ''metadata'' v = JUndef \<longrightarrow> get_prop ''metadata'' pl = JObj [])"
proof -
  note member = documented_member [OF assms [unfolded createMessageEventV2PayloadSchema_def]]
  have s: "documented u d (ZString 1 (Some 255)) (get_prop ''subject'' v) = Some (get_prop ''subject'' pl)"
    by (rule member) simp_all
  have c: "documented u d (ZString 1 None) (get_prop ''content'' v) = Some (get_prop ''content'' pl)"
    by (rule member) simp_all
  have r: "documented u d (ZOptional (ZString 0 (Some 255))) (get_prop ''recipient'' v)
      = Some (get_prop ''recipient'' pl)"
    by (rule member) simp_all
  have p: "documented u d (ZDefault messagePrioritySchema (JStr ''normal'')) (get_prop ''priority'' v)
      = Some (get_prop ''priority'' pl)"
    by (rule member) simp_all
  have m: "documented u d (ZDefault messageMetadataSchema (JObj [])) (get_prop ''metadata'' v)
      = Some (get_prop ''metadata'' pl)"
    by (rule member) simp_all
  from s c documented_optional_string [OF r] p m show ?thesis
    by (auto simp: messagePrioritySchema_def MESSAGE_PRIORITIES_def split: jsval.splits if_splits)
qed

text \<open>What every valid event has, of either version: it is kept, and it is in range.\<close>

definition envelope_ok :: "zod \<Rightarrow> jsval \<Rightarrow> jsval \<Rightarrow> bool" where
  "envelope_ok Z raw ev \<longleftrightarrow>
     (\<exists>i. get_prop ''eventId'' ev = JStr i \<and> is_uuid Z i) \<and>
     (\<exists>c. get_prop ''correlationId'' ev = JStr c \<and> is_uuid Z c) \<and>
     (\<exists>t. get_prop ''timestamp'' ev = JStr t \<and> is_datetime Z t) \<and>
     (\<exists>s\<in>set SERVICE_IDS. get_prop ''source'' ev = JStr s) \<and>
     (\<exists>xs. get_prop ''trace'' ev = JArr (map JStr xs) \<and> xs \<noteq> [] \<and> set xs \<subseteq> set SERVICE_IDS) \<and>
     (\<forall>k\<in>{''eventId'', ''correlationId'', ''timestamp'', ''source'', ''trace'', ''schemaVersion'', ''type''}.
        get_prop k ev = get_prop k raw)"

lemma envelope_members:
  assumes doc: "documented (is_uuid Z) (is_datetime Z) (ZObject ms) raw = Some ev"
    and d: "distinct (map fst ms)"
    and sub: "{(''eventId'', ZUuid), (''correlationId'', ZUuid), (''timestamp'', ZIsoDatetime),
      (''source'', serviceIdSchema), (''trace'', ZArray 1 serviceIdSchema)} \<subseteq> set ms"
    and same: "\<forall>k\<in>{''schemaVersion'', ''type''}. get_prop k ev = get_prop k raw"
  shows "envelope_ok Z raw ev"
proof -
  note member = documented_member [OF doc d]
  have "doc Z ZUuid (get_prop ''eventId'' raw) = Some (get_prop ''eventId'' ev)"
    "doc Z ZUuid (get_prop ''correlationId'' raw) = Some (get_prop ''correlationId'' ev)"
    "doc Z ZIsoDatetime (get_prop ''timestamp'' raw) = Some (get_prop ''timestamp'' ev)"
    "doc Z serviceIdSchema (get_prop ''source'' raw) = Some (get_prop ''source'' ev)"
    "doc Z (ZArray 1 serviceIdSchema) (get_prop ''trace'' raw) = Some (get_prop ''trace'' ev)"
    by (rule member, use sub in simp)+
  with same show ?thesis
    unfolding envelope_ok_def serviceIdSchema_def documented_trace documented_formats
    by auto
qed

lemma v1_valid:
  assumes "doc Z createMessageEventV1Schema raw = Some ev"
  shows "envelope_ok Z raw ev \<and> get_prop ''type'' ev = JStr ''CreateMessageEvent.v1'' \<and>
    doc Z (ZOptional schemaVersionSchema) (get_prop ''schemaVersion'' raw) = Some (get_prop ''schemaVersion'' ev) \<and>
    doc Z createMessageEventV1PayloadSchema (get_prop ''payload'' raw) = Some (get_prop ''payload'' ev)"
proof -
  note doc = assms [unfolded v1_schema]
  note member = documented_member [OF doc v1_schema(2)]
  have t: "doc Z (ZLiteral ''CreateMessageEvent.v1'') (get_prop ''type'' raw) = Some (get_prop ''type'' ev)"
    by (rule member) (simp add: v1_members_def)
  have s: "doc Z (ZOptional schemaVersionSchema) (get_prop ''schemaVersion'' raw) = Some (get_prop ''schemaVersion'' ev)"
    by (rule member) (simp add: v1_members_def)
  have p: "doc Z createMessageEventV1PayloadSchema (get_prop ''payload'' raw) = Some (get_prop ''payload'' ev)"
    by (rule member) (simp add: v1_members_def)
  have "envelope_ok Z raw ev"
    by (rule envelope_members [OF doc v1_schema(2)])
      (use t s in \<open>auto simp: v1_members_def schemaVersionSchema_def split: if_splits jsval.splits\<close>)
  with t s p documented_same(5) [OF t] show ?thesis by simp
qed

lemma v2_valid:
  assumes "doc Z createMessageEventV2Schema raw = Some ev"
  shows "envelope_ok Z raw ev \<and> get_prop ''type'' ev = JStr ''CreateMessageEvent.v2'' \<and>
    get_prop ''schemaVersion'' ev = JStr ''2'' \<and>
    doc Z createMessageEventV2PayloadSchema (get_prop ''payload'' raw) = Some (get_prop ''payload'' ev)"
proof -
  note doc = assms [unfolded v2_schema]
  note member = documented_member [OF doc v2_schema(2)]
  have t: "doc Z (ZLiteral ''CreateMessageEvent.v2'') (get_prop ''type'' raw) = Some (get_prop ''type'' ev)"
    by (rule member) (simp add: v2_members_def)
  have s: "doc Z (ZLiteral ''2'') (get_prop ''schemaVersion'' raw) = Some (get_prop ''schemaVersion'' ev)"
    by (rule member) (simp add: v2_members_def)
  have p: "doc Z createMessageEventV2PayloadSchema (get_prop ''payload'' raw) = Some (get_prop ''payload'' ev)"
    by (rule member) (simp add: v2_members_def)
  have "envelope_ok Z raw ev"
    by (rule envelope_members [OF doc v2_schema(2)])
      (use t s in \<open>auto simp: v2_members_def split: if_splits\<close>)
  with t s p documented_same(5) [OF t] documented_same(5) [OF s] show ?thesis by simp
qed

section \<open>Properties\<close>

text \<open>A Zod that does what is documented, with permissive formats.\<close>

definition sample_zod :: zod where
  "sample_zod = \<lparr>zparse = (\<lambda>s v. case documented (\<lambda>x. x \<noteq> '''') (\<lambda>_. True) s v of
      None \<Rightarrow> Inl [\<lparr>issue_path = [], issue_message = ''Invalid input''\<rparr>] | Some x \<Rightarrow> Inr x),
     is_uuid = (\<lambda>x. x \<noteq> ''''), is_datetime = (\<lambda>_. True), toISOString = show_int\<rparr>"

lemma sample_zod_documented: "zod_documented sample_zod"
  by (auto simp: zod_documented_def sample_zod_def split: option.split)

lemma sample_zod_sel [simp]: "is_uuid sample_zod = (\<lambda>x. x \<noteq> '''')" "is_datetime sample_zod = (\<lambda>_. True)"
  by (simp_all add: sample_zod_def)

definition sample_v1 :: jsval where
  "sample_v1 = JObj [(''type'', JStr ''CreateMessageEvent.v1''), (''eventId'', JStr ''e''),
     (''correlationId'', JStr ''c''), (''timestamp'', JStr ''t''), (''source'', JStr ''gateway''),
     (''trace'', JArr [JStr ''gateway'']),
     (''payload'', JObj [(''subject'', JStr ''s''), (''content'', JStr ''b'')])]"

lemma sample_v1_valid: "\<exists>ev. validateEvent sample_zod CreateMessageV1 sample_v1 = Inr ev"
  unfolding validateEvent_iff [OF sample_zod_documented] EventRegistry.simps v1_schema documented_object
  by (simp add: v1_members_def sample_v1_def get_prop_def serviceIdSchema_def SERVICE_IDS_def
      createMessageEventV1PayloadSchema_def)

lemma coerce_version: "coerceToSchemaVersion (JStr ''2'') = Some ''2''"
  by (simp add: coerceToSchemaVersion_def js_trim_def is_js_space_def SCHEMA_VERSIONS_def Let_def)

lemma coerce_in: "coerceToSchemaVersion v = Some x \<Longrightarrow> x \<in> set SCHEMA_VERSIONS"
  by (auto simp: coerceToSchemaVersion_def Let_def split: option.splits if_splits)

lemma read_version:
  "v = JObj kvs \<Longrightarrow> get_prop ''schemaVersion'' v = JStr ''2'' \<Longrightarrow> readEnvelopeSchemaVersion v = Some ''2''"
  by (auto simp: readEnvelopeSchemaVersion_def get_prop_def has_prop_def coerce_version
      split: option.splits)

lemma read_no_version:
  "get_prop ''schemaVersion'' v = JUndef \<Longrightarrow> readEnvelopeSchemaVersion v = None"
  by (auto simp: readEnvelopeSchemaVersion_def get_prop_def has_prop_def coerceToSchemaVersion_def
      split: option.splits)

lemma envelope_keeps:
  "envelope_ok Z raw ev \<Longrightarrow> get_prop ''schemaVersion'' raw = get_prop ''schemaVersion'' ev"
  "envelope_ok Z raw ev \<Longrightarrow> get_prop ''type'' raw = get_prop ''type'' ev"
  by (simp_all add: envelope_ok_def)

lemma type_suffix: "extractFromTypeSuffix (JStr ''CreateMessageEvent.v1'') = Some ''1''"
  by (simp add: extractFromTypeSuffix_def match_version_suffix_def is_digit_def Let_def
      coerceToSchemaVersion_def js_trim_def is_js_space_def SCHEMA_VERSIONS_def)

lemma dispatch_v2:
  assumes "doc Z createMessageEventV2Schema raw = Some ev"
  shows "resolveSchemaVersion \<lparr>src_envelope = raw, src_header = h, src_type = ty\<rparr> = ''2''"
proof -
  have "get_prop ''schemaVersion'' raw = JStr ''2''"
    using v2_valid [OF assms] envelope_keeps(1) [of Z raw ev] by simp
  moreover obtain kvs where "raw = JObj kvs"
    using assms unfolding v2_schema using documented_object by blast
  ultimately show ?thesis by (simp add: resolveSchemaVersion_def read_version)
qed

lemma v1_type:
  assumes "doc Z createMessageEventV1Schema raw = Some ev"
  shows "\<exists>kvs. raw = JObj kvs" "readEnvelopeType raw = JStr ''CreateMessageEvent.v1''"
proof -
  have ty: "get_prop ''type'' raw = JStr ''CreateMessageEvent.v1''"
    using v1_valid [OF assms] envelope_keeps(2) [of Z raw ev] by simp
  obtain kvs where raw: "raw = JObj kvs"
    using assms unfolding v1_schema using documented_object by blast
  then show "\<exists>kvs. raw = JObj kvs" by blast
  show "readEnvelopeType raw = JStr ''CreateMessageEvent.v1''"
    using ty raw by (auto simp: readEnvelopeType_def has_prop_def get_prop_def split: option.splits)
qed

lemma dispatch_v1:
  assumes "doc Z createMessageEventV1Schema raw = Some ev" "get_prop ''schemaVersion'' raw = JUndef"
    "coerceToSchemaVersion h = None"
  shows "resolveSchemaVersion \<lparr>src_envelope = raw, src_header = h, src_type = JUndef\<rparr> = ''1''"
  using assms v1_type [OF assms(1)] by (simp add: resolveSchemaVersion_def read_no_version type_suffix)

text \<open>
  What names a version: a text, a buffer or a number that reads \<open>1\<close> or \<open>2\<close>, with white space around it or
  not; and an event type that ends in \<open>.v1\<close> or \<open>.v2\<close>.
\<close>

definition names_version :: "jsval \<Rightarrow> string \<Rightarrow> bool" where
  "names_version x v \<longleftrightarrow> v \<in> {''1'', ''2''} \<and>
     (\<exists>s. js_trim s = v \<and> (x = JStr s \<or> x = JBuf s \<or> (\<exists>n. x = JNum n \<and> s = show_int n)))"

definition type_names :: "jsval \<Rightarrow> string \<Rightarrow> bool" where
  "type_names x v \<longleftrightarrow> v \<in> {''1'', ''2''} \<and> (\<exists>p. x = JStr (p @ ''.v'' @ v))"

lemma coerce_iff: "coerceToSchemaVersion x = Some v \<longleftrightarrow> names_version x v"
  by (cases x) (auto simp: coerceToSchemaVersion_def names_version_def SCHEMA_VERSIONS_def Let_def)

lemma envelope_version: "readEnvelopeSchemaVersion raw = coerceToSchemaVersion (get_prop ''schemaVersion'' raw)"
proof -
  have "coerceToSchemaVersion JUndef = None" by (simp add: coerceToSchemaVersion_def)
  moreover have "get_prop k raw = JUndef" if "\<not> is_object raw \<or> \<not> has_prop k raw" for k
    using that by (cases raw) (auto simp: get_prop_def has_prop_def)
  ultimately show ?thesis by (auto simp: readEnvelopeSchemaVersion_def)
qed

lemma envelope_type: "readEnvelopeType raw = get_prop ''type'' raw"
  by (cases raw) (auto simp: readEnvelopeType_def get_prop_def has_prop_def split: option.splits)

lemma suffix_digits: "list_all is_digit ds \<Longrightarrow> js_trim ds = ds"
proof -
  have space: "\<not> is_js_space c" if "is_digit c" for c
    using that by (auto simp: is_digit_def is_js_space_def)
  have "dropWhile is_js_space xs = xs" if "list_all is_digit xs" for xs
    using that space by (cases xs) auto
  then show "list_all is_digit ds \<Longrightarrow> js_trim ds = ds" by (simp add: js_trim_def list_all_rev)
qed

lemma suffix_iff: "extractFromTypeSuffix x = Some v \<longleftrightarrow> type_names x v"
proof (cases "\<exists>s. x = JStr s")
  case True
  then obtain s where s: "x = JStr s" by blast
  let ?ds = "takeWhile is_digit (rev s)" and ?rest = "dropWhile is_digit (rev s)"
  show ?thesis
  proof
    assume "extractFromTypeSuffix x = Some v"
    then have m: "take 2 ?rest = ''v.''" "coerceToSchemaVersion (JStr (rev ?ds)) = Some v"
      by (auto simp: extractFromTypeSuffix_def match_version_suffix_def s Let_def split: if_splits)
    have "list_all is_digit (rev ?ds)" by (auto simp: list_all_iff dest: set_takeWhileD)
    then have v: "rev ?ds = v" "v \<in> {''1'', ''2''}"
      using m(2) suffix_digits by (auto simp: coerceToSchemaVersion_def Let_def SCHEMA_VERSIONS_def split: if_splits)
    have "rev s = ?ds @ take 2 ?rest @ drop 2 ?rest" by (metis append_take_drop_id takeWhile_dropWhile_id)
    then have "s = rev (?ds @ ''v.'' @ drop 2 ?rest)" by (metis m(1) rev_rev_ident)
    then have "s = rev (drop 2 ?rest) @ ''.v'' @ v" by (simp add: v(1) [symmetric])
    then show "type_names x v" using s v(2) unfolding type_names_def by blast
  next
    assume "type_names x v"
    then obtain p where p: "s = p @ ''.v'' @ v" "v \<in> {''1'', ''2''}" using s by (auto simp: type_names_def)
    then have "?ds = v" "take 2 ?rest = ''v.''" by (auto simp: is_digit_def)
    then show "extractFromTypeSuffix x = Some v"
      using p(2) by (auto simp: extractFromTypeSuffix_def match_version_suffix_def s Let_def coerce_iff names_version_def
          js_trim_def is_js_space_def)
  qed
next
  case False
  then show ?thesis by (cases x) (auto simp: extractFromTypeSuffix_def type_names_def)
qed

text \<open>
  C28: Version dispatch. The version is the one that the member \<open>schemaVersion\<close> of the envelope names,
  whatever the header and the type say; else the one that the header names; else the one that the type given, or, if
  none is given, the type of the envelope ends in; else 1. So an event that satisfies the version-2 contract
  is always dispatched as version 2. An event that satisfies the version-1 contract is dispatched as version 1 when
  neither it nor the header nor a type given to the call names a version; when it or the header says 2 it is dispatched
  as version 2 and refused, although the version-1 schema allows that member.
\<close>

theorem version_dispatch:
  fixes raw h ty :: jsval
  defines "v \<equiv> resolveSchemaVersion \<lparr>src_envelope = raw, src_header = h, src_type = ty\<rparr>"
    and "named \<equiv> names_version (get_prop ''schemaVersion'' raw)"
    and "suffix \<equiv> type_names (if ty \<noteq> JUndef then ty else get_prop ''type'' raw)"
  assumes "zod_documented Z"
  shows "(\<forall>x. named x \<longrightarrow> v = x) \<and>
    ((\<nexists>x. named x) \<longrightarrow> (\<forall>x. names_version h x \<longrightarrow> v = x)) \<and>
    ((\<nexists>x. named x \<or> names_version h x) \<longrightarrow> (\<forall>x. suffix x \<longrightarrow> v = x)) \<and>
    ((\<nexists>x. named x \<or> names_version h x \<or> suffix x) \<longrightarrow> v = ''1'') \<and>
    (\<forall>ev. validateEvent Z CreateMessageV2 raw = Inr ev \<longrightarrow> v = ''2'') \<and>
    (\<forall>ev. validateEvent Z CreateMessageV1 raw = Inr ev \<longrightarrow>
       ((\<nexists>x. named x \<or> names_version h x) \<and> ty = JUndef \<longrightarrow> v = ''1'') \<and>
       (named ''2'' \<or> (\<nexists>x. named x) \<and> names_version h ''2'' \<longrightarrow>
          v = ''2'' \<and> (\<exists>errs. validateEvent Z CreateMessageV2 raw = Inl errs)))"
proof -
  have env: "readEnvelopeSchemaVersion raw = Some x \<longleftrightarrow> named x" for x
    by (simp add: envelope_version coerce_iff named_def)
  have sfx: "extractFromTypeSuffix (if ty \<noteq> JUndef then ty else readEnvelopeType raw) = Some x \<longleftrightarrow> suffix x" for x
    by (simp add: envelope_type suffix_iff suffix_def)
  have none: "(r = None) = (\<nexists>x. r = Some x)" for r :: "string option" by simp
  have order: "(\<forall>x. named x \<longrightarrow> v = x)" "(\<nexists>x. named x) \<Longrightarrow> (\<forall>x. names_version h x \<longrightarrow> v = x)"
    "(\<nexists>x. named x \<or> names_version h x) \<Longrightarrow> (\<forall>x. suffix x \<longrightarrow> v = x)"
    "(\<nexists>x. named x \<or> names_version h x \<or> suffix x) \<Longrightarrow> v = ''1''"
    unfolding v_def resolveSchemaVersion_def env [symmetric] coerce_iff [symmetric] sfx [symmetric]
    by (auto simp: Let_def DEFAULT_SCHEMA_VERSION_def split: option.split)
  have two: "v = ''2''" if "validateEvent Z CreateMessageV2 raw = Inr ev" for ev
    unfolding v_def using that by (intro dispatch_v2 [of Z raw ev]) (simp add: validateEvent_iff [OF assms(4)])
  have one: "get_prop ''type'' raw = JStr ''CreateMessageEvent.v1''" if "validateEvent Z CreateMessageV1 raw = Inr ev" for ev
    using that v1_valid [of Z raw ev] envelope_keeps(2) [of Z raw ev] by (simp add: validateEvent_iff [OF assms(4)])
  have suf: "suffix ''1''" if "validateEvent Z CreateMessageV1 raw = Inr ev" "ty = JUndef" for ev
  proof -
    have "''CreateMessageEvent.v1'' = ''CreateMessageEvent'' @ ''.v'' @ ''1''" by simp
    then show ?thesis using one [OF that(1)] that(2) unfolding suffix_def type_names_def by auto
  qed
  have refused: "\<exists>errs. validateEvent Z CreateMessageV2 raw = Inl errs" if "validateEvent Z CreateMessageV1 raw = Inr ev" for ev
  proof -
    have "validateEvent Z CreateMessageV2 raw \<noteq> Inr ev'" for ev'
      using one [OF that] v2_valid [of Z raw ev'] envelope_keeps(2) [of Z raw ev']
      by (auto simp: validateEvent_iff [OF assms(4)])
    then show ?thesis by (cases "validateEvent Z CreateMessageV2 raw") auto
  qed
  have unnamed: "v = ''1''" if "validateEvent Z CreateMessageV1 raw = Inr ev" "(\<nexists>x. named x \<or> names_version h x) \<and> ty = JUndef" for ev
    using order(3) [OF conjunct1 [OF that(2)]] suf [OF that(1) conjunct2 [OF that(2)]] by simp
  have says_two: "v = ''2''" if "named ''2'' \<or> (\<nexists>x. named x) \<and> names_version h ''2''"
    using that order(1) order(2) by metis
  show ?thesis
    by (intro conjI allI impI)
      (erule order(1) [rule_format], erule order(2) [rule_format], assumption, erule order(3) [rule_format], assumption,
        erule order(4), erule two, erule (1) unnamed, erule says_two, erule refused)
qed

theorem version_dispatch_witness:
  "resolveSchemaVersion \<lparr>src_envelope = sample_v1, src_header = JUndef, src_type = JStr ''E.v2''\<rparr> = ''2''"
proof -
  have none: "\<nexists>x. names_version (get_prop ''schemaVersion'' sample_v1) x \<or> names_version JUndef x"
    by (simp add: names_version_def sample_v1_def get_prop_def)
  have "''E.v2'' = ''E'' @ ''.v'' @ ''2''" by simp
  then have "type_names (JStr ''E.v2'') ''2''" unfolding type_names_def by auto
  with version_dispatch [OF sample_zod_documented, where raw = sample_v1 and h = JUndef and ty = "JStr ''E.v2''"] none
  show ?thesis by simp
qed

text \<open>When an event is valid, from its members.\<close>

lemma v1_valid_iff:
  "(\<exists>ev. doc Z createMessageEventV1Schema raw = Some ev) \<longleftrightarrow> (\<exists>kvs. raw = JObj kvs) \<and>
     (\<forall>(k, s)\<in>set v1_members. doc Z s (get_prop k raw) \<noteq> None)"
  unfolding v1_schema documented_object ..

lemma v2_valid_iff:
  "(\<exists>ev. doc Z createMessageEventV2Schema raw = Some ev) \<longleftrightarrow> (\<exists>kvs. raw = JObj kvs) \<and>
     (\<forall>(k, s)\<in>set v2_members. doc Z s (get_prop k raw) \<noteq> None)"
  unfolding v2_schema documented_object ..

lemma get_prop_simps [simp]:
  "get_prop k (JObj ((k, v) # kvs)) = v"
  "k' \<noteq> k \<Longrightarrow> get_prop k (JObj ((k', v) # kvs)) = get_prop k (JObj kvs)"
  "get_prop k (JObj []) = JUndef"
  by (simp_all add: get_prop_def)

text \<open>The payload the upcaster makes: version-1 fields with the version-2 defaults.\<close>

lemma v2_payload_of_v1:
  assumes "documented u d createMessageEventV1PayloadSchema raw = Some pl"
    and v: "v = JObj [(''subject'', get_prop ''subject'' pl), (''content'', get_prop ''content'' pl),
      (''recipient'', get_prop ''recipient'' pl)]"
  shows "\<exists>pl2. documented u d createMessageEventV2PayloadSchema v = Some pl2 \<and>
    get_prop ''subject'' pl2 = get_prop ''subject'' pl \<and> get_prop ''content'' pl2 = get_prop ''content'' pl \<and>
    get_prop ''recipient'' pl2 = get_prop ''recipient'' pl \<and>
    get_prop ''priority'' pl2 = JStr ''normal'' \<and> get_prop ''metadata'' pl2 = JObj []"
proof -
  note m = v1_payload_members [OF assms(1)]
  have "\<exists>pl2. documented u d createMessageEventV2PayloadSchema v = Some pl2"
    unfolding createMessageEventV2PayloadSchema_def documented_object
    using m v by (auto simp del: documented.simps(7))
  then obtain pl2 where pl2: "documented u d createMessageEventV2PayloadSchema v = Some pl2" by blast
  with v2_payload_members [OF pl2] show ?thesis by (simp add: v)
qed

text \<open>A parsed version-2 payload parses again.\<close>

lemma v2_payload_again:
  assumes "documented u d (ZOptional (ZString 0 (Some 255))) (get_prop ''recipient'' pl) \<noteq> None"
    and "\<exists>kvs. pl = JObj kvs"
    and "\<exists>x. get_prop ''subject'' pl = JStr x \<and> 1 \<le> length x \<and> length x \<le> 255"
    and "\<exists>x. get_prop ''content'' pl = JStr x \<and> 1 \<le> length x"
    and "get_prop ''priority'' pl = JStr ''normal''" and "get_prop ''metadata'' pl = JObj []"
  shows "documented u d createMessageEventV2PayloadSchema pl \<noteq> None"
proof -
  have "\<exists>pl2. documented u d createMessageEventV2PayloadSchema pl = Some pl2"
    unfolding createMessageEventV2PayloadSchema_def documented_object
    using assms by (auto simp: messagePrioritySchema_def MESSAGE_PRIORITIES_def
        messageMetadataSchema_def simp del: documented.simps(7))
  then show ?thesis by auto
qed

text \<open>The upcast of a valid version-1 event, member by member.\<close>

lemma upcast_members:
  assumes "zod_documented Z" and "validateEvent Z CreateMessageV1 raw = Inr ev"
  shows "\<exists>ev2 ev3. upcastCreateMessageEventV1ToV2 Z ev = Inr ev2 \<and>
    validateEvent Z CreateMessageV2 ev2 = Inr ev3 \<and>
    (\<forall>k\<in>{''eventId'', ''correlationId'', ''timestamp'', ''source'', ''trace''}.
       get_prop k ev2 = get_prop k raw) \<and>
    (\<forall>k\<in>{''subject'', ''content'', ''recipient''}.
       get_prop k (get_prop ''payload'' ev2) = get_prop k (get_prop ''payload'' raw)) \<and>
    get_prop ''priority'' (get_prop ''payload'' ev2) = JStr ''normal'' \<and>
    get_prop ''metadata'' (get_prop ''payload'' ev2) = JObj []"
proof -
  have d: "doc Z createMessageEventV1Schema raw = Some ev"
    using assms(2) by (simp only: validateEvent_iff [OF assms(1)] EventRegistry.simps)
  note valid = v1_valid [OF d]
  let ?pl = "get_prop ''payload'' ev"
  have pl: "doc Z createMessageEventV1PayloadSchema (get_prop ''payload'' raw) = Some ?pl" using valid by blast
  note m = v1_payload_members [OF pl]
  let ?v = "JObj [(''subject'', get_prop ''subject'' ?pl), (''content'', get_prop ''content'' ?pl),
      (''recipient'', get_prop ''recipient'' ?pl)]"
  obtain pl2 where pl2: "doc Z createMessageEventV2PayloadSchema ?v = Some pl2"
    and keep: "get_prop ''subject'' pl2 = get_prop ''subject'' ?pl" "get_prop ''content'' pl2 = get_prop ''content'' ?pl"
      "get_prop ''recipient'' pl2 = get_prop ''recipient'' ?pl"
      "get_prop ''priority'' pl2 = JStr ''normal''" "get_prop ''metadata'' pl2 = JObj []"
    using v2_payload_of_v1 [OF pl refl] by blast
  have obj: "\<exists>kvs. ?pl = JObj kvs" "\<exists>kvs. pl2 = JObj kvs"
    using pl pl2 documented_object_shape
    unfolding createMessageEventV1PayloadSchema_def createMessageEventV2PayloadSchema_def by blast+
  let ?ev2 = "JObj [(''type'', JStr ''CreateMessageEvent.v2''), (''schemaVersion'', JStr ''2''),
    (''eventId'', get_prop ''eventId'' ev), (''correlationId'', get_prop ''correlationId'' ev),
    (''timestamp'', get_prop ''timestamp'' ev), (''source'', get_prop ''source'' ev),
    (''trace'', get_prop ''trace'' ev), (''payload'', pl2)]"
  have up: "upcastCreateMessageEventV1ToV2 Z ev = Inr ?ev2"
    using obj(1) pl2 zparse_iff [OF assms(1)]
    by (auto simp: upcastCreateMessageEventV1ToV2_def Let_def zod_parse_or_throw_def split: sum.split
        dest: zparse_invalid [OF assms(1)])
  have again: "doc Z createMessageEventV2PayloadSchema pl2 \<noteq> None"
    by (rule v2_payload_again) (use keep m obj in \<open>auto simp del: documented.simps\<close>)
  have env: "envelope_ok Z raw ev" using valid by blast
  have "\<exists>ev3. doc Z createMessageEventV2Schema ?ev2 = Some ev3"
    unfolding v2_valid_iff
  proof
    have tr: "doc Z (ZArray 1 serviceIdSchema) (get_prop ''trace'' ev) = Some (get_prop ''trace'' ev)"
      using env unfolding serviceIdSchema_def documented_trace
      by (auto simp: envelope_ok_def Suc_le_eq)
    show "\<forall>(k, s)\<in>set v2_members. doc Z s (get_prop k ?ev2) \<noteq> None"
      using env again tr
      by (auto simp: v2_members_def envelope_ok_def serviceIdSchema_def simp del: documented.simps(6,10))
  qed simp
  then obtain ev3 where "validateEvent Z CreateMessageV2 ?ev2 = Inr ev3"
    by (auto simp: validateEvent_iff [OF assms(1)])
  with up show ?thesis
    using env keep m by (intro exI [of _ ?ev2] exI [of _ ev3]) (auto simp: envelope_ok_def)
qed

text \<open>
  C25: Upcasting. Every event accepted as version 1 can be upcast, without an error; the
  result satisfies the version-2 contract, keeps identity, correlation, time, source and trace, keeps
  subject, content and recipient, and takes the documented defaults for priority and metadata.
\<close>

theorem upcast_valid:
  assumes "zod_documented Z" and "validateEvent Z CreateMessageV1 raw = Inr ev"
  shows "\<exists>ev2 ev3. upcastCreateMessageEventV1ToV2 Z ev = Inr ev2 \<and>
    validateEvent Z CreateMessageV2 ev2 = Inr ev3 \<and>
    (\<forall>k\<in>{''eventId'', ''correlationId'', ''timestamp'', ''source'', ''trace''}.
       get_prop k ev2 = get_prop k raw) \<and>
    (\<forall>k\<in>{''subject'', ''content'', ''recipient''}.
       get_prop k (get_prop ''payload'' ev2) = get_prop k (get_prop ''payload'' raw)) \<and>
    get_prop ''priority'' (get_prop ''payload'' ev2) = JStr ''normal'' \<and>
    get_prop ''metadata'' (get_prop ''payload'' ev2) = JObj []"
  by (rule upcast_members [OF assms])

theorem upcast_valid_witness:
  "\<exists>ev ev2. validateEvent sample_zod CreateMessageV1 sample_v1 = Inr ev \<and>
     upcastCreateMessageEventV1ToV2 sample_zod ev = Inr ev2 \<and> get_prop ''eventId'' ev2 = JStr ''e''"
proof -
  obtain ev where ev: "validateEvent sample_zod CreateMessageV1 sample_v1 = Inr ev"
    using sample_v1_valid by blast
  from upcast_valid [OF sample_zod_documented ev] ev show ?thesis
    by (fastforce simp: sample_v1_def)
qed

text \<open>
  The builders. Given identifiers that are UUIDs and a payload the version-1 contract
  accepts, the event a builder makes satisfies its contract exactly when the correlation id is a
  UUID; a correlation id that is missing or anything else always makes it invalid.
\<close>

theorem builders_spec:
  assumes "zod_documented Z" and "\<forall>n. is_uuid Z (fresh w n)"
    and "zparse Z createMessageEventV1PayloadSchema payload = Inr pl"
    and "\<exists>kvs. payload = JObj kvs" and "get_prop ''priority'' payload = JUndef"
    and "get_prop ''metadata'' payload = JUndef"
  shows "(\<exists>ev w'. buildCreateMessageEventV1 Z payload cid w = (Inr ev, w') \<and>
      ((\<exists>e. validateEvent Z CreateMessageV1 ev = Inr e) \<longleftrightarrow> (\<exists>c. cid = JStr c \<and> is_uuid Z c))) \<and>
    (\<exists>ev w'. buildCreateMessageEventV2 Z payload cid w = (Inr ev, w') \<and>
      ((\<exists>e. validateEvent Z CreateMessageV2 ev = Inr e) \<longleftrightarrow> (\<exists>c. cid = JStr c \<and> is_uuid Z c)))"
proof -
  have pl: "doc Z createMessageEventV1PayloadSchema payload = Some pl"
    using assms(3) by (simp add: zparse_iff [OF assms(1)])
  note m = v1_payload_members [OF pl]
  have iso: "is_datetime Z (toISOString Z t)" for t using assms(1) by (simp add: zod_documented_def)
  have tr: "doc Z (ZArray 1 serviceIdSchema) (JArr [JStr ''gateway'']) \<noteq> None"
    by (simp add: serviceIdSchema_def SERVICE_IDS_def)
  have "\<exists>pl2. doc Z createMessageEventV2PayloadSchema payload = Some pl2"
    unfolding createMessageEventV2PayloadSchema_def documented_object
    using m assms(4-6) by (auto simp del: documented.simps(7))
  then obtain pl2 where pl2: "doc Z createMessageEventV2PayloadSchema payload = Some pl2" by blast
  note m2 = v2_payload_members [OF pl2]
  have again: "doc Z createMessageEventV2PayloadSchema pl2 \<noteq> None"
  proof (rule v2_payload_again)
    show "\<exists>kvs. pl2 = JObj kvs"
      using pl2 documented_object_shape unfolding createMessageEventV2PayloadSchema_def by blast
  qed (use m m2 assms(5,6) in \<open>auto simp del: documented.simps\<close>)
  have uuid: "doc Z ZUuid cid \<noteq> None \<longleftrightarrow> (\<exists>c. cid = JStr c \<and> is_uuid Z c)"
    by (auto split: jsval.splits)
  have one: "(\<exists>ev. doc Z createMessageEventV1Schema (JObj
      [(''type'', JStr CreateMessageEvent), (''eventId'', JStr (fresh w n)),
       (''correlationId'', cid), (''timestamp'', JStr (toISOString Z t)),
       (''source'', JStr ''gateway''), (''trace'', JArr [JStr ''gateway'']), (''payload'', payload)]) = Some ev)
     \<longleftrightarrow> doc Z ZUuid cid \<noteq> None" for n t
    unfolding v1_valid_iff
    using pl iso tr assms(2)
    by (auto simp: v1_members_def CreateMessageEvent_def serviceIdSchema_def SERVICE_IDS_def
        simp del: documented.simps(2,6,10)) (auto simp: documented_formats)
  have two: "(\<exists>ev. doc Z createMessageEventV2Schema (JObj
      [(''type'', JStr CreateMessageEventNameV2), (''schemaVersion'', JStr ''2''),
       (''eventId'', JStr (fresh w n)), (''correlationId'', cid),
       (''timestamp'', JStr (toISOString Z t)), (''source'', JStr ''gateway''),
       (''trace'', JArr [JStr ''gateway'']), (''payload'', pl2)]) = Some ev)
     \<longleftrightarrow> doc Z ZUuid cid \<noteq> None" for n t
    unfolding v2_valid_iff
    using again iso tr assms(2)
    by (auto simp: v2_members_def CreateMessageEventNameV2_def serviceIdSchema_def SERVICE_IDS_def
        simp del: documented.simps(2,6,10)) (auto simp: documented_formats)
  have parse2: "zparse Z createMessageEventV2PayloadSchema payload = Inr pl2"
    using pl2 by (simp add: zparse_iff [OF assms(1)])
  show ?thesis
    unfolding validateEvent_iff [OF assms(1)] EventRegistry.simps uuid [symmetric]
    using one two parse2
    by (simp add: buildCreateMessageEventV1_def buildCreateMessageEventV2_def io_defs lift_sum_def
        zod_parse_or_throw_def)
qed

theorem builders_spec_witness:
  "\<exists>ev w'. buildCreateMessageEventV1 sample_zod (JObj [(''subject'', JStr ''s''), (''content'', JStr ''b'')])
      (JStr ''c'') (start_world () \<lparr>fresh := \<lambda>_. ''u''\<rparr>) = (Inr ev, w') \<and>
    (\<exists>e. validateEvent sample_zod CreateMessageV1 ev = Inr e)"
proof -
  let ?p = "JObj [(''subject'', JStr ''s''), (''content'', JStr ''b'')]"
  have "\<exists>pl. doc sample_zod createMessageEventV1PayloadSchema ?p = Some pl"
    unfolding createMessageEventV1PayloadSchema_def documented_object by simp
  then obtain pl where "zparse sample_zod createMessageEventV1PayloadSchema ?p = Inr pl"
    by (auto simp: zparse_iff [OF sample_zod_documented])
  from builders_spec [OF sample_zod_documented _ this, of "start_world () \<lparr>fresh := \<lambda>_. ''u''\<rparr>" "JStr ''c''"]
  show ?thesis by auto
qed

section \<open>What validation accepts\<close>

text \<open>Parsing keeps the members of the schema and drops all others.\<close>

lemma documented_drops:
  assumes "documented u d (ZObject fs) v = Some w" "k \<notin> fst ` set fs"
  shows "get_prop k w = JUndef"
proof -
  obtain ws P where w: "w = JObj (filter P (zip (map fst fs) ws))"
    using assms(1) by (auto split: jsval.splits)
  have "k \<notin> fst ` set (filter P (zip (map fst fs) ws))"
    using assms(2) by (auto dest!: set_zip_leftD)
  then show ?thesis by (simp add: w get_prop_def map_of_eq_None_iff [THEN iffD2])
qed

text \<open>The contracts in words of their own, without the schemas.\<close>

definition text_between :: "nat \<Rightarrow> nat option \<Rightarrow> jsval \<Rightarrow> bool" where
  "text_between mn mx v \<longleftrightarrow> (\<exists>s. v = JStr s \<and> mn \<le> length s \<and> (case mx of None \<Rightarrow> True | Some m \<Rightarrow> length s \<le> m))"

definition metadata_ok :: "jsval \<Rightarrow> bool" where
  "metadata_ok v \<longleftrightarrow> (\<exists>kvs. v = JObj kvs \<and> length kvs \<le> 20 \<and>
     (\<forall>(k, x) \<in> set kvs. 1 \<le> length k \<and> length k \<le> 256 \<and> text_between 0 (Some 256) x))"

definition payload_ok :: "EventType \<Rightarrow> jsval \<Rightarrow> bool" where
  "payload_ok t v \<longleftrightarrow> (\<exists>kvs. v = JObj kvs) \<and>
     text_between 1 (Some 255) (get_prop ''subject'' v) \<and> text_between 1 None (get_prop ''content'' v) \<and>
     (get_prop ''recipient'' v = JUndef \<or> text_between 0 (Some 255) (get_prop ''recipient'' v)) \<and>
     (t = CreateMessageV2 \<longrightarrow>
        get_prop ''priority'' v \<in> {JUndef, JStr ''low'', JStr ''normal'', JStr ''high''} \<and>
        (get_prop ''metadata'' v = JUndef \<or> metadata_ok (get_prop ''metadata'' v)))"

definition event_ok :: "zod \<Rightarrow> EventType \<Rightarrow> jsval \<Rightarrow> bool" where
  "event_ok Z t v \<longleftrightarrow> (\<exists>kvs. v = JObj kvs) \<and>
     (\<exists>i. get_prop ''eventId'' v = JStr i \<and> is_uuid Z i) \<and>
     (\<exists>c. get_prop ''correlationId'' v = JStr c \<and> is_uuid Z c) \<and>
     (\<exists>d. get_prop ''timestamp'' v = JStr d \<and> is_datetime Z d) \<and>
     get_prop ''source'' v \<in> {JStr ''gateway'', JStr ''messaging''} \<and>
     (\<exists>xs. get_prop ''trace'' v = JArr xs \<and> xs \<noteq> [] \<and> set xs \<subseteq> {JStr ''gateway'', JStr ''messaging''}) \<and>
     get_prop ''schemaVersion'' v \<in> (case t of CreateMessageV1 \<Rightarrow> {JUndef, JStr ''1'', JStr ''2''}
        | CreateMessageV2 \<Rightarrow> {JStr ''2''}) \<and>
     get_prop ''type'' v = JStr (event_name t) \<and> payload_ok t (get_prop ''payload'' v)"

text \<open>The accepted event: known members as they were, with the defaults of version 2, and no others.\<close>

definition default_to :: "jsval \<Rightarrow> jsval \<Rightarrow> jsval" where
  "default_to dflt v = (if v = JUndef then dflt else v)"

definition payload_member :: "EventType \<Rightarrow> string \<Rightarrow> jsval \<Rightarrow> jsval" where
  "payload_member t k v = (if k \<in> {''subject'', ''content'', ''recipient''} then get_prop k v
     else if t = CreateMessageV2 \<and> k = ''priority'' then default_to (JStr ''normal'') (get_prop k v)
     else if t = CreateMessageV2 \<and> k = ''metadata'' then default_to (JObj []) (get_prop k v)
     else JUndef)"

definition normalised :: "EventType \<Rightarrow> jsval \<Rightarrow> jsval \<Rightarrow> bool" where
  "normalised t raw ev \<longleftrightarrow>
     (\<forall>k. k \<noteq> ''payload'' \<longrightarrow> get_prop k ev =
        (if k \<in> {''eventId'', ''correlationId'', ''timestamp'', ''source'', ''trace'', ''schemaVersion'', ''type''}
         then get_prop k raw else JUndef)) \<and>
     (\<forall>k. get_prop k (get_prop ''payload'' ev) = payload_member t k (get_prop ''payload'' raw))"

lemma all_some_same:
  assumes "\<And>v w. f v = Some w \<Longrightarrow> w = v"
  shows "all_some (map f vs) = Some ws \<longleftrightarrow> ws = vs \<and> (\<forall>v\<in>set vs. f v \<noteq> None)"
proof (induction vs arbitrary: ws)
  case (Cons v vs)
  then show ?case using assms [of v] by (cases "f v") (auto split: option.splits)
qed auto

lemma documented_text:
  "documented u d (ZString mn mx) v = Some w \<longleftrightarrow> w = v \<and> text_between mn mx v"
  by (auto simp: text_between_def split: jsval.splits option.splits if_splits)

lemma documented_text_some: "documented u d (ZString mn mx) v \<noteq> None \<longleftrightarrow> text_between mn mx v"
  using documented_text [of u d mn mx v] by blast

lemma documented_option:
  "documented u d (ZOptional s) v = Some w \<longleftrightarrow> (if v = JUndef then w = JUndef else documented u d s v = Some w)"
  "documented u d (ZDefault s dflt) v = Some w \<longleftrightarrow> (if v = JUndef then w = dflt else documented u d s v = Some w)"
  by auto

lemma documented_metadata:
  "documented u d messageMetadataSchema v = Some w \<longleftrightarrow> w = v \<and> metadata_ok v"
proof (cases v)
  case (JObj kvs)
  let ?t = "documented u d (ZString 0 (Some 256))"
  have vals: "all_some (map ?t (map snd kvs)) = Some ws \<longleftrightarrow>
      ws = map snd kvs \<and> (\<forall>x \<in> set (map snd kvs). text_between 0 (Some 256) x)" for ws
    using all_some_same [of ?t "map snd kvs" ws] by (simp add: documented_text documented_text_some del: documented.simps)
  have keys: "documented u d (ZString 1 (Some 256)) (JStr k) \<noteq> None \<longleftrightarrow> 1 \<le> length k \<and> length k \<le> 256" for k
    by simp
  have zip: "zip (map fst kvs) (map snd kvs) = kvs" by (simp add: zip_map_fst_snd)
  show ?thesis
    unfolding JObj messageMetadataSchema_def MAX_METADATA_ENTRIES_def MAX_METADATA_STRING_LENGTH_def
      documented.simps(9) jsval.case metadata_ok_def keys
    using vals zip by (auto simp: case_prod_beta simp del: documented.simps)
qed (auto simp: messageMetadataSchema_def metadata_ok_def)

text \<open>A parsed object, member by member.\<close>

lemma object_result:
  assumes "documented u d (ZObject fs) v = Some ob" "distinct (map fst fs)"
  shows "get_prop k ob = (case map_of fs k of None \<Rightarrow> JUndef | Some s \<Rightarrow> the (documented u d s (get_prop k v)))"
proof (cases "map_of fs k")
  case None
  then have "k \<notin> fst ` set fs" by (simp add: map_of_eq_None_iff)
  from documented_drops [OF assms(1) this] None show ?thesis by simp
next
  case (Some s)
  with documented_member [OF assms map_of_SomeD [OF Some]] show ?thesis by simp
qed

lemma documented_kept:
  "documented u d ZUuid v \<noteq> None \<longleftrightarrow> (\<exists>s. v = JStr s \<and> u s)"
  "documented u d ZIsoDatetime v \<noteq> None \<longleftrightarrow> (\<exists>s. v = JStr s \<and> d s)"
  "documented u d (ZEnum ss) v \<noteq> None \<longleftrightarrow> v \<in> JStr ` set ss"
  "documented u d (ZLiteral x) v \<noteq> None \<longleftrightarrow> v = JStr x"
  "documented u d (ZArray 1 (ZEnum ss)) v \<noteq> None \<longleftrightarrow> (\<exists>xs. v = JArr xs \<and> xs \<noteq> [] \<and> set xs \<subseteq> JStr ` set ss)"
proof -
  have "(\<exists>w. documented u d (ZArray 1 (ZEnum ss)) v = Some w) \<longleftrightarrow>
      (\<exists>xs. v = JArr (map JStr xs) \<and> 1 \<le> length xs \<and> set xs \<subseteq> set ss)"
    unfolding documented_trace by blast
  also have "\<dots> \<longleftrightarrow> (\<exists>xs. v = JArr xs \<and> xs \<noteq> [] \<and> set xs \<subseteq> JStr ` set ss)"
  proof (intro iffI; elim exE conjE)
    fix xs assume "v = JArr (map JStr xs)" "1 \<le> length xs" "set xs \<subseteq> set ss"
    then show "\<exists>xs. v = JArr xs \<and> xs \<noteq> [] \<and> set xs \<subseteq> JStr ` set ss"
      by (intro exI [of _ "map JStr xs"]) auto
  next
    fix xs assume "v = JArr xs" "xs \<noteq> []" "set xs \<subseteq> JStr ` set ss"
    moreover from \<open>set xs \<subseteq> JStr ` set ss\<close> have "\<exists>ys. xs = map JStr ys \<and> set ys \<subseteq> set ss"
    proof (induction xs)
      case (Cons x xs)
      then obtain s ys where "x = JStr s" "s \<in> set ss" "xs = map JStr ys" "set ys \<subseteq> set ss" by auto
      then show ?case by (intro exI [of _ "s # ys"]) simp
    qed simp
    then obtain ys where "xs = map JStr ys" "set ys \<subseteq> set ss" by blast
    ultimately show "\<exists>xs. v = JArr (map JStr xs) \<and> 1 \<le> length xs \<and> set xs \<subseteq> set ss"
      by (intro exI [of _ ys]) (auto simp: Suc_le_eq)
  qed
  finally show "documented u d (ZArray 1 (ZEnum ss)) v \<noteq> None \<longleftrightarrow>
      (\<exists>xs. v = JArr xs \<and> xs \<noteq> [] \<and> set xs \<subseteq> JStr ` set ss)" by blast
qed (auto split: jsval.splits)

lemma payload_iff:
  "documented u d createMessageEventV1PayloadSchema v \<noteq> None \<longleftrightarrow> payload_ok CreateMessageV1 v"
  "documented u d createMessageEventV2PayloadSchema v \<noteq> None \<longleftrightarrow> payload_ok CreateMessageV2 v"
proof -
  have opt: "documented u d (ZOptional s) x \<noteq> None \<longleftrightarrow> x = JUndef \<or> documented u d s x \<noteq> None"
    "documented u d (ZDefault s y) x \<noteq> None \<longleftrightarrow> x = JUndef \<or> documented u d s x \<noteq> None" for s x y
    by auto
  have meta: "documented u d messageMetadataSchema x \<noteq> None \<longleftrightarrow> metadata_ok x" for x
    using documented_metadata [of u d x] by blast
  have obj: "documented u d (ZObject fs) x \<noteq> None \<longleftrightarrow>
      (\<exists>kvs. x = JObj kvs) \<and> (\<forall>(k, s)\<in>set fs. documented u d s (get_prop k x) \<noteq> None)" for fs x
    using documented_object [of u d fs x] by blast
  note facts = opt meta documented_text_some documented_kept(3) messagePrioritySchema_def MESSAGE_PRIORITIES_def
  show "documented u d createMessageEventV1PayloadSchema v \<noteq> None \<longleftrightarrow> payload_ok CreateMessageV1 v"
    unfolding createMessageEventV1PayloadSchema_def obj
    by (simp add: facts payload_ok_def del: documented.simps not_None_eq)
  show "documented u d createMessageEventV2PayloadSchema v \<noteq> None \<longleftrightarrow> payload_ok CreateMessageV2 v"
    unfolding createMessageEventV2PayloadSchema_def obj
    by (simp add: facts payload_ok_def del: documented.simps not_None_eq)
qed

lemma event_iff: "doc Z (EventRegistry t) raw \<noteq> None \<longleftrightarrow> event_ok Z t raw"
proof -
  have obj: "doc Z (ZObject fs) x \<noteq> None \<longleftrightarrow>
      (\<exists>kvs. x = JObj kvs) \<and> (\<forall>(k, s)\<in>set fs. doc Z s (get_prop k x) \<noteq> None)" for fs x
    using documented_object [of "is_uuid Z" "is_datetime Z" fs x] by blast
  have opt: "doc Z (ZOptional s) x \<noteq> None \<longleftrightarrow> x = JUndef \<or> doc Z s x \<noteq> None" for s x by simp
  note facts = payload_iff documented_kept [unfolded One_nat_def] opt serviceIdSchema_def SERVICE_IDS_def
    schemaVersionSchema_def SCHEMA_VERSIONS_def CreateMessageEvent_def CreateMessageEventNameV2_def
  show ?thesis
  proof (cases t)
    case CreateMessageV1
    show ?thesis
      unfolding CreateMessageV1 EventRegistry.simps v1_schema(1) obj v1_members_def
      by (simp add: facts event_ok_def del: documented.simps not_None_eq)
  next
    case CreateMessageV2
    show ?thesis
      unfolding CreateMessageV2 EventRegistry.simps v2_schema(1) obj v2_members_def
      by (simp add: facts event_ok_def del: documented.simps not_None_eq)
  qed
qed

lemma payload_result:
  "documented u d createMessageEventV1PayloadSchema v = Some pl \<Longrightarrow> get_prop k pl = payload_member CreateMessageV1 k v"
  "documented u d createMessageEventV2PayloadSchema v = Some pl \<Longrightarrow> get_prop k pl = payload_member CreateMessageV2 k v"
proof -
  show "get_prop k pl = payload_member CreateMessageV1 k v"
    if a: "documented u d createMessageEventV1PayloadSchema v = Some pl"
  proof (cases "k \<in> {''subject'', ''content'', ''recipient''}")
    case True
    then show ?thesis using v1_payload_members [OF a] by (auto simp: payload_member_def)
  next
    case False
    then have "get_prop k pl = JUndef"
      by (intro documented_drops [OF a [unfolded createMessageEventV1PayloadSchema_def]]) auto
    then show ?thesis using False by (simp add: payload_member_def)
  qed
  show "get_prop k pl = payload_member CreateMessageV2 k v"
    if a: "documented u d createMessageEventV2PayloadSchema v = Some pl"
  proof -
    note member = documented_member [OF a [unfolded createMessageEventV2PayloadSchema_def]]
    have p: "documented u d (ZDefault messagePrioritySchema (JStr ''normal'')) (get_prop ''priority'' v)
        = Some (get_prop ''priority'' pl)" by (rule member) simp_all
    have m: "documented u d (ZDefault messageMetadataSchema (JObj [])) (get_prop ''metadata'' v)
        = Some (get_prop ''metadata'' pl)" by (rule member) simp_all
    consider "k \<in> {''subject'', ''content'', ''recipient''}" | "k = ''priority''" | "k = ''metadata''"
      | "k \<notin> {''subject'', ''content'', ''recipient''}" "k \<noteq> ''priority''" "k \<noteq> ''metadata''" by argo
    then show ?thesis
    proof cases
      case 1
      then show ?thesis using v2_payload_members [OF a] by (auto simp: payload_member_def)
    next
      case 2
      then show ?thesis
        using p unfolding documented_option messagePrioritySchema_def
        by (auto simp: payload_member_def default_to_def dest: documented_same(4) split: if_splits simp del: documented.simps)
    next
      case 3
      then show ?thesis
        using m unfolding documented_option documented_metadata
        by (auto simp: payload_member_def default_to_def split: if_splits)
    next
      case 4
      then have "get_prop k pl = JUndef"
        by (intro documented_drops [OF a [unfolded createMessageEventV2PayloadSchema_def]]) auto
      then show ?thesis using 4 by (simp add: payload_member_def)
    qed
  qed
qed

lemma event_result:
  assumes "doc Z (EventRegistry t) raw = Some ev"
  shows "normalised t raw ev"
proof -
  obtain ms where ms: "EventRegistry t = ZObject ms"
    "fst ` set ms = {''eventId'', ''correlationId'', ''timestamp'', ''source'', ''trace'', ''schemaVersion'', ''type'', ''payload''}"
    by (cases t) (auto simp: v1_schema(1) v2_schema(1) v1_members_def v2_members_def intro: that)
  have drops: "get_prop k ev = JUndef"
    if "k \<notin> {''eventId'', ''correlationId'', ''timestamp'', ''source'', ''trace'', ''schemaVersion'', ''type'', ''payload''}" for k
    using documented_drops [OF assms [unfolded ms(1)], of k] that unfolding ms(2) by blast
  have env: "envelope_ok Z raw ev"
    using assms v1_valid v2_valid by (cases t) auto
  have pay: "get_prop k (get_prop ''payload'' ev) = payload_member t k (get_prop ''payload'' raw)" for k
    using assms v1_valid [of Z raw ev] v2_valid [of Z raw ev] payload_result by (cases t) auto
  show ?thesis unfolding normalised_def
  proof (intro conjI allI impI)
    fix k :: string assume "k \<noteq> ''payload''"
    then show "get_prop k ev =
        (if k \<in> {''eventId'', ''correlationId'', ''timestamp'', ''source'', ''trace'', ''schemaVersion'', ''type''}
         then get_prop k raw else JUndef)"
      using env drops [of k] unfolding envelope_ok_def by auto
  qed (rule pay)
qed

text \<open>
  C26: Validation accepts exactly the contract. An event is accepted if and only if it is an object with: UUIDs as
  event and correlation id, a datetime, a known service as source and a trace of known services that is
  not empty, the type asked for, a version that the contract allows, and a payload with a subject of 1 to 255
  characters, a content that is not empty, no recipient or one of at most 255 characters, and for version 2 no
  priority or one of three and no metadata or at most 20 entries with keys of 1 to 256 and values of at most 256
  characters. The accepted event has the known members as they were, the default priority and metadata of
  version 2 where they are missing, and no other member, neither has its payload. A refused event
  comes with at least one failure, and every failure names a path.
\<close>

theorem validation_spec:
  assumes "zod_documented Z"
  shows "case validateEvent Z t raw of
      Inr ev \<Rightarrow> event_ok Z t raw \<and> normalised t raw ev
    | Inl errs \<Rightarrow> \<not> event_ok Z t raw \<and> errs \<noteq> [] \<and> (\<forall>(p, m)\<in>set errs. p \<noteq> '''')"
proof (cases "validateEvent Z t raw")
  case (Inl errs)
  then obtain iss where i: "zparse Z (EventRegistry t) raw = Inl iss" "errs = map issue_detail iss"
    by (auto simp: validateEvent_def split: sum.splits)
  then have "\<not> event_ok Z t raw" using zparse_invalid [OF assms i(1)] event_iff [of Z t raw] by simp
  with zparse_invalid [OF assms i(1)] i(2) Inl show ?thesis by (fastforce simp: issue_detail_def Let_def)
next
  case (Inr ev)
  then have d: "doc Z (EventRegistry t) raw = Some ev" by (simp add: validateEvent_iff [OF assms])
  then have "event_ok Z t raw" using event_iff [of Z t raw] by simp
  with event_result [OF d] Inr show ?thesis by simp
qed

theorem validation_spec_witness:
  "\<exists>ev. validateEvent sample_zod CreateMessageV1 sample_v1 = Inr ev \<and> event_ok sample_zod CreateMessageV1 sample_v1 \<and>
     get_prop ''subject'' (get_prop ''payload'' ev) = JStr ''s'' \<and> get_prop ''priority'' (get_prop ''payload'' ev) = JUndef"
proof -
  obtain ev where ev: "validateEvent sample_zod CreateMessageV1 sample_v1 = Inr ev"
    using sample_v1_valid by blast
  with validation_spec [OF sample_zod_documented, where t = CreateMessageV1 and raw = sample_v1]
  show ?thesis by (auto simp: normalised_def payload_member_def sample_v1_def)
qed

end
