(* ===== verification/Messaging_Controller.thy ===== *)
theory Messaging_Controller
  imports Idempotency Retry_Publisher Contracts
begin

text \<open>
  The consumer of the work queue: \<open>apps/messaging/src/messaging.controller.ts\<close>. A delivery ends
  acknowledged, requeued or dead-lettered, or stays unsettled when an error escapes the handler.
  Loggers and span events are left out; they return nothing and do not throw.
\<close>

section \<open>Deliveries\<close>

record delivery =
  deliveryTag :: int
  d_content :: string
  d_headers :: "(string \<times> jsval) list option"

definition headers_of :: "delivery \<Rightarrow> (string \<times> jsval) list" where
  "headers_of d = or_else (d_headers d) []"

definition readRetryCount :: "delivery \<Rightarrow> int" where
  "readRetryCount d = or_else (as_number (get_prop ''x-retry-count'' (JObj (headers_of d)))) 0"

definition readSchemaVersionHeader :: "delivery \<Rightarrow> jsval" where
  "readSchemaVersionHeader d = get_prop SCHEMA_VERSION_HEADER (JObj (headers_of d))"

definition extractIdentifiersForRejection :: "jsval \<Rightarrow> string \<times> string" where
  "extractIdentifiersForRejection raw =
     (let r = (if is_object raw then raw else JObj []);
          read = (\<lambda>k. if has_prop k r then or_else (as_string (get_prop k r)) ''unknown'' else ''unknown'')
      in (read ''eventId'', read ''correlationId''))"

text \<open>
  Settling a delivery writes to the channel, and throws without writing on a channel that is
  closed.
\<close>

definition channel_ack :: "delivery \<Rightarrow> (messaging_mem, unit) io" where
  "channel_ack d = andThen external (modify (\<lambda>m. m\<lparr>settled := settled m @ [Ack (deliveryTag d)]\<rparr>))"

definition channel_nack :: "delivery \<Rightarrow> bool \<Rightarrow> (messaging_mem, unit) io" where
  "channel_nack d requeue = andThen external
     (modify (\<lambda>m. m\<lparr>settled := settled m @ [Nack (deliveryTag d) requeue]\<rparr>))"

section \<open>The legacy handler\<close>

text \<open>\<open>data.subject\<close>, \<open>data.content\<close> and \<open>data.correlationId\<close>, strings when they are given.\<close>

definition handleTestRabbit :: "string option \<Rightarrow> string option \<Rightarrow> string option \<Rightarrow> delivery \<Rightarrow>
    (messaging_mem, message_row) io" where
  "handleTestRabbit subject body corr d =
     (let correlationId = or_else corr ''unknown'' in bind now_ms (\<lambda>started.
       catching
         (bind (handleMessageCreation subject body (Some correlationId)) (\<lambda>result.
            andThen (count_metric (processed_metric ''messaging'' ''test-rabbit'' ''success''))
              (andThen (end_timer ''messaging'' started ''test-rabbit'' ''success'')
                (andThen (channel_ack d) (ret result)))))
         (\<lambda>error. andThen (count_metric (failed_metric ''messaging'' ''test-rabbit'' PERMANENT))
            (andThen (end_timer ''messaging'' started ''test-rabbit'' ''failure'')
              (andThen (channel_nack d False) (throw error))))))"

section \<open>The contract-driven handler\<close>

datatype handler_result = Nothing | NullResult | PersistedMessage message_row

text \<open>What arrives with a delivery: the version it claims and the schema that goes with it.\<close>

definition delivery_version :: "jsval \<Rightarrow> delivery \<Rightarrow> string" where
  "delivery_version data d = resolveSchemaVersion
     \<lparr>src_envelope = data, src_header = readSchemaVersionHeader d, src_type = JUndef\<rparr>"

definition delivery_type :: "jsval \<Rightarrow> delivery \<Rightarrow> EventType" where
  "delivery_type data d = (if delivery_version data d = ''2'' then CreateMessageV2 else CreateMessageV1)"

text \<open>Step 2, for data that does not validate: reported and acknowledged.\<close>

definition reject_invalid :: "string \<Rightarrow> jsval \<Rightarrow> (string \<times> string) list \<Rightarrow> delivery \<Rightarrow>
    (messaging_mem, handler_result) io" where
  "reject_invalid name data errors d =
     (let (eventId, correlationId) = extractIdentifiersForRejection data in
      andThen (count_metric (failed_metric ''messaging'' name VALIDATION))
        (andThen (lc_publish Rejected name eventId correlationId errors)
          (andThen (channel_ack d) (ret Nothing))))"

text \<open>Members of the validated event that the handler passes on as strings.\<close>

definition event_string :: "string \<Rightarrow> jsval \<Rightarrow> string" where
  "event_string k event = js_String (get_prop k event)"

definition payload_string :: "string \<Rightarrow> jsval \<Rightarrow> string option" where
  "payload_string k event = as_string (get_prop k (get_prop ''payload'' event))"

text \<open>Step 4: the idempotent write, the report, the counter, the acknowledgement.\<close>

definition process_event :: "string \<Rightarrow> int \<Rightarrow> jsval \<Rightarrow> delivery \<Rightarrow> (messaging_mem, handler_result) io" where
  "process_event name started event d =
     (let eventId = event_string ''eventId'' event; correlationId = event_string ''correlationId'' event in
      bind (handleMessageCreationIdempotent (payload_string ''subject'' event)
              (payload_string ''content'' event) eventId name (Some correlationId)) (\<lambda>outcome.
        case outcome of
          None \<Rightarrow>
            andThen (count_metric (processed_metric ''messaging'' name ''duplicate''))
              (andThen (end_timer ''messaging'' started name ''duplicate'')
                (andThen (clearAttempts eventId)
                  (andThen (channel_ack d) (ret NullResult))))
        | Some persisted \<Rightarrow>
            andThen (count_metric (processed_metric ''messaging'' name ''success''))
              (andThen (end_timer ''messaging'' started name ''success'')
                (andThen (lc_publish Persisted name eventId correlationId [])
                  (andThen (clearAttempts eventId)
                    (andThen (channel_ack d) (ret (PersistedMessage persisted))))))))"

text \<open>Step 5: the headers of a retry, and the decision between retry and dead letter queue.\<close>

definition retry_headers :: "delivery \<Rightarrow> string \<Rightarrow> int \<Rightarrow> string \<Rightarrow> ErrorClass \<Rightarrow> string \<Rightarrow>
    (string \<times> jsval) list" where
  "retry_headers d correlationId nextAttempt errorMessage cls nowText =
     (let given = JObj (headers_of d) in spread (headers_of d)
       [(''x-retry-count'', JNum nextAttempt),
        (''x-first-error'', nullish (get_prop ''x-first-error'' given) (JStr errorMessage)),
        (''x-error-class'', JStr (class_name cls)),
        (''x-failed-at'', nullish (get_prop ''x-failed-at'' given) (JStr nowText)),
        (''x-correlation-id'', JStr correlationId)])"

definition handle_failure :: "zod \<Rightarrow> string \<Rightarrow> int \<Rightarrow> jsval \<Rightarrow> int \<Rightarrow> delivery \<Rightarrow> jsval \<Rightarrow>
    (messaging_mem, handler_result) io" where
  "handle_failure Z name started event durableAttemptCount d error =
     (let cls = classifyError error; errorMessage = err_message error;
          correlationId = event_string ''correlationId'' event; nextAttempt = readRetryCount d + 1 in
      bind now_ms (\<lambda>now. andThen (count_metric (failed_metric ''messaging'' name cls))
        (if cls = TRANSIENT \<and> durableAttemptCount < MAX_ATTEMPTS RETRY_CONFIG
         then bind (catching
                  (andThen (publishToRetry (d_content d)
                      (retry_headers d correlationId nextAttempt errorMessage cls (toISOString Z now))
                      nextAttempt (Some correlationId)) (ret True))
                  (\<lambda>publishErr. andThen (channel_nack d True)
                     (andThen (end_timer ''messaging'' started name ''failure'') (ret False))))
                (\<lambda>scheduled. if \<not> scheduled then ret Nothing
                  else andThen (channel_ack d)
                    (andThen (count_metric (Inc ''retry_count_total''
                        [(''service'', ''messaging''), (''attempt'', show_int nextAttempt)]))
                      (andThen (end_timer ''messaging'' started name ''retry'') (ret Nothing))))
         else andThen (end_timer ''messaging'' started name ''dlq'')
                (andThen (channel_nack d False) (ret Nothing)))))"

text \<open>Steps 3 to 5 for a valid event; an error of \<open>recordAttempt\<close> or the upcast escapes.\<close>

definition handle_valid :: "zod \<Rightarrow> string \<Rightarrow> int \<Rightarrow> jsval \<Rightarrow> delivery \<Rightarrow> (messaging_mem, handler_result) io" where
  "handle_valid Z name started event d =
     (let eventId = event_string ''eventId'' event; correlationId = event_string ''correlationId'' event in
      bind (recordAttempt eventId) (\<lambda>durableAttemptCount.
        andThen (lc_publish Received name eventId correlationId [])
          (andThen (lc_publish Validated name eventId correlationId [])
            (catching (process_event name started event d)
              (handle_failure Z name started event durableAttemptCount d)))))"

definition handleMessage :: "zod \<Rightarrow> jsval \<Rightarrow> delivery \<Rightarrow> (messaging_mem, handler_result) io" where
  "handleMessage Z data d =
     (let ty = delivery_type data d; name = event_name ty in bind now_ms (\<lambda>started.
       case validateEvent Z ty data of
         Inl errors \<Rightarrow> reject_invalid name data errors d
       | Inr valid \<Rightarrow> bind
           (if ty = CreateMessageV2 then ret valid else lift_sum (upcastCreateMessageEventV1ToV2 Z valid))
           (\<lambda>event. handle_valid Z name started event d)))"

section \<open>Frames\<close>

text \<open>A run that settles nothing and publishes nothing.\<close>

definition quiet :: "messaging_mem world \<Rightarrow> messaging_mem world \<Rightarrow> bool" where
  "quiet w w' \<longleftrightarrow> outcomes w' = outcomes w \<and> otel_inject w' = otel_inject w \<and> settled (mem w') = settled (mem w) \<and>
     published (mem w') = published (mem w) \<and> confirmed (mem w') = confirmed (mem w)"

lemma quiet_refl [simp]: "quiet w w"
  by (simp add: quiet_def)

lemma quiet_trans: "quiet a b \<Longrightarrow> quiet b c \<Longrightarrow> quiet a c"
  by (simp add: quiet_def)

lemma quiet_noise: "quiet w w' \<Longrightarrow> unique_noise w' = unique_noise w"
  by (simp add: quiet_def unique_noise_def outside_errors_def)

lemma quiet_db_frame:
  fixes w w' :: "messaging_mem world"
  assumes "db_frame w w'"
  shows "quiet w w'"
proof -
  let ?m = "(mem w')\<lparr>committed := committed (mem w), open_tx := open_tx (mem w), seqs := seqs (mem w)\<rparr>"
  have m: "?m = mem w" using assms by (simp add: db_frame_def)
  have "settled ?m = settled (mem w')" "published ?m = published (mem w')"
    "confirmed ?m = confirmed (mem w')" by simp_all
  then show ?thesis using assms by (simp add: m quiet_def db_frame_def)
qed

lemma above_client:
  fixes m m' :: messaging_mem
  assumes "amqp_client.more m' = amqp_client.more m"
  shows "committed m' = committed m" "settled m' = settled m"
  using assms by (cases m; cases m'; simp)+

lemma above_lifecycle:
  fixes m m' :: messaging_mem
  assumes "lifecycle_mem.more m' = lifecycle_mem.more m"
  shows "committed m' = committed m" "settled m' = settled m"
  using assms by (cases m; cases m'; simp)+

lemma quiet_lc_frame:
  fixes w w' :: "messaging_mem world"
  assumes "lc_frame w w'"
  shows "quiet w w' \<and> committed (mem w') = committed (mem w)"
  using assms above_lifecycle [of "mem w'" "mem w"]
  by (simp add: lc_frame_def same_service_def quiet_def)

lemma quiet_metric [simp]:
  "quiet w0 (w\<lparr>mem := (mem w)\<lparr>svc_metrics := x\<rparr>\<rparr>) = quiet w0 w"
  by (simp add: quiet_def)

section \<open>The steps of the handler\<close>

text \<open>What the handler has done when it returns: one settlement, after whatever justifies it.\<close>

definition acked :: "messaging_mem world \<Rightarrow> delivery \<Rightarrow> messaging_mem world \<Rightarrow> bool" where
  "acked w d w' \<longleftrightarrow> outcomes w' = outcomes w \<and> otel_inject w' = otel_inject w \<and> published (mem w') = published (mem w) \<and>
     settled (mem w') = settled (mem w) @ [Ack (deliveryTag d)]"

lemma wp_channel_ack:
  "quiet w0 w \<Longrightarrow> wp (channel_ack d) (\<lambda>_ w'. acked w0 d w' \<and> committed (mem w') = committed (mem w)) (\<lambda>_. quiet w0) w"
  by (auto simp: channel_ack_def wp_eqs acked_def quiet_def split: outcome.split)

lemma wp_finish:
  assumes "quiet w0 v" "P (processed_ids (committed (mem v)))"
  shows "wp (andThen (clearAttempts e) (andThen (channel_ack d) (ret x)))
    (\<lambda>_ w'. acked w0 d w' \<and> P (processed_ids (committed (mem w')))) (\<lambda>_. quiet w0) v"
  unfolding wp_andThen
proof (rule wp_mono [OF wp_clearAttempts])
  fix u v' assume c: "db_frame v v' \<and> same_business (committed (mem v)) (committed (mem v')) \<and>
    (\<lambda>e'. find_attempts e' (committed (mem v'))) = (\<lambda>e'. find_attempts e' (committed (mem v)))(e := 0)"
  then have "quiet w0 v'" using assms(1) quiet_db_frame quiet_trans by blast
  moreover have "processed_ids (committed (mem v')) = processed_ids (committed (mem v))"
    using c by (simp add: same_business_def processed_ids_def)
  ultimately show "wp (channel_ack d) (\<lambda>_. wp (ret x)
      (\<lambda>_ w'. acked w0 d w' \<and> P (processed_ids (committed (mem w')))) (\<lambda>_. quiet w0)) (\<lambda>_. quiet w0) v'"
    by (intro wp_mono [OF wp_channel_ack]) (use assms(2) in \<open>auto simp: wp_ret\<close>)
qed (use assms(1) quiet_db_frame quiet_trans in blast)

lemma wp_handleIdem:
  "wp (handleMessageCreationIdempotent s b e t c)
    (\<lambda>x w'. quiet w w' \<and> idempotent_post s b e t c w (Some x) (committed (mem w')))
    (\<lambda>_ w'. quiet w w' \<and> idempotent_post s b e t c w None (committed (mem w'))) w"
  by (rule wp_mono [OF wp_handleMessageCreationIdempotent]) (auto intro: quiet_db_frame)

lemma idempotent_post_processed:
  "idempotent_post s b e t c w (Some x) d' \<Longrightarrow> e \<in> processed_ids d' \<or> unique_noise w"
  by (auto simp: idempotent_post_def written_once_def processed_ids_def split: option.splits)

lemma wp_process_event:
  "wp (process_event name t0 ev d)
    (\<lambda>_ w'. acked w d w' \<and>
       (event_string ''eventId'' ev \<in> processed_ids (committed (mem w')) \<or> unique_noise w))
    (\<lambda>_. quiet w) w"
  unfolding process_event_def Let_def wp_bind [of "handleMessageCreationIdempotent _ _ _ _ _"]
proof (rule wp_mono [OF wp_handleIdem])
  fix x v
  let ?e = "event_string ''eventId'' ev" and ?c = "event_string ''correlationId'' ev"
  assume post: "quiet w v \<and> idempotent_post (payload_string ''subject'' ev) (payload_string ''content'' ev)
    ?e name (Some ?c) w (Some x) (committed (mem v))"
  let ?P = "\<lambda>ids. ?e \<in> ids \<or> unique_noise w"
  have P: "quiet w v" "?P (processed_ids (committed (mem v)))"
    using post idempotent_post_processed by blast+
  have pub: "wp (lc_publish Persisted name ?e ?c []) (\<lambda>_. wp (andThen (clearAttempts ?e)
        (andThen (channel_ack d) (ret y)))
      (\<lambda>_ w'. acked w d w' \<and> ?P (processed_ids (committed (mem w')))) (\<lambda>_. quiet w)) (\<lambda>_. quiet w) u"
    if "quiet w u" "?P (processed_ids (committed (mem u)))" for u y
  proof (rule wp_lc_publish)
    fix u' assume "lc_frame u u'"
    from quiet_lc_frame [OF this] that have "quiet w u'" "?P (processed_ids (committed (mem u')))"
      by (auto intro: quiet_trans)
    then show "wp (andThen (clearAttempts ?e) (andThen (channel_ack d) (ret y)))
        (\<lambda>_ w'. acked w d w' \<and> ?P (processed_ids (committed (mem w')))) (\<lambda>_. quiet w) u'"
      by (rule wp_finish [where P = ?P])
  qed
  show "wp (case x of
          None \<Rightarrow> andThen (count_metric (processed_metric ''messaging'' name ''duplicate''))
              (andThen (end_timer ''messaging'' t0 name ''duplicate'')
                (andThen (clearAttempts ?e) (andThen (channel_ack d) (ret NullResult))))
        | Some persisted \<Rightarrow> andThen (count_metric (processed_metric ''messaging'' name ''success''))
              (andThen (end_timer ''messaging'' t0 name ''success'')
                (andThen (lc_publish Persisted name ?e ?c [])
                  (andThen (clearAttempts ?e)
                    (andThen (channel_ack d) (ret (PersistedMessage persisted)))))))
      (\<lambda>_ w'. acked w d w' \<and> ?P (processed_ids (committed (mem w')))) (\<lambda>_. quiet w) v"
  proof (cases x)
    case None
    show ?thesis unfolding None option.case
      by (simp add: wp_andThen [of "count_metric _"] wp_andThen [of "end_timer _ _ _ _"] wp_count_metric wp_end_timer)
        (intro wp_finish [where P = ?P], use P in auto)
  next
    case (Some m)
    show ?thesis unfolding Some option.case
      by (simp add: wp_andThen [of "count_metric _"] wp_andThen [of "end_timer _ _ _ _"]
          wp_andThen [of "lc_publish _ _ _ _ _"] wp_count_metric wp_end_timer)
        (intro pub, use P in auto)
  qed
qed simp

text \<open>A retry copy of the delivery that the broker has confirmed.\<close>

definition carries_headers :: "delivery \<Rightarrow> messaging_mem world \<Rightarrow> amqp_message \<Rightarrow> bool" where
  "carries_headers d w msg \<longleftrightarrow> (\<forall>k. k \<notin> fst ` set (otel_inject w None) \<and>
     k \<notin> {''x-retry-count'', ''x-first-error'', ''x-error-class'', ''x-failed-at'', ''x-correlation-id''} \<longrightarrow>
     map_of (m_headers msg) k = map_of (headers_of d) k)"

definition retry_scheduled :: "delivery \<Rightarrow> messaging_mem world \<Rightarrow> messaging_mem world \<Rightarrow> bool" where
  "retry_scheduled d w w' \<longleftrightarrow> (\<exists>ch msg. published (mem w') = published (mem w) @ [(ch, msg)] \<and>
     confirmed_since w w' (ch, msg) \<and> carries_headers d w msg \<and> m_exchange msg = ex_MAIN EXCHANGES \<and>
     m_routingKey msg = rk_RETRY ROUTING_KEYS \<and> m_body msg = JBuf (d_content d) \<and>
     m_expiration msg = Some (show_ms (retryDelayMs (readRetryCount d + 1))))"

text \<open>How a failed delivery is settled when \<open>n\<close> attempts are on record.\<close>

definition failure_settled :: "delivery \<Rightarrow> int \<Rightarrow> messaging_mem world \<Rightarrow> messaging_mem world \<Rightarrow> bool" where
  "failure_settled d n w w' \<longleftrightarrow> outcomes w' = outcomes w \<and> otel_inject w' = otel_inject w \<and> (\<exists>s. settled (mem w') = settled (mem w) @ [s] \<and>
     (if n < MAX_ATTEMPTS RETRY_CONFIG
      then s = Ack (deliveryTag d) \<and> retry_scheduled d w w' \<or>
           s = Nack (deliveryTag d) True \<or>
           s = Nack (deliveryTag d) False \<and> published (mem w') = published (mem w)
      else s = Nack (deliveryTag d) False \<and> published (mem w') = published (mem w)))"

definition unsettled :: "int \<Rightarrow> messaging_mem world \<Rightarrow> messaging_mem world \<Rightarrow> bool" where
  "unsettled n w w' \<longleftrightarrow> outcomes w' = outcomes w \<and> otel_inject w' = otel_inject w \<and> settled (mem w') = settled (mem w) \<and>
     (MAX_ATTEMPTS RETRY_CONFIG \<le> n \<longrightarrow> published (mem w') = published (mem w))"

lemma client_frame_service:
  fixes w w' :: "messaging_mem world"
  shows "client_frame w w' \<Longrightarrow> outcomes w' = outcomes w \<and> otel_inject w' = otel_inject w \<and> settled (mem w') = settled (mem w) \<and>
    committed (mem w') = committed (mem w)"
  using above_client [of "mem w'" "mem w"] by (simp add: client_frame_def)

lemma retry_copy_carries:
  "carries_headers d w (retry_copy text (retry_headers d corr k msg cls t) n w)"
  by (auto simp: carries_headers_def retry_copy_def retry_message_def retry_headers_def map_of_spread
      map_add_def Let_def image_iff split: option.split dest!: map_of_SomeD) force?

lemma wp_retry_branch:
  fixes w :: "messaging_mem world"
  assumes "n < MAX_ATTEMPTS RETRY_CONFIG" "quiet w v" "hs = retry_headers d corr k msg cls t"
  shows "wp (bind (catching
                  (andThen (publishToRetry (d_content d) hs (readRetryCount d + 1) c) (ret True))
                  (\<lambda>publishErr. andThen (channel_nack d True)
                     (andThen (end_timer ''messaging'' t0 name ''failure'') (ret False))))
                (\<lambda>scheduled. if \<not> scheduled then ret Nothing
                  else andThen (channel_ack d)
                    (andThen (count_metric metric) (andThen (end_timer ''messaging'' t0 name ''retry'') (ret Nothing)))))
    (\<lambda>_. failure_settled d n w) (\<lambda>_. unsettled n w) v"
  unfolding wp_bind [of "catching _ _"] wp_catch wp_andThen [of "publishToRetry _ _ _ _"]
proof (rule wp_mono [OF publishToRetry_effect])
  fix u v' assume v': "client_frame v v' \<and> (\<exists>ch.
       published (mem v') = published (mem v) @ [(ch, retry_copy (d_content d) hs (readRetryCount d + 1) v)] \<and>
       confirmed_since v v' (ch, retry_copy (d_content d) hs (readRetryCount d + 1) v))"
  then have "retry_scheduled d w v'" "outcomes v' = outcomes w" "otel_inject v' = otel_inject w" "settled (mem v') = settled (mem w)"
    using assms(2) client_frame_service [of v v']
    using retry_copy_carries [of d v "d_content d" corr k msg cls t "readRetryCount d + 1"]
    by (auto simp: retry_scheduled_def carries_headers_def retry_copy_def retry_message_def quiet_def
        confirmed_since_def assms(3))
  then show "wp (ret True)
      (\<lambda>x. wp (if \<not> x then ret Nothing else andThen (channel_ack d)
         (andThen (count_metric metric) (andThen (end_timer ''messaging'' t0 name ''retry'') (ret Nothing))))
         (\<lambda>_. failure_settled d n w) (\<lambda>_. unsettled n w))
      (\<lambda>e. wp (andThen (channel_nack d True) (andThen (end_timer ''messaging'' t0 name ''failure'') (ret False)))
         (\<lambda>x. wp (if \<not> x then ret Nothing else andThen (channel_ack d)
         (andThen (count_metric metric) (andThen (end_timer ''messaging'' t0 name ''retry'') (ret Nothing))))
           (\<lambda>_. failure_settled d n w) (\<lambda>_. unsettled n w)) (\<lambda>_. unsettled n w)) v'"
    using assms(1)
    by (auto simp: wp_eqs channel_ack_def failure_settled_def retry_scheduled_def unsettled_def
        confirmed_since_def split: outcome.split)
next
  fix e v' assume "client_frame v v' \<and> (published (mem v') = published (mem v) \<or>
       (\<exists>ch. published (mem v') = published (mem v) @ [(ch, retry_copy (d_content d) hs (readRetryCount d + 1) v)]))"
  then have "outcomes v' = outcomes w" "otel_inject v' = otel_inject w" "settled (mem v') = settled (mem w)"
    using assms(2) client_frame_service [of v v'] by (simp_all add: quiet_def)
  then show "wp (andThen (channel_nack d True) (andThen (end_timer ''messaging'' t0 name ''failure'') (ret False)))
         (\<lambda>x. wp (if \<not> x then ret Nothing else andThen (channel_ack d)
         (andThen (count_metric metric) (andThen (end_timer ''messaging'' t0 name ''retry'') (ret Nothing))))
           (\<lambda>_. failure_settled d n w) (\<lambda>_. unsettled n w)) (\<lambda>_. unsettled n w) v'"
    using assms(1)
    by (auto simp: wp_eqs channel_nack_def failure_settled_def unsettled_def split: outcome.split)
qed

lemma wp_handle_failure:
  fixes w :: "messaging_mem world"
  assumes "quiet w v"
  shows "wp (handle_failure Z name t0 ev n d err)
    (\<lambda>_. failure_settled d n w) (\<lambda>_. unsettled n w) v"
proof -
  have dlq: "wp (andThen (end_timer ''messaging'' t0 name ''dlq'') (andThen (channel_nack d False) (ret Nothing)))
      (\<lambda>_. failure_settled d n w) (\<lambda>_. unsettled n w) v'" if "quiet w v'" for v'
    using that by (auto simp: wp_eqs channel_nack_def failure_settled_def unsettled_def quiet_def
        split: outcome.split)
  show ?thesis
    unfolding handle_failure_def Let_def wp_bind [of now_ms] wp_now_ms wp_andThen [of "count_metric _"]
      wp_count_metric wp_if
    using dlq wp_retry_branch [OF _ _ refl] assms by simp
qed

definition attempt_number :: "jsval \<Rightarrow> messaging_mem world \<Rightarrow> int" where
  "attempt_number ev w = find_attempts (event_string ''eventId'' ev) (committed (mem w)) + 1"

definition handled :: "jsval \<Rightarrow> delivery \<Rightarrow> messaging_mem world \<Rightarrow> messaging_mem world \<Rightarrow> bool" where
  "handled ev d w w' \<longleftrightarrow>
     (acked w d w' \<and> (event_string ''eventId'' ev \<in> processed_ids (committed (mem w')) \<or> unique_noise w)) \<or>
     failure_settled d (attempt_number ev w) w w'"

lemma wp_lc_quiet:
  assumes "quiet w0 w" "\<And>w'. quiet w0 w' \<Longrightarrow> Q () w'"
  shows "wp (lc_publish st ty i c errs) Q E w"
  by (rule wp_lc_publish) (use assms quiet_lc_frame quiet_trans in blast)

lemma acked_quiet: "quiet w v \<Longrightarrow> acked v d w' \<Longrightarrow> acked w d w'"
  by (simp add: acked_def quiet_def)

lemma wp_try_process:
  assumes "quiet w v"
  shows "wp (catching (process_event name t0 ev d) (handle_failure Z name t0 ev (attempt_number ev w) d))
    (\<lambda>_. handled ev d w) (\<lambda>_. unsettled (attempt_number ev w) w) v"
  unfolding wp_catch
proof (rule wp_mono [OF wp_process_event])
  fix x v' assume "acked v d v' \<and>
    (event_string ''eventId'' ev \<in> processed_ids (committed (mem v')) \<or> unique_noise v)"
  then show "handled ev d w v'"
    using acked_quiet [OF assms] quiet_noise [OF assms] by (auto simp: handled_def)
next
  fix e v' assume "quiet v v'"
  then have "quiet w v'" using assms quiet_trans by blast
  then show "wp (handle_failure Z name t0 ev (attempt_number ev w) d e)
      (\<lambda>_. handled ev d w) (\<lambda>_. unsettled (attempt_number ev w) w) v'"
    by (intro wp_mono [OF wp_handle_failure]) (auto simp: handled_def)
qed

lemma wp_handle_valid:
  "wp (handle_valid Z name t0 ev d)
    (\<lambda>_. handled ev d w) (\<lambda>_. unsettled (attempt_number ev w) w) w"
  unfolding handle_valid_def Let_def wp_bind
proof (rule wp_mono [OF wp_recordAttempt])
  fix n v assume "db_frame w v \<and> same_business (committed (mem w)) (committed (mem v)) \<and>
      n = find_attempts (event_string ''eventId'' ev) (committed (mem w)) + 1 \<and>
      (\<lambda>e'. find_attempts e' (committed (mem v))) =
        (\<lambda>e'. find_attempts e' (committed (mem w))) (event_string ''eventId'' ev := n)"
  then have q: "quiet w v" and n: "n = attempt_number ev w"
    by (auto simp: attempt_number_def intro: quiet_db_frame)
  show "wp (andThen (lc_publish Received name (event_string ''eventId'' ev) (event_string ''correlationId'' ev) [])
      (andThen (lc_publish Validated name (event_string ''eventId'' ev) (event_string ''correlationId'' ev) [])
        (catching (process_event name t0 ev d) (handle_failure Z name t0 ev n d))))
      (\<lambda>_. handled ev d w) (\<lambda>_. unsettled (attempt_number ev w) w) v"
    unfolding n wp_andThen by (rule wp_lc_quiet [OF q], rule wp_lc_quiet, assumption, rule wp_try_process)
next
  fix e v assume "db_frame w v \<and> same_business (committed (mem w)) (committed (mem v)) \<and>
    e \<in> outside_errors w \<and> (\<lambda>e'. find_attempts e' (committed (mem v))) \<in>
         {\<lambda>e'. find_attempts e' (committed (mem w)),
          (\<lambda>e'. find_attempts e' (committed (mem w))) (event_string ''eventId'' ev :=
             find_attempts (event_string ''eventId'' ev) (committed (mem w)) + 1)}"
  then have "quiet w v" using quiet_db_frame by blast
  then show "unsettled (attempt_number ev w) w v" by (simp add: unsettled_def quiet_def)
qed

text \<open>The event a delivery carries, in the one shape the handler works with.\<close>

definition accepted_event :: "zod \<Rightarrow> jsval \<Rightarrow> delivery \<Rightarrow> jsval option" where
  "accepted_event Z data d = (case validateEvent Z (delivery_type data d) data of
       Inl _ \<Rightarrow> None
     | Inr valid \<Rightarrow> if delivery_type data d = CreateMessageV2 then Some valid
         else (case upcastCreateMessageEventV1ToV2 Z valid of Inl _ \<Rightarrow> None | Inr ev \<Rightarrow> Some ev))"

lemma handleMessage_accepted:
  assumes "accepted_event Z data d = Some ev"
  shows "handleMessage Z data d w =
    handle_valid Z (event_name (delivery_type data d)) (clock w (calls w)) ev d w"
proof -
  obtain valid where v: "validateEvent Z (delivery_type data d) data = Inr valid"
    using assms by (auto simp: accepted_event_def split: sum.splits)
  show ?thesis
  proof (cases "delivery_type data d = CreateMessageV2")
    case True
    with assms v show ?thesis
      by (simp add: accepted_event_def handleMessage_def Let_def bind_def now_ms_def ret_def)
  next
    case False
    with assms v have "upcastCreateMessageEventV1ToV2 Z valid = Inr ev"
      by (auto simp: accepted_event_def split: sum.splits)
    with False v show ?thesis
      by (simp add: handleMessage_def Let_def bind_def now_ms_def ret_def lift_sum_def)
  qed
qed

lemma wp_reject_invalid:
  "wp (reject_invalid name data errs d)
    (\<lambda>r w'. r = Nothing \<and> acked w d w' \<and> committed (mem w') = committed (mem w)) (\<lambda>_. quiet w) w"
proof -
  have ack: "wp (andThen (channel_ack d) (ret Nothing))
      (\<lambda>r w'. r = Nothing \<and> acked w d w' \<and> committed (mem w') = committed (mem w)) (\<lambda>_. quiet w) v"
    if "quiet w v" "committed (mem v) = committed (mem w)" for v
    unfolding wp_andThen by (rule wp_mono [OF wp_channel_ack [OF that(1)]]) (use that(2) in \<open>auto simp: wp_ret\<close>)
  show ?thesis
    unfolding reject_invalid_def case_prod_beta Let_def wp_andThen [of "count_metric _"] wp_count_metric
      wp_andThen [of "lc_publish _ _ _ _ _"]
  proof (rule wp_lc_publish)
    fix w' assume "lc_frame (w\<lparr>mem := (mem w)\<lparr>svc_metrics := svc_metrics (mem w) @ [failed_metric ''messaging'' name VALIDATION]\<rparr>\<rparr>) w'"
    from quiet_lc_frame [OF this]
    show "wp (andThen (channel_ack d) (ret Nothing))
      (\<lambda>r w'. r = Nothing \<and> acked w d w' \<and> committed (mem w') = committed (mem w)) (\<lambda>_. quiet w) w'"
      by (intro ack) (simp_all add: quiet_def)
  qed
qed

section \<open>Properties\<close>

text \<open>
  C3: Every delivery is settled exactly once, and only with a reason. When the handler returns:
  invalid data is acknowledged, without a change to the database or a publish; a valid event is
  acknowledged only when it is in the processed ledger (or the outside produced an error that reads
  as a unique violation), or when a retry copy of the very content, with the next back-off delay,
  was published and confirmed; it is requeued only below the attempt limit; it is dead-lettered
  without any copy published. When an error escapes, the delivery is not settled at all, so the
  broker keeps it.
\<close>

theorem delivery_settled_once:
  "let (r, w') = handleMessage Z data d w; sett = settled (mem w); sett' = settled (mem w') in
   case r of
     Inl _ \<Rightarrow> sett' = sett
   | Inr _ \<Rightarrow> (case accepted_event Z data d of
       None \<Rightarrow> sett' = sett @ [Ack (deliveryTag d)] \<and> committed (mem w') = committed (mem w) \<and>
         published (mem w') = published (mem w)
     | Some ev \<Rightarrow> \<exists>s. sett' = sett @ [s] \<and>
         (s = Ack (deliveryTag d) \<and>
            (event_string ''eventId'' ev \<in> processed_ids (committed (mem w')) \<or> unique_noise w \<or>
             retry_scheduled d w w') \<or>
          s = Nack (deliveryTag d) True \<and> attempt_number ev w < MAX_ATTEMPTS RETRY_CONFIG \<or>
          s = Nack (deliveryTag d) False \<and> published (mem w') = published (mem w)))"
proof (cases "accepted_event Z data d")
  case (Some ev)
  show ?thesis
    using wp_handle_valid [of Z "event_name (delivery_type data d)" "clock w (calls w)" ev d w]
    by (auto simp: wp_def Some handleMessage_accepted [OF Some] handled_def acked_def
        failure_settled_def unsettled_def Let_def split: prod.splits sum.splits if_splits)
next
  case None
  have "handleMessage Z data d w = reject_invalid (event_name (delivery_type data d)) data errs d w"
    if "validateEvent Z (delivery_type data d) data = Inl errs" for errs
    using that by (simp add: handleMessage_def Let_def bind_def now_ms_def)
  moreover have "\<exists>e. handleMessage Z data d w = (Inl e, w)"
    if "validateEvent Z (delivery_type data d) data = Inr valid" for valid
    using that None by (auto simp: accepted_event_def handleMessage_def Let_def bind_def now_ms_def
        lift_sum_def throw_def split: if_splits sum.splits)
  ultimately show ?thesis
    using wp_reject_invalid [of "event_name (delivery_type data d)" data _ d w]
    by (cases "validateEvent Z (delivery_type data d) data")
      (fastforce simp: wp_def None acked_def quiet_def Let_def split: prod.splits sum.splits)+
qed

text \<open>A valid event on a validator that accepts everything, for concrete runs.\<close>

definition accepting_zod :: zod where
  "accepting_zod = \<lparr>zparse = \<lambda>_ v. Inr v, is_uuid = \<lambda>_. True, is_datetime = \<lambda>_. True, toISOString = show_int\<rparr>"

definition example_event :: jsval where
  "example_event = JObj [(''schemaVersion'', JStr ''2''), (''eventId'', JStr ''e''),
     (''correlationId'', JStr ''c''), (''payload'', JObj [(''subject'', JStr ''s''), (''content'', JStr ''b'')])]"

definition example_delivery :: delivery where
  "example_delivery = \<lparr>deliveryTag = 1, d_content = ''m'', d_headers = None\<rparr>"

lemma example_accepted: "accepted_event accepting_zod example_event d = Some example_event"
proof -
  have "readEnvelopeSchemaVersion example_event = Some ''2''"
    by (rule read_version [OF example_event_def]) (simp add: get_prop_def example_event_def)
  then show ?thesis
    by (simp add: accepted_event_def delivery_type_def delivery_version_def resolveSchemaVersion_def
        validateEvent_def accepting_zod_def)
qed

lemma example_strings [simp]:
  "event_string ''eventId'' example_event = ''e''" "event_string ''correlationId'' example_event = ''c''"
  by (simp_all add: event_string_def example_event_def get_prop_def)

text \<open>
  The retry budget is durable. From the delivery on that records attempt number five of an
  event, the handler publishes no further retry copy and requeues nothing, whatever the
  \<open>x-retry-count\<close> header of the delivery says: a requeued or replayed message cannot reset it.
\<close>

theorem durable_budget:
  assumes "accepted_event Z data d = Some ev" and "MAX_ATTEMPTS RETRY_CONFIG \<le> attempt_number ev w"
  shows "published (mem (snd (handleMessage Z data d w))) = published (mem w) \<and>
    Nack (deliveryTag d) True \<notin> set (drop (length (settled (mem w)))
      (settled (mem (snd (handleMessage Z data d w)))))"
  using wp_handle_valid [of Z "event_name (delivery_type data d)" "clock w (calls w)" ev d w] assms(2)
  by (auto simp: wp_def handleMessage_accepted [OF assms(1)] handled_def acked_def
      failure_settled_def unsettled_def Let_def split: prod.splits sum.splits if_splits)

theorem durable_budget_witness:
  "published (mem (snd (handleMessage accepting_zod example_event example_delivery
     (start_world (new_service (no_tables\<lparr>event_attempts :=
       [\<lparr>ea_eventId = ''e'', ea_attempts = 4, ea_updatedAt = 0\<rparr>]\<rparr>)))))) = []"
  using durable_budget [OF example_accepted [of example_delivery], of "start_world (new_service (no_tables\<lparr>event_attempts :=
       [\<lparr>ea_eventId = ''e'', ea_attempts = 4, ea_updatedAt = 0\<rparr>]\<rparr>))"]
  by (simp add: attempt_number_def new_service_def find_attempts_def RETRY_CONFIG_def)

text \<open>
  An attempt that cannot be recorded leaves the delivery unsettled: when the statement of
  \<open>recordAttempt\<close> fails, the error escapes the handler before the \<open>try\<close>, and the delivery is neither
  acknowledged nor rejected nor retried.
\<close>

theorem unrecorded_attempt_unsettled:
  assumes "accepted_event Z data d = Some ev" and "outcomes w (calls w) = Fails e"
  shows "\<exists>w'. handleMessage Z data d w = (Inl e, w') \<and> mem w' = mem w"
  using assms(2)
  by (simp add: handleMessage_accepted [OF assms(1)] handle_valid_def Let_def bind_def
      recordAttempt_def autocommit_def request_def case_prod_beta)

theorem unrecorded_attempt_unsettled_witness:
  "\<exists>w'. handleMessage accepting_zod example_event example_delivery
     ((start_world (new_service no_tables))\<lparr>outcomes := \<lambda>_. Fails JNull\<rparr>) = (Inl JNull, w') \<and>
   settled (mem w') = []"
  using unrecorded_attempt_unsettled [OF example_accepted [of example_delivery],
      of "(start_world (new_service no_tables))\<lparr>outcomes := \<lambda>_. Fails JNull\<rparr>" JNull]
  by (auto simp: new_service_def)

lemma db_frame_lc: 
  fixes w w' :: "messaging_mem world"
  assumes "db_frame w w'"
  shows "lc_enabled (mem w') = lc_enabled (mem w)"
proof -
  let ?m = "(mem w')\<lparr>committed := committed (mem w), open_tx := open_tx (mem w), seqs := seqs (mem w)\<rparr>"
  have m: "?m = mem w" using assms by (simp add: db_frame_def)
  have "lc_enabled ?m = lc_enabled (mem w')" by simp
  then show ?thesis by (simp add: m)
qed

lemma lc_publish_disabled: "\<not> lc_enabled (mem w) \<Longrightarrow> lc_publish st ty i c errs w = (Inr (), w)"
  by (simp add: lc_publish_def ensureChannel_def io_defs)

text \<open>
  C33: A persisted event can end in the dead letter queue. With tracing disabled, when the message of
  a valid event has been committed and the statement of \<open>clearAttempts\<close> then fails with an error that
  is not transient, the delivery is rejected without requeue, although its event is in the processed
  ledger.
\<close>

theorem persisted_yet_dead_lettered:
  assumes "accepted_event Z data d = Some ev" and "\<not> lc_enabled (mem w)"
    and attempt: "recordAttempt (event_string ''eventId'' ev) w = (Inr n, w1)"
    and written: "handleMessageCreationIdempotent (payload_string ''subject'' ev)
      (payload_string ''content'' ev) (event_string ''eventId'' ev) (event_name (delivery_type data d))
      (Some (event_string ''correlationId'' ev)) w1 = (Inr (Some m), w2)"
    and clear: "outcomes w2 (calls w2) = Fails e" "classifyError e \<noteq> TRANSIENT"
    and nack: "outcomes w2 (Suc (calls w2)) = Done"
  shows "\<exists>w'. handleMessage Z data d w = (Inr Nothing, w') \<and>
    settled (mem w') = settled (mem w) @ [Nack (deliveryTag d) False] \<and>
    event_string ''eventId'' ev \<in> processed_ids (committed (mem w'))"
proof -
  note f1 = wp_result [OF wp_recordAttempt attempt]
  note f2 = wp_result [OF wp_handleMessageCreationIdempotent written]
  from f1 f2 have fr: "db_frame w w1" "db_frame w1 w2" by blast+
  then have off: "\<not> lc_enabled (mem w1)" "\<not> lc_enabled (mem w2)" using assms(2) by (simp_all add: db_frame_lc)
  have sett: "settled (mem w2) = settled (mem w)"
    using quiet_db_frame [OF fr(1)] quiet_db_frame [OF fr(2)] by (simp add: quiet_def)
  have ids: "event_string ''eventId'' ev \<in> processed_ids (committed (mem w2))"
    using f2 by (auto simp: idempotent_post_def written_once_def processed_ids_def)
  show ?thesis
    using off clear nack sett ids
    by (simp add: handleMessage_accepted [OF assms(1)] handle_valid_def Let_def bind_def attempt andThen_def
        lc_publish_disabled catching_def process_event_def written count_metric_def end_timer_def now_ms_def
        modify_def ret_def clearAttempts_def autocommit_def request_def handle_failure_def channel_nack_def
        external_def)
qed

definition clear_fails_world :: "messaging_mem world" where
  "clear_fails_world = (start_world (new_service no_tables))
     \<lparr>outcomes := \<lambda>n. if n = 8 then Fails (new_Error ''query read timeout'') else Done\<rparr>"

theorem persisted_yet_dead_lettered_witness:
  "\<exists>w'. handleMessage accepting_zod example_event example_delivery clear_fails_world = (Inr Nothing, w') \<and>
    settled (mem w') = [Nack 1 False] \<and> ''e'' \<in> processed_ids (committed (mem w'))"
proof -
  let ?w = clear_fails_world
  obtain w1 where a: "recordAttempt ''e'' ?w = (Inr 1, w1)"
    and w1: "outcomes w1 = outcomes ?w" "calls w1 = 1" "committed (mem w1) = no_tables\<lparr>event_attempts :=
      [\<lparr>ea_eventId = ''e'', ea_attempts = 1, ea_updatedAt = 0\<rparr>]\<rparr>"
    by (simp add: recordAttempt_def autocommit_def request_def clear_fails_world_def new_service_def
        no_tables_def Let_def)
  have "\<exists>m w2. handleMessageCreationIdempotent s b ''e'' t c w1 = (Inr (Some m), w2) \<and>
      outcomes w2 = outcomes ?w \<and> calls w2 = 8" for s b t c
    using w1 by (simp add: handleMessageCreationIdempotent_def runIdempotentWithOutboxEvents_def begin_tx_def
      release_tx_def commit_tx_def rollback_tx_def idempotency_insert_def in_tx_def insert_processed_def
      insert_message_def next_id_def save_message_def insertOutboxEvents_def insert_outbox_def io_defs
      Let_def captureTraceContextCarrier_def clear_fails_world_def no_tables_def event_id_taken_def)
  then obtain m w2 where h: "handleMessageCreationIdempotent (payload_string ''subject'' example_event)
      (payload_string ''content'' example_event) ''e'' (event_name (delivery_type example_event example_delivery))
      (Some ''c'') w1 = (Inr (Some m), w2)" and w2: "outcomes w2 = outcomes ?w" "calls w2 = 8" by blast
  have perm: "classifyError (new_Error ''query read timeout'') \<noteq> TRANSIENT"
    by (simp add: classifyError_def new_Error_def get_prop_def code_in_def)
  show ?thesis
    using persisted_yet_dead_lettered [OF example_accepted [of example_delivery], of ?w 1 w1 m w2] a h w2 perm
    by (simp add: clear_fails_world_def new_service_def example_delivery_def)
qed

end
