(* ===== verification/Gateway_Controller.thy ===== *)
theory Gateway_Controller
  imports Outbox_Tx Contracts
begin

text \<open>
  The producer's HTTP endpoints: \<open>apps/gateway/src/app.controller.ts\<close>, behind the correlation-id
  middleware of \<open>libs/common/src/logger/correlation-id.middleware.ts\<close>. A request is accepted (202) with
  the result of the handler, or ends with the error it throws. Spans and loggers are left out:
  \<open>withSpan\<close> returns and throws what its function does.
\<close>

section \<open>Correlation ids\<close>

definition CORRELATION_ID_HEADER :: string where
  "CORRELATION_ID_HEADER = ''x-correlation-id''"

text \<open>The middleware: a header that is missing or empty is replaced by a new UUID.\<close>

definition correlation_middleware :: "(string \<times> jsval) list \<Rightarrow> ('d, (string \<times> jsval) list) io" where
  "correlation_middleware headers =
     (let given = get_prop CORRELATION_ID_HEADER (JObj headers) in
      bind (if given = JUndef \<or> given = JStr '''' then bind randomUUID (\<lambda>u. ret (JStr u)) else ret given)
        (\<lambda>correlationId. ret (AList.update CORRELATION_ID_HEADER correlationId headers)))"

definition request_correlation :: "(string \<times> jsval) list \<Rightarrow> jsval" where
  "request_correlation headers = get_prop CORRELATION_ID_HEADER (JObj headers)"

text \<open>The parameter decorator: the header's text, or the empty string.\<close>

definition correlation_decorator :: "(string \<times> jsval) list \<Rightarrow> string" where
  "correlation_decorator headers = or_else (as_string (request_correlation headers)) ''''"

section \<open>Endpoints\<close>

definition getRoot :: jsval where
  "getRoot = JObj [(''message'', JStr ''Welcome to the Messaging Showcase platform''),
     (''status'', JStr ''active''),
     (''endpoints'', JObj [(''api'', JStr ''/api''), (''testRabbit'', JStr ''/api/test-rabbit''),
        (''testRabbitV2'', JStr ''/api/test-rabbit-v2'')])]"

definition contract_violation :: "string \<Rightarrow> string \<Rightarrow> (string \<times> string) list \<Rightarrow> jsval" where
  "contract_violation eventType eventId errors = JErr ''BadRequestException''
     [(''status'', JStr ''rejected''), (''reason'', JStr ''event_contract_violation''),
      (''eventType'', JStr eventType), (''eventId'', JStr eventId),
      (''errors'', JArr (map (\<lambda>(p, m). JObj [(''path'', JStr p), (''message'', JStr m)]) errors))]"

definition accepted_response :: "EventType \<Rightarrow> jsval \<Rightarrow> jsval \<Rightarrow> outbox_row \<Rightarrow> jsval" where
  "accepted_response ty correlationId event row = JObj
     ([(''status'', JStr ''accepted''),
       (''message'', JStr ''Event durably persisted to the gateway outbox and will be delivered to RabbitMQ asynchronously''),
       (''correlationId'', correlationId), (''eventId'', get_prop ''eventId'' event),
       (''eventType'', JStr (event_name ty))] @
      (if ty = CreateMessageV2 then [(''schemaVersion'', get_prop ''schemaVersion'' event)] else []) @
      [(''outboxId'', JNum (row_id row))])"

definition outbox_input :: "EventType \<Rightarrow> jsval \<Rightarrow> jsval \<Rightarrow> OutboxEventInput" where
  "outbox_input ty correlationId event = \<lparr>in_eventType = event_name ty, in_payload = event,
     in_correlationId = as_string correlationId, in_eventId = as_string (get_prop ''eventId'' event),
     in_maxAttempts = None\<rparr>"

text \<open>What both endpoints do with the event they built.\<close>

definition emit_event :: "zod \<Rightarrow> EventType \<Rightarrow> jsval \<Rightarrow> int \<Rightarrow> jsval \<Rightarrow> (gateway_mem, jsval) io" where
  "emit_event Z ty correlationId started event =
     (let name = event_name ty; corr = js_String correlationId in
      case validateEvent Z ty event of
        Inl errors \<Rightarrow>
          (let eventId = js_String (get_prop ''eventId'' event) in
           andThen (count_metric (failed_metric ''gateway'' name VALIDATION))
             (andThen (end_timer ''gateway'' started name ''rejected'')
               (andThen (lc_publish Rejected name eventId corr errors)
                 (throw (contract_violation name eventId errors)))))
      | Inr valid \<Rightarrow> catching
          (bind (gateway_record (outbox_input ty correlationId valid)) (\<lambda>outboxRow.
             andThen (count_metric (processed_metric ''gateway'' name ''accepted''))
               (andThen (end_timer ''gateway'' started name ''accepted'')
                 (andThen (lc_publish Emitted name (js_String (get_prop ''eventId'' valid)) corr [])
                   (ret (accepted_response ty correlationId valid outboxRow))))))
          (\<lambda>error. andThen (count_metric (failed_metric ''gateway'' name TRANSIENT))
             (andThen (end_timer ''gateway'' started name ''failure'') (throw error))))"

definition sendTestMessage :: "zod \<Rightarrow> (string \<times> jsval) list \<Rightarrow> (gateway_mem, jsval) io" where
  "sendTestMessage Z headers = (let correlationId = request_correlation headers in
     bind now_ms (\<lambda>started.
       bind (buildCreateMessageEventV1 Z (JObj [(''subject'', JStr ''System test message''),
               (''content'', JStr ''Hello RabbitMQ!'')]) correlationId)
         (emit_event Z CreateMessageV1 correlationId started)))"

definition sendTestMessageV2 :: "zod \<Rightarrow> (string \<times> jsval) list \<Rightarrow> (gateway_mem, jsval) io" where
  "sendTestMessageV2 Z headers = (let correlationId = request_correlation headers in
     bind now_ms (\<lambda>started.
       bind (buildCreateMessageEventV2 Z (JObj [(''subject'', JStr ''System test message (v2)''),
               (''content'', JStr ''Hello RabbitMQ!'')]) correlationId)
         (emit_event Z CreateMessageV2 correlationId started)))"

section \<open>Facts\<close>

lemma lc_frame_committed:
  fixes w w' :: "gateway_mem world"
  assumes "lc_frame w w'"
  shows "committed (mem w') = committed (mem w)"
proof -
  have "lifecycle_mem.more (mem w') = lifecycle_mem.more (mem w)"
    using assms by (simp add: lc_frame_def same_service_def)
  then show ?thesis by (cases "mem w"; cases "mem w'") simp
qed

lemma wp_emit_event:
  "wp (emit_event Z ty corr started ev)
    (\<lambda>resp w'. \<exists>valid row. validateEvent Z ty ev = Inr valid \<and> resp = accepted_response ty corr valid row \<and>
       gateway_recorded (outbox_input ty corr valid) (committed (mem w)) row (committed (mem w')))
    (\<lambda>e w'. committed (mem w') = committed (mem w) \<or>
       (\<exists>valid row. validateEvent Z ty ev = Inr valid \<and>
         gateway_recorded (outbox_input ty corr valid) (committed (mem w)) row (committed (mem w')))) w"
proof (cases "validateEvent Z ty ev")
  case (Inl errs)
  have lc: "wp (andThen (lc_publish Rejected n i c errs) (throw e)) Q
      (\<lambda>e v'. committed (mem v') = committed (mem v) \<or> X e v') v"
    for n i c e X and v :: "gateway_mem world" and Q :: "jsval \<Rightarrow> gateway_mem world \<Rightarrow> bool"
    unfolding wp_andThen by (rule wp_lc_publish) (simp add: wp_throw lc_frame_committed)
  show ?thesis
    unfolding emit_event_def Inl sum.case Let_def wp_andThen [of "count_metric _"] wp_count_metric
      wp_andThen [of "end_timer _ _ _ _"] wp_end_timer
    by (rule wp_mono [OF lc [where X = "\<lambda>_ _. False"]]) (auto simp: Inl)
next
  case (Inr valid)
  let ?in = "outbox_input ty corr valid"
  show ?thesis
    unfolding emit_event_def Inr sum.case Let_def wp_catch wp_bind
  proof (rule wp_mono [OF wp_gateway_record])
    fix row v assume rec: "db_frame w v \<and> gateway_recorded ?in (committed (mem w)) row (committed (mem v))"
    have lc: "wp (andThen (lc_publish Emitted n i c []) (ret (accepted_response ty corr valid row)))
        (\<lambda>resp w'. \<exists>valid' row. Inr valid = Inr valid' \<and> resp = accepted_response ty corr valid' row \<and>
           gateway_recorded (outbox_input ty corr valid') (committed (mem w)) row (committed (mem w'))) E v'"
      if "committed (mem v') = committed (mem v)" for n i c E and v' :: "gateway_mem world"
      unfolding wp_andThen
      by (rule wp_lc_publish) (use rec that lc_frame_committed in \<open>auto simp: wp_ret\<close>)
    show "wp (andThen (count_metric (processed_metric ''gateway'' (event_name ty) ''accepted''))
       (andThen (end_timer ''gateway'' started (event_name ty) ''accepted'')
         (andThen (lc_publish Emitted (event_name ty) (js_String (get_prop ''eventId'' valid)) (js_String corr) [])
           (ret (accepted_response ty corr valid row)))))
      (\<lambda>resp w'. \<exists>valid' row. Inr valid = Inr valid' \<and> resp = accepted_response ty corr valid' row \<and>
         gateway_recorded (outbox_input ty corr valid') (committed (mem w)) row (committed (mem w')))
      (\<lambda>e. wp (andThen (count_metric (failed_metric ''gateway'' (event_name ty) TRANSIENT))
             (andThen (end_timer ''gateway'' started (event_name ty) ''failure'') (throw e)))
        (\<lambda>resp w'. \<exists>valid' row. Inr valid = Inr valid' \<and> resp = accepted_response ty corr valid' row \<and>
         gateway_recorded (outbox_input ty corr valid') (committed (mem w)) row (committed (mem w')))
        (\<lambda>e w'. committed (mem w') = committed (mem w) \<or>
           (\<exists>valid' row. Inr valid = Inr valid' \<and>
             gateway_recorded (outbox_input ty corr valid') (committed (mem w)) row (committed (mem w'))))) v"
      unfolding wp_andThen [of "count_metric _"] wp_count_metric
        wp_andThen [of "end_timer _ _ _ _"] wp_end_timer
      by (rule lc) simp
  qed (auto simp: wp_andThen wp_count_metric wp_end_timer wp_throw)
qed

section \<open>Properties\<close>

text \<open>
  C8: Accepted means durable. When an endpoint answers, exactly one row was committed to the outbox,
  pending, with the JSON of an event that satisfies the endpoint's contract, and the answer names that
  row and event; when it throws, the outbox is unchanged or holds one such row. Nothing that
  violates the contract ever reaches the outbox.
\<close>

theorem accepted_is_durable:
  "let ty = (if v2 then CreateMessageV2 else CreateMessageV1);
       (r, w') = (if v2 then sendTestMessageV2 Z headers w else sendTestMessage Z headers w);
       t = committed (mem w); t' = committed (mem w'); corr = request_correlation headers;
       one_row = (\<lambda>ev valid row. validateEvent Z ty ev = Inr valid \<and> t' = t @ [row] \<and>
         status row = Pending \<and> event_type row = event_name ty \<and> payload row = json_of valid \<and>
         correlation_id row = as_string corr)
   in case r of
        Inr resp \<Rightarrow> \<exists>ev valid row. one_row ev valid row \<and> resp = accepted_response ty corr valid row
      | Inl _ \<Rightarrow> t' = t \<or> (\<exists>ev valid row. one_row ev valid row)"
proof -
  let ?ty = "if v2 then CreateMessageV2 else CreateMessageV1" and ?corr = "request_correlation headers"
  let ?one = "\<lambda>ev valid row t'. validateEvent Z ?ty ev = Inr valid \<and> t' = committed (mem w) @ [row] \<and>
    status row = Pending \<and> event_type row = event_name ?ty \<and> payload row = json_of valid \<and>
    correlation_id row = as_string ?corr"
  let ?Q = "\<lambda>resp w'. \<exists>ev valid row. ?one ev valid row (committed (mem w')) \<and>
    resp = accepted_response ?ty ?corr valid row"
  let ?E = "\<lambda>_ w'. committed (mem w') = committed (mem w) \<or>
    (\<exists>ev valid row. ?one ev valid row (committed (mem w')))"
  have rec: "?one ev valid row t'" if "validateEvent Z ?ty ev = Inr valid"
    "gateway_recorded (outbox_input ?ty ?corr valid) (committed (mem w)) row t'" for ev valid row t'
    using that by (auto simp: gateway_recorded_def outbox_row_for_def outbox_input_def)
  have emit: "wp (emit_event Z ?ty ?corr started ev) ?Q ?E v"
    if "committed (mem v) = committed (mem w)" for started ev v
    by (rule wp_mono [OF wp_emit_event]) (use that rec in metis)+
  have "wp (if v2 then sendTestMessageV2 Z headers else sendTestMessage Z headers) ?Q ?E w"
  proof (cases v2)
    case True
    with emit show ?thesis
      by (auto simp: sendTestMessageV2_def Let_def wp_bind wp_now_ms buildCreateMessageEventV2_def
          wp_randomUUID lift_sum_def wp_ret wp_throw split: sum.split)
  next
    case False
    with emit show ?thesis
      by (auto simp: sendTestMessage_def Let_def wp_bind wp_now_ms buildCreateMessageEventV1_def
          wp_randomUUID wp_ret)
  qed
  then show ?thesis
    by (cases v2) (simp_all add: wp_def Let_def split: prod.splits sum.splits)
qed

lemma valid_correlation:
  assumes "zod_documented Z" "validateEvent Z ty ev = Inr valid"
  shows "\<exists>c. get_prop ''correlationId'' ev = JStr c \<and> is_uuid Z c"
proof -
  have "doc Z (EventRegistry ty) ev = Some valid"
    using assms(2) by (simp add: validateEvent_iff [OF assms(1)])
  then have "envelope_ok Z ev valid" by (cases ty) (auto dest: v1_valid v2_valid)
  then show ?thesis by (auto simp: envelope_ok_def)
qed

text \<open>
  The endpoints reject what they cannot correlate. With a Zod that behaves as documented, a request whose
  correlation id is not a UUID text makes both endpoints throw, and leaves the outbox as it was.
\<close>

theorem uncorrelated_rejected:
  assumes "zod_documented Z"
    and "\<forall>c. request_correlation headers = JStr c \<longrightarrow> \<not> is_uuid Z c"
  shows "\<forall>f \<in> {sendTestMessage Z headers, sendTestMessageV2 Z headers}.
    \<exists>e w'. f w = (Inl e, w') \<and> committed (mem w') = committed (mem w)"
proof -
  let ?corr = "request_correlation headers"
  have emit: "wp (emit_event Z ty ?corr started ev) (\<lambda>_ _. False)
      (\<lambda>_ w'. committed (mem w') = committed (mem w)) v"
    if "committed (mem v) = committed (mem w)" "get_prop ''correlationId'' ev = ?corr" for ty started ev v
  proof -
    have "validateEvent Z ty ev \<noteq> Inr valid" for valid
      using valid_correlation [OF assms(1), of ty ev valid] assms(2) that(2) by auto
    then show ?thesis by (intro wp_mono [OF wp_emit_event]) (use that(1) in auto)
  qed
  have "wp (sendTestMessage Z headers) (\<lambda>_ _. False) (\<lambda>_ w'. committed (mem w') = committed (mem w)) w"
    by (simp add: sendTestMessage_def Let_def wp_bind wp_now_ms buildCreateMessageEventV1_def
        wp_randomUUID wp_ret emit get_prop_def)
  moreover have "wp (sendTestMessageV2 Z headers) (\<lambda>_ _. False)
      (\<lambda>_ w'. committed (mem w') = committed (mem w)) w"
    by (simp add: sendTestMessageV2_def Let_def wp_bind wp_now_ms buildCreateMessageEventV2_def
        wp_randomUUID lift_sum_def wp_ret wp_throw emit get_prop_def split: sum.split)
  ultimately show ?thesis
    by (auto simp: wp_def split: prod.splits sum.splits)
qed

theorem uncorrelated_rejected_witness:
  "\<exists>e w'. sendTestMessage sample_zod [] (start_world (new_service [])) = (Inl e, w') \<and>
     committed (mem w') = []"
  using uncorrelated_rejected [OF sample_zod_documented, of "[]" "start_world (new_service [])"]
  by (simp add: request_correlation_def get_prop_def new_service_def)

end
