(* ===== verification/Messages_Service.thy ===== *)
theory Messages_Service
  imports Idempotency
begin

text \<open>
  The query side: \<open>apps/messaging/src/messages/messages.service.ts\<close> and its controller, which hands
  each message pattern's payload to the service. How TypeORM treats a \<open>take\<close> is a parameter; the
  theorems use that a positive one cuts the result. Rows with equal times may come in any order; the
  model takes one.
\<close>

section \<open>Operations\<close>

record CreateMessageDto =
  dto_title :: string
  dto_content :: string
  dto_sender :: string
  dto_recipient :: "string option"

text \<open>A partial update: only the members that are given.\<close>

record UpdateMessageDto =
  upd_id :: int
  upd_title :: "string option"
  upd_content :: "string option"
  upd_sender :: "string option"
  upd_recipient :: "string option option"

definition messages_create :: "CreateMessageDto \<Rightarrow> (messaging_mem, message_row) io" where
  "messages_create dto = autocommit (insert_message (dto_title dto) (dto_content dto) (dto_sender dto)
     (dto_recipient dto))"

text \<open>\<open>ORDER BY createdAt DESC\<close>, of the rows that satisfy the condition.\<close>

definition newest_first :: "(message_row \<Rightarrow> bool) \<Rightarrow> service_tables \<Rightarrow> message_row list" where
  "newest_first P d = rev (sort_key msg_createdAt (filter P (messages d)))"

type_synonym typeorm_take = "int \<Rightarrow> message_row list \<Rightarrow> jsval + message_row list"

definition takes_positive :: "typeorm_take \<Rightarrow> bool" where
  "takes_positive T \<longleftrightarrow> (\<forall>n xs. 1 \<le> n \<longrightarrow> T n xs = Inr (take (nat n) xs))"

definition find_query :: "(service_tables \<Rightarrow> jsval + 'b) \<Rightarrow> (messaging_mem, 'b) io" where
  "find_query f = request (\<lambda>_ m. (f (committed m), m))"

definition messages_findAll :: "typeorm_take \<Rightarrow> int option \<Rightarrow> int option \<Rightarrow>
    (messaging_mem, message_row list) io" where
  "messages_findAll T lmt cursor =
     (let n = min (or_else lmt 50) 200 in
      case cursor of
        Some c \<Rightarrow> find_query (\<lambda>d. T n (newest_first (\<lambda>m. msg_createdAt m < c) d))
      | None \<Rightarrow> find_query (\<lambda>d. T n (newest_first (\<lambda>_. True) d)))"

definition message_not_found :: "int \<Rightarrow> jsval" where
  "message_not_found i = JErr ''NotFoundException''
     [(''message'', JStr (''Message with id '' @ show_int i @ '' not found''))]"

definition messages_findOne :: "int \<Rightarrow> (messaging_mem, message_row) io" where
  "messages_findOne i = bind (query (\<lambda>d. find (\<lambda>m. msg_id m = i) (messages d))) (\<lambda>message.
     case message of None \<Rightarrow> throw (message_not_found i) | Some m \<Rightarrow> ret m)"

text \<open>\<open>Object.assign(message, dto)\<close>, and \<open>save\<close> of a row that has its id.\<close>

definition assign_message :: "UpdateMessageDto \<Rightarrow> message_row \<Rightarrow> message_row" where
  "assign_message dto m = m\<lparr>msg_id := upd_id dto, msg_title := or_else (upd_title dto) (msg_title m),
     msg_content := or_else (upd_content dto) (msg_content m),
     msg_sender := or_else (upd_sender dto) (msg_sender m),
     msg_recipient := or_else (upd_recipient dto) (msg_recipient m)\<rparr>"

definition save_row :: "message_row \<Rightarrow> message_row list \<Rightarrow> message_row list" where
  "save_row m ms = (if msg_id m \<in> msg_id ` set ms
     then map (\<lambda>x. if msg_id x = msg_id m then m else x) ms else ms @ [m])"

definition messages_save :: "message_row \<Rightarrow> (messaging_mem, message_row) io" where
  "messages_save m = autocommit (\<lambda>_ mm d. (Inr m, d\<lparr>messages := save_row m (messages d)\<rparr>, mm))"

definition message_update :: "int \<Rightarrow> UpdateMessageDto \<Rightarrow> (messaging_mem, message_row) io" where
  "message_update i dto = bind (messages_findOne i) (\<lambda>message. messages_save (assign_message dto message))"

definition messages_remove :: "int \<Rightarrow> (messaging_mem, unit) io" where
  "messages_remove i = bind (messages_findOne i) (\<lambda>message. autocommit (\<lambda>_ mm d.
     (Inr (), d\<lparr>messages := filter (\<lambda>x. msg_id x \<noteq> msg_id message) (messages d)\<rparr>, mm)))"

text \<open>The controller: \<open>updateMessage\<close> takes the id from the payload.\<close>

definition controller_update :: "UpdateMessageDto \<Rightarrow> (messaging_mem, message_row) io" where
  "controller_update dto = message_update (upd_id dto) dto"

section \<open>Facts\<close>

lemma set_newest_first [simp]: "set (newest_first P d) = {m \<in> set (messages d). P m}"
  by (auto simp: newest_first_def)

lemma sorted_newest_first: "sorted_wrt (\<lambda>a b. msg_createdAt b \<le> msg_createdAt a) (newest_first P d)"
  using sorted_sort_key [of msg_createdAt "filter P (messages d)"]
  by (simp add: newest_first_def sorted_wrt_rev sorted_map)

lemma take_newest:
  assumes "sorted_wrt (\<lambda>a b. msg_createdAt b \<le> msg_createdAt a) xs" "x \<in> set (take n xs)"
    "y \<in> set xs" "y \<notin> set (take n xs)"
  shows "msg_createdAt y \<le> msg_createdAt x"
proof -
  have "y \<in> set (drop n xs)" using assms(3,4) by (metis Un_iff append_take_drop_id set_append)
  moreover have "sorted_wrt (\<lambda>a b. msg_createdAt b \<le> msg_createdAt a) (take n xs @ drop n xs)"
    using assms(1) by simp
  ultimately show ?thesis using assms(2) unfolding sorted_wrt_append by blast
qed

lemma messages_findAll_result:
  assumes "takes_positive T" "1 \<le> or_else lmt 50" "messages_findAll T lmt cursor w = (Inr page, w')"
  shows "page = take (nat (min (or_else lmt 50) 200))
    (newest_first (\<lambda>m. case cursor of None \<Rightarrow> True | Some c \<Rightarrow> msg_createdAt m < c) (committed (mem w)))"
  using assms
  by (auto simp: messages_findAll_def find_query_def request_def takes_positive_def Let_def
      split: option.splits outcome.splits)

section \<open>Properties\<close>

text \<open>
  A page is bounded, ordered and newest first. For a requested limit of at least one (or none),
  a page holds at most 200 rows and at most the limit, newest first, all of the table and older than
  the cursor; and no row that was left out although it qualifies is newer than one on the page.
\<close>

theorem page_spec:
  assumes "takes_positive T" and "1 \<le> or_else lmt 50"
    and "messages_findAll T lmt cursor w = (Inr page, w')"
  shows "length page \<le> 200 \<and> int (length page) \<le> or_else lmt 50 \<and>
    sorted_wrt (\<lambda>a b. msg_createdAt b \<le> msg_createdAt a) page \<and>
    set page \<subseteq> {m \<in> set (messages (committed (mem w))). cursor = None \<or> msg_createdAt m < the cursor} \<and>
    (\<forall>m \<in> set (messages (committed (mem w))). \<forall>p \<in> set page. m \<notin> set page \<longrightarrow>
       (cursor = None \<or> msg_createdAt m < the cursor) \<longrightarrow> msg_createdAt m \<le> msg_createdAt p)"
proof -
  let ?P = "\<lambda>m. case cursor of None \<Rightarrow> True | Some c \<Rightarrow> msg_createdAt m < c"
  let ?n = "nat (min (or_else lmt 50) 200)"
  note page = messages_findAll_result [OF assms]
  have P: "?P m \<longleftrightarrow> cursor = None \<or> msg_createdAt m < the cursor" for m by (cases cursor) auto
  have "set page \<subseteq> {m \<in> set (messages (committed (mem w))). ?P m}"
    using set_take_subset [of ?n "newest_first ?P (committed (mem w))"] by (simp add: page)
  moreover have "msg_createdAt m \<le> msg_createdAt p"
    if "m \<in> set (messages (committed (mem w)))" "p \<in> set page" "m \<notin> set page" "?P m" for m p
    using that unfolding page by (intro take_newest [OF sorted_newest_first]) auto
  moreover have "sorted_wrt (\<lambda>a b. msg_createdAt b \<le> msg_createdAt a) page"
    unfolding page by (rule sorted_wrt_take [OF sorted_newest_first])
  moreover have "length page \<le> ?n" by (simp add: page)
  ultimately show ?thesis using assms(2) unfolding P by auto
qed

definition simple_take :: typeorm_take where
  "simple_take n xs = Inr (take (nat n) xs)"

definition message_at :: "int \<Rightarrow> int \<Rightarrow> message_row" where
  "message_at i t = \<lparr>msg_id = i, msg_title = ''t'', msg_content = ''c'', msg_sender = ''s'',
     msg_recipient = None, msg_createdAt = t\<rparr>"

definition three_messages :: "messaging_mem world" where
  "three_messages = start_world (new_service
     (no_tables\<lparr>messages := [message_at 1 5, message_at 2 5, message_at 3 9]\<rparr>))"

lemma simple_take_positive: "takes_positive simple_take"
  by (simp add: takes_positive_def simple_take_def)

lemma three_newest:
  "messages_findAll simple_take (Some 2) None three_messages =
     (Inr [message_at 3 9, message_at 2 5], three_messages\<lparr>calls := 1\<rparr>)"
  by (simp add: messages_findAll_def find_query_def request_def simple_take_def three_messages_def
      new_service_def no_tables_def newest_first_def message_at_def start_world_def)

theorem page_spec_witness:
  "\<exists>page w'. messages_findAll simple_take (Some 2) None three_messages = (Inr page, w') \<and> length page \<le> 200"
  using page_spec [OF simple_take_positive _ three_newest] three_newest by auto

text \<open>
  Paging by time loses ties. When a page ends and a row of the table has the time of the last
  row of the page without being on it, then no page fetched from that row's time on, with whatever
  limit, contains it: the next cursor excludes it.
\<close>

theorem paging_loses_ties:
  assumes "takes_positive T" and "1 \<le> or_else lmt 50" and "1 \<le> or_else lmt' 50"
    and "messages_findAll T lmt cursor w = (Inr page, w1)" and "page \<noteq> []"
    and "m \<in> set (messages (committed (mem w)))" and "m \<notin> set page"
    and "msg_createdAt m = msg_createdAt (last page)"
    and "c \<le> msg_createdAt (last page)" and "messages_findAll T lmt' (Some c) w1 = (Inr page', w2)"
  shows "m \<notin> set page'"
proof -
  have "set page' \<subseteq> {x. msg_createdAt x < c}"
    using messages_findAll_result [OF assms(1,3,10)] set_take_subset by (fastforce dest: in_set_takeD)
  then show ?thesis using assms(8,9) by auto
qed

theorem paging_loses_ties_witness:
  "\<exists>w2. messages_findAll simple_take (Some 2) (Some 5) (three_messages\<lparr>calls := 1\<rparr>) = (Inr [], w2) \<and>
     message_at 1 5 \<notin> set []"
proof -
  have "messages_findAll simple_take (Some 2) (Some 5) (three_messages\<lparr>calls := 1\<rparr>) =
      (Inr [], three_messages\<lparr>calls := 2\<rparr>)"
    by (simp add: messages_findAll_def find_query_def request_def simple_take_def three_messages_def
      new_service_def no_tables_def newest_first_def message_at_def start_world_def)
  moreover from paging_loses_ties [OF simple_take_positive _ _ three_newest _ _ _ _ _ this,
      where m = "message_at 1 5"]
  have "message_at 1 5 \<notin> set []"
    by (simp add: three_messages_def new_service_def no_tables_def message_at_def)
  ultimately show ?thesis by blast
qed

end
