(* ===== verification/Dlq_Consumer.thy ===== *)
theory Dlq_Consumer
  imports Tracing Topology
begin

text \<open>
  The consumer of the dead letter queue: \<open>apps/messaging/src/reliability/dlq-consumer.service.ts\<close>.
  \<open>JSON.parse\<close> is an argument of the handler.
\<close>

record dlq_message =
  dm_tag :: int
  dm_content :: string
  dm_routingKey :: string
  dm_headers :: "(string \<times> jsval) list option"

text \<open>
  The channel and connection, what is consumed with which prefetch, and what the handler leaves
  behind: log records, trace events with the carrier they are attached to, metrics, acknowledgements.
\<close>

record dlq_mem =
  dlq_connection :: bool
  dlq_channel :: bool
  dlq_prefetch :: int
  dlq_consuming :: "string list"
  dlq_log :: "jsval list"
  dlq_spans :: "(carrier \<times> (string \<times> jsval) list) list"
  dlq_metrics :: "metric_event list"
  dlq_acked :: "int list"

definition dlq_onModuleInit :: "(dlq_mem, unit) io" where
  "dlq_onModuleInit =
     andThen external (andThen (modify (\<lambda>m. m\<lparr>dlq_connection := True\<rparr>))
       (andThen external (andThen (modify (\<lambda>m. m\<lparr>dlq_channel := True\<rparr>))
         (andThen (request (\<lambda>_ m. (Inr (), m\<lparr>dlq_prefetch := 1\<rparr>)))
           (request (\<lambda>_ m. (Inr (), m\<lparr>dlq_consuming := dlq_consuming m @ [q_DLQ QUEUES]\<rparr>)))))))"

definition dlq_onModuleDestroy :: "(dlq_mem, unit) io" where
  "dlq_onModuleDestroy = catching
     (bind (gets dlq_channel) (\<lambda>ch. andThen (when_do ch (andThen external (ret ())))
       (bind (gets dlq_connection) (\<lambda>conn. when_do conn (andThen external (ret ()))))))
     (\<lambda>_. ret ())"

text \<open>A header as a string, and \<open>xDeath?.[0]?.[k]\<close>.\<close>

definition header_text :: "(string \<times> jsval) list \<Rightarrow> string \<Rightarrow> string \<Rightarrow> string" where
  "header_text headers k dflt = or_else (as_string (get_prop k (JObj headers))) dflt"

definition first_element :: "jsval \<Rightarrow> jsval" where
  "first_element v = (case v of JArr (x # _) \<Rightarrow> x | JArr [] \<Rightarrow> JUndef | _ \<Rightarrow> get_prop ''0'' v)"

definition death_text :: "(string \<times> jsval) list \<Rightarrow> string \<Rightarrow> string" where
  "death_text headers k =
     or_else (as_string (get_prop k (first_element (get_prop ''x-death'' (JObj headers))))) ''unknown''"

definition dlq_retryCount :: "(string \<times> jsval) list \<Rightarrow> int" where
  "dlq_retryCount headers = or_else (as_number (get_prop ''x-retry-count'' (JObj headers))) 0"

definition dlq_record :: "(string \<Rightarrow> jsval option) \<Rightarrow> dlq_message \<Rightarrow> jsval" where
  "dlq_record json_parse msg = (let headers = or_else (dm_headers msg) [] in JObj
     [(''dlq'', JBool True),
      (''correlationId'', case as_string (get_prop ''x-correlation-id'' (JObj headers)) of
           None \<Rightarrow> JUndef | Some c \<Rightarrow> JStr c),
      (''errorClass'', JStr (header_text headers ''x-error-class'' ''UNKNOWN'')),
      (''retryCount'', JNum (dlq_retryCount headers)),
      (''firstError'', JStr (header_text headers ''x-first-error'' ''unknown'')),
      (''failedAt'', JStr (header_text headers ''x-failed-at'' ''unknown'')),
      (''originalQueue'', JStr (death_text headers ''queue'')),
      (''deathReason'', JStr (death_text headers ''reason'')),
      (''routingKey'', JStr (dm_routingKey msg)),
      (''payload'', or_else (json_parse (dm_content msg)) (JStr (dm_content msg)))])"

definition dlq_span :: "(string \<times> jsval) list \<Rightarrow> (string \<times> jsval) list" where
  "dlq_span headers = [(''correlationId'', JStr (header_text headers ''x-correlation-id'' ''unknown'')),
     (''errorClass'', JStr (header_text headers ''x-error-class'' ''UNKNOWN'')),
     (''retryCount'', JNum (dlq_retryCount headers)),
     (''originalQueue'', JStr (death_text headers ''queue'')),
     (''deathReason'', JStr (death_text headers ''reason''))]"

definition dlq_metric :: "(string \<times> jsval) list \<Rightarrow> metric_event" where
  "dlq_metric headers = Inc ''dlq_messages_total''
     [(''service'', ''messaging''), (''error_class'', header_text headers ''x-error-class'' ''UNKNOWN''),
      (''original_queue'', death_text headers ''queue'')]"

definition handleDlqMessage :: "(string \<Rightarrow> jsval option) \<Rightarrow> dlq_message option \<Rightarrow> (dlq_mem, unit) io" where
  "handleDlqMessage json_parse given = (case given of
       None \<Rightarrow> ret ()
     | Some msg \<Rightarrow> (let headers = or_else (dm_headers msg) [] in
         andThen (modify (\<lambda>m. m\<lparr>dlq_log := dlq_log m @ [json_of (dlq_record json_parse msg)]\<rparr>))
           (andThen (modify (\<lambda>m. m\<lparr>dlq_spans := dlq_spans m @ [(extractTraceContext headers, dlq_span headers)]\<rparr>))
             (andThen (modify (\<lambda>m. m\<lparr>dlq_metrics := dlq_metrics m @ [dlq_metric headers]\<rparr>))
               (bind (gets dlq_channel) (\<lambda>ch. if ch
                  then andThen external (modify (\<lambda>m. m\<lparr>dlq_acked := dlq_acked m @ [dm_tag msg]\<rparr>))
                  else throw type_error))))))"

section \<open>Properties\<close>

text \<open>
  Nothing in a dead letter can keep it from being acknowledged. Whatever its headers and
  content, a message is logged, attached to the trace of its headers, counted once and
  acknowledged once; the handler throws only when the channel is gone or refuses the
  acknowledgement, and even then the message was recorded.
\<close>

theorem dead_letter_always_acked:
  "let (r, w') = handleDlqMessage json_parse (Some msg) w; headers = or_else (dm_headers msg) [];
       m = mem w; m' = mem w'
   in length (dlq_log m') = Suc (length (dlq_log m)) \<and>
      dlq_spans m' = dlq_spans m @ [(extractTraceContext headers, dlq_span headers)] \<and>
      dlq_metrics m' = dlq_metrics m @ [dlq_metric headers] \<and>
      (case r of
         Inr _ \<Rightarrow> dlq_acked m' = dlq_acked m @ [dm_tag msg]
       | Inl e \<Rightarrow> dlq_acked m' = dlq_acked m \<and>
           e \<in> (if dlq_channel m then {e. outcomes w (calls w) \<in> {Fails e, Lost e}} else {type_error}))"
  by (auto simp: handleDlqMessage_def io_defs Let_def split: outcome.split)

text \<open>
  The consumer starts completely or not at all. When start-up returns, the dead letter queue is
  consumed with a prefetch of one; when any of its calls fails the error leaves the method; and
  closing never throws.
\<close>

theorem dlq_start_stop:
  "(case dlq_onModuleInit w of
      (Inr _, w') \<Rightarrow> dlq_channel (mem w') \<and> dlq_connection (mem w') \<and> dlq_prefetch (mem w') = 1 \<and>
        dlq_consuming (mem w') = dlq_consuming (mem w) @ [''messaging.dlq'']
    | (Inl e, w') \<Rightarrow> \<exists>n. calls w \<le> n \<and> n < calls w + 4 \<and> outcomes w n \<in> {Fails e, Lost e}) \<and>
   (\<exists>w'. dlq_onModuleDestroy w = (Inr (), w'))"
proof
  show "case dlq_onModuleInit w of
      (Inr _, w') \<Rightarrow> dlq_channel (mem w') \<and> dlq_connection (mem w') \<and> dlq_prefetch (mem w') = 1 \<and>
        dlq_consuming (mem w') = dlq_consuming (mem w) @ [''messaging.dlq'']
    | (Inl e, w') \<Rightarrow> \<exists>n. calls w \<le> n \<and> n < calls w + 4 \<and> outcomes w n \<in> {Fails e, Lost e}"
  proof -
    have below4: "(\<exists>k<4. P k) \<longleftrightarrow> P 0 \<or> P 1 \<or> P 2 \<or> P (Suc (Suc (Suc 0)))" for P :: "nat \<Rightarrow> bool"
      by (auto simp: numeral_eq_Suc less_Suc_eq)
    have all: "wp dlq_onModuleInit
      (\<lambda>_ w'. dlq_channel (mem w') \<and> dlq_connection (mem w') \<and> dlq_prefetch (mem w') = 1 \<and>
        dlq_consuming (mem w') = dlq_consuming (mem w) @ [''messaging.dlq''])
      (\<lambda>e w'. \<exists>k<4. outcomes w (calls w + k) \<in> {Fails e, Lost e}) w"
      by (simp add: dlq_onModuleInit_def wp_eqs Let_def QUEUES_def below4 split: outcome.split)
    obtain r w' where run: "dlq_onModuleInit w = (r, w')" by fastforce
    show ?thesis
    proof (cases r)
      case (Inl e)
      from wp_error [OF all run [unfolded Inl]] obtain k where "k < 4"
        "outcomes w (calls w + k) \<in> {Fails e, Lost e}" by blast
      then show ?thesis by (auto simp: run Inl intro!: exI [of _ "calls w + k"])
    next
      case (Inr u)
      with wp_result [OF all, of u w'] run show ?thesis by simp
    qed
  qed
  show "\<exists>w'. dlq_onModuleDestroy w = (Inr (), w')"
    by (auto simp: dlq_onModuleDestroy_def io_defs split: outcome.split)
qed

end
