(* ===== verification/Migrations.thy ===== *)
theory Migrations
  imports Prelude
begin

text \<open>
  The database migrations: \<open>apps/messaging/src/migrations\<close> 001 to 008 and the gateway's 001. A schema
  is a list of tables with their columns and indexes; a step that PostgreSQL or TypeORM refuses
  makes the migration fail.
\<close>

section \<open>Schemas\<close>

record column =
  col_name :: string
  col_type :: string
  col_length :: "nat option"
  col_nullable :: bool
  col_primary :: bool
  col_unique :: bool
  col_default :: "string option"
  col_generated :: bool

record index =
  ix_name :: string
  ix_columns :: "(string \<times> bool) list"
  ix_unique :: bool
  ix_where :: "string option"

record table =
  t_name :: string
  t_columns :: "column list"
  t_indexes :: "index list"

type_synonym schema_db = "table list"

text \<open>A column of a type: not null unless it says so, and its variations.\<close>

definition col :: "string \<Rightarrow> string \<Rightarrow> column" where
  "col n ty = \<lparr>col_name = n, col_type = ty, col_length = None, col_nullable = False,
     col_primary = False, col_unique = False, col_default = None, col_generated = False\<rparr>"

definition varchar :: "string \<Rightarrow> nat \<Rightarrow> column" where
  "varchar n len = (col n ''varchar'')\<lparr>col_length := Some len\<rparr>"

definition serial :: "string \<Rightarrow> column" where
  "serial n = (col n ''integer'')\<lparr>col_primary := True, col_generated := True\<rparr>"

definition nullable :: "column \<Rightarrow> column" where
  "nullable c = c\<lparr>col_nullable := True\<rparr>"

definition with_default :: "string \<Rightarrow> column \<Rightarrow> column" where
  "with_default d c = c\<lparr>col_default := Some d\<rparr>"

text \<open>An index on columns in ascending order, as \<open>TableIndex\<close> makes it.\<close>

definition plain_index :: "string \<Rightarrow> string list \<Rightarrow> index" where
  "plain_index n cs = \<lparr>ix_name = n, ix_columns = map (\<lambda>c. (c, True)) cs, ix_unique = False, ix_where = None\<rparr>"

section \<open>Steps\<close>

text \<open>
  \<open>CreateTable\<close> is TypeORM's with \<open>ifNotExists\<close>; \<open>SqlDropIndex\<close> is the statement, with its
  \<open>IF EXISTS\<close>. PostgreSQL folds an unquoted index name to lower case.
\<close>

datatype step =
    CreateTable string "column list"
  | DropTable string
  | AddColumn string column
  | DropColumn string string
  | CreateIndex string index
  | DropIndex string string
  | SqlDropIndex string bool

definition find_table :: "string \<Rightarrow> schema_db \<Rightarrow> table option" where
  "find_table n db = find (\<lambda>t. t_name t = n) db"

definition has_index :: "string \<Rightarrow> table \<Rightarrow> bool" where
  "has_index n t \<longleftrightarrow> n \<in> ix_name ` set (t_indexes t)"

definition change_table :: "string \<Rightarrow> (table \<Rightarrow> table) \<Rightarrow> schema_db \<Rightarrow> schema_db" where
  "change_table n f db = map (\<lambda>t. if t_name t = n then f t else t) db"

definition remove_index :: "string \<Rightarrow> table \<Rightarrow> table" where
  "remove_index n t = t\<lparr>t_indexes := filter (\<lambda>i. ix_name i \<noteq> n) (t_indexes t)\<rparr>"

fun run_step :: "step \<Rightarrow> schema_db \<Rightarrow> schema_db option" where
  "run_step (CreateTable n cs) db = (if find_table n db \<noteq> None then Some db
     else Some (db @ [\<lparr>t_name = n, t_columns = cs, t_indexes = []\<rparr>]))"
| "run_step (DropTable n) db = (if find_table n db = None then None
     else Some (filter (\<lambda>t. t_name t \<noteq> n) db))"
| "run_step (AddColumn n c) db = (case find_table n db of None \<Rightarrow> None
     | Some t \<Rightarrow> if col_name c \<in> col_name ` set (t_columns t) then None
         else Some (change_table n (\<lambda>t. t\<lparr>t_columns := t_columns t @ [c]\<rparr>) db))"
| "run_step (DropColumn n c) db = (case find_table n db of None \<Rightarrow> None
     | Some t \<Rightarrow> if c \<notin> col_name ` set (t_columns t) then None
         else Some (change_table n (\<lambda>t. t\<lparr>t_columns := filter (\<lambda>x. col_name x \<noteq> c) (t_columns t),
           t_indexes := filter (\<lambda>i. c \<notin> fst ` set (ix_columns i)) (t_indexes t)\<rparr>) db))"
| "run_step (CreateIndex n i) db = (case find_table n db of None \<Rightarrow> None
     | Some t \<Rightarrow> if (\<exists>t\<in>set db. has_index (ix_name i) t) \<or>
           \<not> fst ` set (ix_columns i) \<subseteq> col_name ` set (t_columns t) then None
         else Some (change_table n (\<lambda>t. t\<lparr>t_indexes := t_indexes t @ [i]\<rparr>) db))"
| "run_step (DropIndex n i) db = (case find_table n db of None \<Rightarrow> None
     | Some t \<Rightarrow> if has_index i t then Some (change_table n (remove_index i) db) else None)"
| "run_step (SqlDropIndex i if_exists) db =
     (if (\<exists>t\<in>set db. has_index i t) then Some (map (remove_index i) db)
      else if if_exists then Some db else None)"

fun run_steps :: "step list \<Rightarrow> schema_db \<Rightarrow> schema_db option" where
  "run_steps [] db = Some db"
| "run_steps (s # ss) db = (case run_step s db of None \<Rightarrow> None | Some db' \<Rightarrow> run_steps ss db')"

record migration =
  up :: "step list"
  down :: "step list"

section \<open>The messaging service's migrations\<close>

definition CreateMessagesTable :: migration where
  "CreateMessagesTable = \<lparr>up = [CreateTable ''messages'' [serial ''id'', varchar ''title'' 255,
      col ''content'' ''text'', varchar ''sender'' 255,
      with_default ''CURRENT_TIMESTAMP'' (col ''createdAt'' ''timestamp'')]],
    down = [DropTable ''messages'']\<rparr>"

definition AddRecipientToMessages :: migration where
  "AddRecipientToMessages = \<lparr>up = [AddColumn ''messages'' (nullable (varchar ''recipient'' 255))],
    down = [DropColumn ''messages'' ''recipient'']\<rparr>"

definition CreateProcessedEventsTable :: migration where
  "CreateProcessedEventsTable = \<lparr>up =
     [CreateTable ''processed_events'' [serial ''id'', (varchar ''event_id'' 36)\<lparr>col_unique := True\<rparr>,
        varchar ''event_type'' 255, nullable (varchar ''correlation_id'' 36),
        nullable (col ''result'' ''jsonb''),
        with_default ''CURRENT_TIMESTAMP'' (col ''processed_at'' ''timestamp'')],
      CreateIndex ''processed_events'' (plain_index ''IDX_processed_events_correlation_id'' [''correlation_id'']),
      CreateIndex ''processed_events'' (plain_index ''IDX_processed_events_processed_at'' [''processed_at''])],
    down = [DropIndex ''processed_events'' ''IDX_processed_events_processed_at'',
      DropIndex ''processed_events'' ''IDX_processed_events_correlation_id'',
      DropTable ''processed_events'']\<rparr>"

definition CreateOutboxEventsTable :: migration where
  "CreateOutboxEventsTable = \<lparr>up =
     [CreateTable ''outbox_events'' [serial ''id'', varchar ''event_type'' 255, col ''payload'' ''jsonb'',
        nullable (varchar ''correlation_id'' 36), with_default ''pending'' (varchar ''status'' 16),
        with_default ''0'' (col ''attempts'' ''int''), nullable (col ''last_error'' ''text''),
        with_default ''CURRENT_TIMESTAMP'' (col ''created_at'' ''timestamp''),
        nullable (col ''sent_at'' ''timestamp'')],
      CreateIndex ''outbox_events'' (plain_index ''IDX_outbox_events_status'' [''status'']),
      CreateIndex ''outbox_events'' (plain_index ''IDX_outbox_events_event_type'' [''event_type'']),
      CreateIndex ''outbox_events'' (plain_index ''IDX_outbox_events_correlation_id'' [''correlation_id''])],
    down = [DropIndex ''outbox_events'' ''IDX_outbox_events_correlation_id'',
      DropIndex ''outbox_events'' ''IDX_outbox_events_event_type'',
      DropIndex ''outbox_events'' ''IDX_outbox_events_status'', DropTable ''outbox_events'']\<rparr>"

definition AddRelayLockingToOutboxEvents :: migration where
  "AddRelayLockingToOutboxEvents = \<lparr>up =
     [AddColumn ''outbox_events'' (nullable (col ''locked_at'' ''timestamp'')),
      AddColumn ''outbox_events'' (nullable (varchar ''locked_by'' 128)),
      AddColumn ''outbox_events'' (with_default ''CURRENT_TIMESTAMP'' (col ''next_retry_at'' ''timestamp'')),
      AddColumn ''outbox_events'' (with_default ''5'' (col ''max_attempts'' ''int'')),
      CreateIndex ''outbox_events''
        (plain_index ''IDX_outbox_events_status_next_retry_at'' [''status'', ''next_retry_at'']),
      CreateIndex ''outbox_events''
        (plain_index ''IDX_outbox_events_status_locked_at'' [''status'', ''locked_at''])],
    down = [DropIndex ''outbox_events'' ''IDX_outbox_events_status_locked_at'',
      DropIndex ''outbox_events'' ''IDX_outbox_events_status_next_retry_at'',
      DropColumn ''outbox_events'' ''max_attempts'', DropColumn ''outbox_events'' ''next_retry_at'',
      DropColumn ''outbox_events'' ''locked_by'', DropColumn ''outbox_events'' ''locked_at'']\<rparr>"

definition CreateEventAttemptsTable :: migration where
  "CreateEventAttemptsTable = \<lparr>up =
     [CreateTable ''event_attempts'' [(varchar ''event_id'' 36)\<lparr>col_primary := True\<rparr>,
        with_default ''0'' (col ''attempts'' ''int''),
        with_default ''CURRENT_TIMESTAMP'' (col ''updated_at'' ''timestamp'')],
      CreateIndex ''event_attempts'' (plain_index ''IDX_event_attempts_updated_at'' [''updated_at''])],
    down = [DropIndex ''event_attempts'' ''IDX_event_attempts_updated_at'', DropTable ''event_attempts'']\<rparr>"

definition unique_event_id :: "string \<Rightarrow> index" where
  "unique_event_id n = \<lparr>ix_name = n, ix_columns = [(''event_id'', True)], ix_unique = True,
     ix_where = Some ''event_id IS NOT NULL''\<rparr>"

definition AddEventIdAndLockVersionToOutboxEvents :: migration where
  "AddEventIdAndLockVersionToOutboxEvents = \<lparr>up =
     [AddColumn ''outbox_events'' (nullable (varchar ''event_id'' 36)),
      AddColumn ''outbox_events'' (with_default ''0'' (col ''lock_version'' ''int'')),
      CreateIndex ''outbox_events'' (unique_event_id ''idx_outbox_events_event_id'')],
    down = [SqlDropIndex ''idx_outbox_events_event_id'' False,
      DropColumn ''outbox_events'' ''lock_version'', DropColumn ''outbox_events'' ''event_id'']\<rparr>"

definition AddMessagesCreatedAtIndexAndOutboxTraceContext :: migration where
  "AddMessagesCreatedAtIndexAndOutboxTraceContext = \<lparr>up =
     [CreateIndex ''messages'' \<lparr>ix_name = ''IDX_messages_created_at'', ix_columns = [(''createdAt'', False)],
        ix_unique = False, ix_where = None\<rparr>,
      AddColumn ''outbox_events'' (nullable (col ''trace_context'' ''jsonb''))],
    down = [DropColumn ''outbox_events'' ''trace_context'', SqlDropIndex ''IDX_messages_created_at'' False]\<rparr>"

definition messaging_migrations :: "migration list" where
  "messaging_migrations = [CreateMessagesTable, AddRecipientToMessages, CreateProcessedEventsTable,
     CreateOutboxEventsTable, AddRelayLockingToOutboxEvents, CreateEventAttemptsTable,
     AddEventIdAndLockVersionToOutboxEvents, AddMessagesCreatedAtIndexAndOutboxTraceContext]"

section \<open>The gateway's migration\<close>

definition gateway_outbox_down :: "step list" where
  "gateway_outbox_down = [SqlDropIndex ''idx_gateway_outbox_events_event_id'' True,
      DropIndex ''gateway_outbox_events'' ''IDX_gateway_outbox_events_status_locked_at'',
      DropIndex ''gateway_outbox_events'' ''IDX_gateway_outbox_events_status_next_retry_at'',
      DropIndex ''gateway_outbox_events'' ''IDX_gateway_outbox_events_correlation_id'',
      DropIndex ''gateway_outbox_events'' ''IDX_gateway_outbox_events_event_type'',
      DropIndex ''gateway_outbox_events'' ''IDX_gateway_outbox_events_status'',
      DropTable ''gateway_outbox_events'']"

definition CreateGatewayOutboxEventsTable :: migration where
  "CreateGatewayOutboxEventsTable = \<lparr>up =
     [CreateTable ''gateway_outbox_events'' [serial ''id'', varchar ''event_type'' 255,
        col ''payload'' ''jsonb'', nullable (varchar ''correlation_id'' 36),
        with_default ''pending'' (varchar ''status'' 16), with_default ''0'' (col ''attempts'' ''int''),
        nullable (col ''last_error'' ''text''),
        with_default ''CURRENT_TIMESTAMP'' (col ''created_at'' ''timestamp''),
        nullable (col ''sent_at'' ''timestamp''), nullable (col ''locked_at'' ''timestamp''),
        nullable (varchar ''locked_by'' 128),
        with_default ''CURRENT_TIMESTAMP'' (col ''next_retry_at'' ''timestamp''),
        with_default ''5'' (col ''max_attempts'' ''int''), nullable (varchar ''event_id'' 36),
        with_default ''0'' (col ''lock_version'' ''int''), nullable (col ''trace_context'' ''jsonb'')],
      CreateIndex ''gateway_outbox_events'' (plain_index ''IDX_gateway_outbox_events_status'' [''status'']),
      CreateIndex ''gateway_outbox_events'' (plain_index ''IDX_gateway_outbox_events_event_type'' [''event_type'']),
      CreateIndex ''gateway_outbox_events''
        (plain_index ''IDX_gateway_outbox_events_correlation_id'' [''correlation_id'']),
      CreateIndex ''gateway_outbox_events''
        (plain_index ''IDX_gateway_outbox_events_status_next_retry_at'' [''status'', ''next_retry_at'']),
      CreateIndex ''gateway_outbox_events''
        (plain_index ''IDX_gateway_outbox_events_status_locked_at'' [''status'', ''locked_at'']),
      CreateIndex ''gateway_outbox_events'' (unique_event_id ''idx_gateway_outbox_events_event_id'')],
    down = gateway_outbox_down\<rparr>"

section \<open>Running migrations\<close>

definition migrate :: "migration list \<Rightarrow> schema_db \<Rightarrow> schema_db option" where
  "migrate ms db = run_steps (concat (map up ms)) db"

definition revert :: "migration \<Rightarrow> schema_db \<Rightarrow> schema_db option" where
  "revert m db = run_steps (down m) db"

lemma run_steps_append:
  "run_steps (xs @ ys) db = (case run_steps xs db of None \<Rightarrow> None | Some db' \<Rightarrow> run_steps ys db')"
  by (induction xs arbitrary: db) (auto split: option.splits)

lemmas migration_defs = CreateMessagesTable_def AddRecipientToMessages_def CreateProcessedEventsTable_def
  CreateOutboxEventsTable_def AddRelayLockingToOutboxEvents_def CreateEventAttemptsTable_def
  AddEventIdAndLockVersionToOutboxEvents_def AddMessagesCreatedAtIndexAndOutboxTraceContext_def
  CreateGatewayOutboxEventsTable_def gateway_outbox_down_def

section \<open>Facts\<close>

text \<open>A schema whose tables have different names and whose indexes are on columns there are.\<close>

definition wf_db :: "schema_db \<Rightarrow> bool" where
  "wf_db db \<longleftrightarrow> distinct (map t_name db) \<and>
     (\<forall>t\<in>set db. \<forall>i\<in>set (t_indexes t). fst ` set (ix_columns i) \<subseteq> col_name ` set (t_columns t))"

lemma wf_ixD: "wf_db db \<Longrightarrow> t \<in> set db \<Longrightarrow> i \<in> set (t_indexes t) \<Longrightarrow>
    fst ` set (ix_columns i) \<subseteq> col_name ` set (t_columns t)"
  by (simp add: wf_db_def)

text \<open>The step that takes back a step of \<open>up\<close>.\<close>

fun undoes :: "step \<Rightarrow> step \<Rightarrow> bool" where
  "undoes (DropTable n) (CreateTable n' cs) = (n = n')"
| "undoes (DropColumn n c) (AddColumn n' c') = (n = n' \<and> c = col_name c')"
| "undoes (DropIndex n i) (CreateIndex n' i') = (n = n' \<and> i = ix_name i')"
| "undoes (SqlDropIndex i e) (CreateIndex n' i') = (i = ix_name i')"
| "undoes _ _ = False"

fun created :: "step \<Rightarrow> string list" where
  "created (CreateTable n cs) = [n]"
| "created _ = []"

lemma find_table_None: "find_table n db = None \<longleftrightarrow> n \<notin> t_name ` set db"
  by (auto simp: find_table_def find_None_iff)

lemma find_table_Some: "find_table n db = Some t \<Longrightarrow> t \<in> set db \<and> t_name t = n"
  by (auto simp: find_table_def find_Some_iff)

lemma find_table_change [simp]:
  assumes "\<And>t. t_name (f t) = t_name t"
  shows "find_table n (change_table n' f db) =
    map_option (\<lambda>t. if t_name t = n' then f t else t) (find_table n db)"
  using assms by (induction db) (auto simp: find_table_def change_table_def)

lemma change_table_cancel:
  assumes "distinct (map t_name db)" "find_table n db = Some t" "g (f t) = t"
    "\<And>t. t_name (f t) = t_name t"
  shows "change_table n g (change_table n f db) = db"
proof -
  have "g (f x) = x" if "x \<in> set db" "t_name x = n" for x
    using assms that find_table_Some [OF assms(2)] by (metis distinct_map inj_onD)
  then show ?thesis using assms(4) by (auto simp: change_table_def intro: map_idI)
qed

lemma names_change_table:
  assumes "\<And>t. t_name (f t) = t_name t"
  shows "t_name ` set (change_table n f db) = t_name ` set db"
proof -
  have "map t_name (change_table n f db) = map t_name db"
    using assms by (simp add: change_table_def)
  then show ?thesis by (metis set_map)
qed

lemma wf_change_table:
  assumes "wf_db db" "\<And>t. t_name (f t) = t_name t"
    "\<And>t. t \<in> set db \<Longrightarrow> t_name t = n \<Longrightarrow>
       \<forall>i\<in>set (t_indexes (f t)). fst ` set (ix_columns i) \<subseteq> col_name ` set (t_columns (f t))"
  shows "wf_db (change_table n f db)"
proof -
  have names: "map t_name (change_table n f db) = map t_name db"
    using assms(2) by (simp add: change_table_def)
  have "\<forall>i\<in>set (t_indexes t). fst ` set (ix_columns i) \<subseteq> col_name ` set (t_columns t)"
    if t: "t \<in> set (change_table n f db)" for t
  proof -
    obtain x where "x \<in> set db" "t = (if t_name x = n then f x else x)"
      using t by (auto simp: change_table_def)
    then show ?thesis using assms(1,3) unfolding wf_db_def by (cases "t_name x = n") auto
  qed
  then show ?thesis using assms(1) unfolding wf_db_def names by blast
qed

text \<open>Every step of \<open>up\<close> keeps a schema well formed, and its undoing step takes it back.\<close>

lemma undo_step:
  assumes u: "undoes d s" and wf: "wf_db db" and fresh: "\<forall>n\<in>set (created s). find_table n db = None"
    and run: "run_step s db = Some db'"
  shows "run_step d db' = Some db \<and> wf_db db' \<and> t_name ` set db' = t_name ` set db \<union> set (created s)"
proof (cases s)
  case (CreateTable n cs)
  then have d: "d = DropTable n" using u by (cases d) auto
  have n: "n \<notin> t_name ` set db" using fresh CreateTable by (simp add: find_table_None)
  have db': "db' = db @ [\<lparr>t_name = n, t_columns = cs, t_indexes = []\<rparr>]"
    using run CreateTable fresh by (auto split: if_splits)
  have "filter (\<lambda>t. t_name t \<noteq> n) db = db" using n by (intro filter_True) auto
  with n wf show ?thesis by (auto simp: d db' CreateTable find_table_None wf_db_def)
next
  case (AddColumn n c)
  then have d: "d = DropColumn n (col_name c)" using u by (cases d) auto
  let ?f = "\<lambda>t. t\<lparr>t_columns := t_columns t @ [c]\<rparr>"
  obtain t where t: "find_table n db = Some t" "col_name c \<notin> col_name ` set (t_columns t)"
    and db': "db' = change_table n ?f db"
    using run AddColumn by (auto split: option.splits if_splits)
  note t' = find_table_Some [OF t(1)]
  have ix: "filter (\<lambda>i. col_name c \<notin> fst ` set (ix_columns i)) (t_indexes t) = t_indexes t"
  proof (rule filter_True, rule ballI)
    fix i assume "i \<in> set (t_indexes t)"
    then have "fst ` set (ix_columns i) \<subseteq> col_name ` set (t_columns t)"
      using wf t' unfolding wf_db_def by blast
    then show "col_name c \<notin> fst ` set (ix_columns i)" using t(2) by blast
  qed
  have cs: "filter (\<lambda>x. col_name x \<noteq> col_name c) (t_columns t) = t_columns t"
    using t(2) by (intro filter_True) (metis image_eqI)
  have "wf_db db'" unfolding db'
    by (rule wf_change_table [OF wf]) (simp, use wf_ixD [OF wf] in \<open>simp, blast\<close>)
  moreover have "run_step d db' = Some db"
    using t t' ix cs wf by (simp add: d db' wf_db_def change_table_cancel)
  ultimately show ?thesis by (simp add: db' AddColumn names_change_table)
next
  case (CreateIndex n i)
  let ?f = "\<lambda>t. t\<lparr>t_indexes := t_indexes t @ [i]\<rparr>"
  obtain t where t: "find_table n db = Some t" "\<forall>t\<in>set db. \<not> has_index (ix_name i) t"
      "fst ` set (ix_columns i) \<subseteq> col_name ` set (t_columns t)"
    and db': "db' = change_table n ?f db"
    using run CreateIndex by (auto split: option.splits if_splits)
  note t' = find_table_Some [OF t(1)]
  have same: "x = t" if "x \<in> set db" "t_name x = n" for x
    using wf t' that by (auto simp: wf_db_def distinct_map dest: inj_onD)
  have gone: "remove_index (ix_name i) x = x" if "x \<in> set db" for x
  proof -
    have "filter (\<lambda>j. ix_name j \<noteq> ix_name i) (t_indexes x) = t_indexes x"
      using t(2) that unfolding has_index_def by (intro filter_True) (metis image_eqI)
    then show ?thesis by (simp add: remove_index_def)
  qed
  have restored: "remove_index (ix_name i) (?f x) = x" if "x \<in> set db" for x
    using gone [OF that] by (simp add: remove_index_def)
  have ix: "\<forall>j\<in>set (t_indexes (?f x)). fst ` set (ix_columns j) \<subseteq> col_name ` set (t_columns (?f x))"
    if "x \<in> set db" "t_name x = n" for x
    using wf_ixD [OF wf that(1)] t(3) same [OF that] by auto
  have "wf_db db'" unfolding db' by (rule wf_change_table [OF wf _ ix]) simp_all
  moreover have "run_step d db' = Some db"
  proof (cases d)
    case (DropIndex n' i')
    with u CreateIndex t t' restored wf show ?thesis
      by (auto simp: db' has_index_def wf_db_def intro!: change_table_cancel)
  next
    case (SqlDropIndex i' e)
    have "map (remove_index (ix_name i)) db' = db"
      using restored gone by (auto simp: db' change_table_def intro!: map_idI)
    moreover have "\<exists>t\<in>set db'. has_index (ix_name i) t"
    proof
      show "?f t \<in> set db'" using t' by (force simp: db' change_table_def)
    qed (simp add: has_index_def)
    ultimately show ?thesis using SqlDropIndex u CreateIndex by simp
  qed (use u CreateIndex in auto)
  ultimately show ?thesis by (simp add: db' CreateIndex names_change_table)
qed (use u in \<open>cases d; auto\<close>)+

lemma undo_steps:
  assumes "list_all2 undoes (rev ds) ss" "wf_db db" "run_steps ss db = Some db'"
    "distinct (concat (map created ss))" "\<forall>n\<in>set (concat (map created ss)). find_table n db = None"
  shows "run_steps ds db' = Some db \<and> wf_db db'"
  using assms
proof (induction ss arbitrary: ds db rule: list.induct)
  case Nil
  from Nil.prems(1) have "ds = []" by simp
  with Nil.prems show ?case by simp
next
  case (Cons s ss)
  then obtain d es where ds: "rev ds = d # es" "undoes d s" "list_all2 undoes es ss"
    by (auto simp: list_all2_Cons2)
  then have ds': "ds = rev es @ [d]" by (metis rev.simps(2) rev_rev_ident)
  obtain db1 where s: "run_step s db = Some db1" and ss: "run_steps ss db1 = Some db'"
    using Cons.prems(3) by (auto split: option.splits)
  note step = undo_step [OF ds(2) Cons.prems(2) _ s]
  have "run_steps (rev es) db' = Some db1 \<and> wf_db db'"
    by (rule Cons.IH) (use ds(3) step ss Cons.prems(4,5) in \<open>auto simp: find_table_None\<close>)
  with step Cons.prems(5) show ?case by (simp add: ds' run_steps_append)
qed

section \<open>Properties\<close>

text \<open>
  C29: Every migration can be reverted. On any well-formed schema that lacks the tables the migration
  creates, when \<open>up\<close> succeeds, \<open>down\<close> succeeds as well and restores exactly the schema before.
\<close>

theorem migration_round_trip:
  assumes "m \<in> set (CreateGatewayOutboxEventsTable # messaging_migrations)" and "wf_db db"
    and "\<forall>n\<in>set (concat (map created (up m))). find_table n db = None" and "migrate [m] db = Some db'"
  shows "revert m db' = Some db \<and> wf_db db'"
proof -
  have "list_all2 undoes (rev (down m)) (up m) \<and> distinct (concat (map created (up m)))"
    using assms(1) by (auto simp: messaging_migrations_def migration_defs plain_index_def unique_event_id_def
        nullable_def with_default_def varchar_def col_def)
  then show ?thesis
    using undo_steps [of "down m" "up m" db db'] assms(2-4) by (simp add: migrate_def revert_def)
qed

theorem migration_round_trip_witness:
  "\<exists>db'. migrate [CreateMessagesTable] [] = Some db' \<and> revert CreateMessagesTable db' = Some []"
  using migration_round_trip [of CreateMessagesTable "[]"]
  by (auto simp: messaging_migrations_def wf_db_def find_table_def migrate_def CreateMessagesTable_def)

definition index_shape :: "index \<Rightarrow> (string \<times> bool) list \<times> bool \<times> string option" where
  "index_shape i = (ix_columns i, ix_unique i, ix_where i)"

definition column_of :: "string \<Rightarrow> string \<Rightarrow> schema_db \<Rightarrow> column option" where
  "column_of t c db = (case find_table t db of None \<Rightarrow> None
     | Some t \<Rightarrow> find (\<lambda>x. col_name x = c) (t_columns t))"

definition outbox_schemas_agree :: "schema_db \<Rightarrow> bool" where
  "outbox_schemas_agree db \<longleftrightarrow> (case (find_table ''outbox_events'' db, find_table ''gateway_outbox_events'' db) of
     (Some t, Some g) \<Rightarrow>
       list_all (\<lambda>c. c \<in> set (t_columns g)) (t_columns t) \<and> list_all (\<lambda>c. c \<in> set (t_columns t)) (t_columns g) \<and>
       list_all (\<lambda>i. i \<in> set (map index_shape (t_indexes g))) (map index_shape (t_indexes t)) \<and>
       list_all (\<lambda>i. i \<in> set (map index_shape (t_indexes t))) (map index_shape (t_indexes g)) \<and>
       ([(''event_id'', True)], True, Some ''event_id IS NOT NULL'') \<in> set (map index_shape (t_indexes t))
   | _ \<Rightarrow> False)"

text \<open>
  The gateway's outbox table is the messaging service's. After all migrations, in either order
  of the services, both tables exist, with the same columns and the same indexes up to names, among
  them the partial unique index on \<open>event_id\<close>; and \<open>processed_events.event_id\<close> is unique and
  \<open>event_attempts.event_id\<close> the primary key, as the statements of the services rely on.
\<close>

theorem schemas_agree:
  "list_all (\<lambda>ms. case migrate ms [] of None \<Rightarrow> False
     | Some db \<Rightarrow> outbox_schemas_agree db \<and>
         map_option col_unique (column_of ''processed_events'' ''event_id'' db) = Some True \<and>
         map_option col_primary (column_of ''event_attempts'' ''event_id'' db) = Some True)
   [messaging_migrations @ [CreateGatewayOutboxEventsTable],
    CreateGatewayOutboxEventsTable # messaging_migrations]"
  by code_simp

end
