(* ===== verification/Bounded_Runs.thy ===== *)
theory Bounded_Runs
  imports Outbox_Relay Messaging_Controller Gateway_Controller Messages_Service Outbox_Admin Dlq_Consumer Health
begin

text \<open>
  How many external calls (statements, broker operations, probes) the services make: a calculus that bounds
  the number a computation makes, whatever they answer, and the bounds it gives for the handlers of the
  queues, the endpoints and a relay tick.
\<close>

section \<open>The calculus\<close>

named_theorems cost_rules \<open>bounds of the combinators and operations\<close>

definition cost :: "('d, 'a) io \<Rightarrow> nat \<Rightarrow> bool" where
  "cost m n \<longleftrightarrow> (\<forall>w. calls (snd (m w)) \<le> calls w + n)"

lemma costD: "cost m n \<Longrightarrow> calls (snd (m w)) \<le> calls w + n"
  by (simp add: cost_def)

lemma cost_mono: "cost m a \<Longrightarrow> a \<le> b \<Longrightarrow> cost m b"
  unfolding cost_def by (meson add_left_mono order_trans)

lemma cost_free [cost_rules]:
  "cost (ret x) 0" "cost (throw e) 0" "cost (gets f) 0" "cost (modify g) 0" "cost now_ms 0"
  "cost randomUUID 0" "cost captureTraceContextCarrier 0" "cost (injectTraceContext c hs) 0"
  by (simp_all add: cost_def io_defs captureTraceContextCarrier_def injectTraceContext_def)

lemma cost_call [cost_rules]: "cost external 1" "cost (request f) 1"
  by (auto simp: cost_def external_def request_def Let_def split: prod.split outcome.split)

lemma cost_bind [cost_rules]:
  assumes "cost m a" "\<And>x. cost (f x) b"
  shows "cost (bind m f) (a + b)"
  unfolding cost_def
proof
  fix w
  obtain r w' where m: "m w = (r, w')" by fastforce
  have a: "calls w' \<le> calls w + a" using costD [OF assms(1), of w] m by simp
  show "calls (snd (bind m f w)) \<le> calls w + (a + b)"
  proof (cases r)
    case (Inr x)
    then show ?thesis using costD [OF assms(2) [of x], of w'] a by (simp add: bind_def m)
  qed (use a in \<open>simp add: bind_def m\<close>)
qed

lemma cost_andThen [cost_rules]: "cost m a \<Longrightarrow> cost n b \<Longrightarrow> cost (andThen m n) (a + b)"
  unfolding andThen_def by (rule cost_bind)

lemma cost_catching [cost_rules]:
  assumes "cost m a" "\<And>e. cost (h e) b"
  shows "cost (catching m h) (a + b)"
  unfolding cost_def
proof
  fix w
  obtain r w' where m: "m w = (r, w')" by fastforce
  have a: "calls w' \<le> calls w + a" using costD [OF assms(1), of w] m by simp
  show "calls (snd (catching m h w)) \<le> calls w + (a + b)"
  proof (cases r)
    case (Inl x)
    then show ?thesis using costD [OF assms(2) [of x], of w'] a by (simp add: catching_def m)
  qed (use a in \<open>simp add: catching_def m\<close>)
qed

lemma cost_finally [cost_rules]:
  assumes "cost m a" "cost n b"
  shows "cost (finally_do m n) (a + b)"
  unfolding cost_def
proof
  fix w
  obtain r w' where m: "m w = (r, w')" by fastforce
  obtain s w'' where n: "n w' = (s, w'')" by fastforce
  have "calls w' \<le> calls w + a" "calls w'' \<le> calls w' + b"
    using costD [OF assms(1), of w] costD [OF assms(2), of w'] m n by simp_all
  then show "calls (snd (finally_do m n w)) \<le> calls w + (a + b)"
    by (simp add: finally_do_def m n split: sum.split)
qed

lemma cost_when_do [cost_rules]: "cost m a \<Longrightarrow> cost (when_do b m) a"
  by (auto simp: when_do_def intro: cost_mono [OF cost_free(1)])

lemma cost_if [cost_rules]: "cost m a \<Longrightarrow> cost n b \<Longrightarrow> cost (if c then m else n) (max a b)"
  by (auto intro: cost_mono)

lemma cost_case_option [cost_rules]:
  "cost m a \<Longrightarrow> (\<And>x. cost (f x) b) \<Longrightarrow> cost (case v of None \<Rightarrow> m | Some x \<Rightarrow> f x) (max a b)"
  by (cases v) (simp_all add: cost_mono [OF _ max.cobounded1] cost_mono [OF _ max.cobounded2])

lemma cost_case_sum [cost_rules]:
  "(\<And>x. cost (f x) a) \<Longrightarrow> (\<And>y. cost (g y) b) \<Longrightarrow> cost (case v of Inl x \<Rightarrow> f x | Inr y \<Rightarrow> g y) (max a b)"
  by (cases v) (simp_all add: cost_mono [OF _ max.cobounded1] cost_mono [OF _ max.cobounded2])

lemma cost_Let [cost_rules]: "cost (f v) a \<Longrightarrow> cost (let x = v in f x) a"
  by simp

lemma cost_case_prod [cost_rules]: "(\<And>x y. cost (f x y) a) \<Longrightarrow> cost (case p of (x, y) \<Rightarrow> f x y) a"
  by (cases p) simp

lemma cost_for_each:
  "(\<And>x. x \<in> set xs \<Longrightarrow> cost (f x) k) \<Longrightarrow> cost (for_each f xs) (length xs * k)"
proof (induction xs)
  case Nil
  then show ?case by (simp add: cost_free)
next
  case (Cons x xs)
  then have "cost (andThen (f x) (for_each f xs)) (k + length xs * k)"
    by (intro cost_andThen) auto
  then show ?case by simp
qed

section \<open>The broker client and the tracer\<close>

lemma cost_getChannel [cost_rules]: "cost getChannel 2"
  unfolding getChannel_def connectAmqp_def amqp_connect_def settle_def await_def
  by (rule cost_mono, (rule cost_rules)+, simp)

lemma cost_ch_publish [cost_rules]: "cost (ch_publish ch msg) 1"
  unfolding ch_publish_def by (rule cost_mono, (rule cost_rules)+, simp)

lemma cost_ch_waitForConfirms [cost_rules]: "cost (ch_waitForConfirms ch) 1"
  unfolding ch_waitForConfirms_def by (rule cost_mono, (rule cost_rules)+, simp)

lemma cost_lc_publish [cost_rules]: "cost (lc_publish st ty i c errs) 4"
  unfolding lc_publish_def ensureChannel_def lc_connect_def
  by (rule cost_mono, (rule cost_rules)+, simp)

section \<open>The services\<close>

lemma cost_tx [cost_rules]:
  "cost begin_tx 2" "cost commit_tx 1" "cost rollback_tx 1" "cost release_tx 1" "cost (in_tx f) 1"
  "cost (autocommit f) 1" "cost (query q) 1" "cost (count_metric e) 0"
  unfolding begin_tx_def commit_tx_def rollback_tx_def release_tx_def in_tx_def autocommit_def query_def
    count_metric_def
  by (rule cost_mono, (rule cost_rules)+, simp)+

lemma cost_end_timer [cost_rules]: "cost (end_timer s t ty out) 0"
  unfolding end_timer_def by (rule cost_mono, (rule cost_rules)+, simp)

lemma cost_insertOutboxEvents [cost_rules]: "cost (insertOutboxEvents evs) (length evs)"
proof -
  have one: "cost (bind randomUUID (\<lambda>e. insert_outbox ev e due c)) 1" for ev due c
    unfolding insert_outbox_def by (rule cost_mono, (rule cost_rules)+, simp)
  have loop: "cost (for_each (\<lambda>ev. bind randomUUID (\<lambda>e. insert_outbox ev e due c)) evs) (length evs)" for due c
    using cost_for_each [of evs, OF one] by simp
  have "cost (insertOutboxEvents evs) (0 + (0 + length evs))"
    unfolding insertOutboxEvents_def by (rule cost_bind [OF cost_free(5)], rule cost_bind [OF cost_free(7)], rule loop)
  then show ?thesis by simp
qed

lemma cost_handleIdem [cost_rules]: "cost (handleMessageCreationIdempotent s b e t c) 9"
  unfolding handleMessageCreationIdempotent_def runIdempotentWithOutboxEvents_def idempotency_insert_def
    save_message_def
  by (rule cost_mono, (rule cost_rules)+, simp)

lemma cost_handleCreation [cost_rules]: "cost (handleMessageCreation s b c) 7"
  unfolding handleMessageCreation_def runWithOutboxEvents_def save_message_def
  by (rule cost_mono, (rule cost_rules)+, simp)

lemma cost_settle [cost_rules]: "cost (channel_ack d) 1" "cost (channel_nack d r) 1"
  unfolding channel_ack_def channel_nack_def by (rule cost_mono, (rule cost_rules)+, simp)+

lemma cost_attempts [cost_rules]: "cost (recordAttempt e) 1" "cost (clearAttempts e) 1"
  unfolding recordAttempt_def clearAttempts_def by (rule cost_rules)+

lemma cost_publishToRetry [cost_rules]: "cost (publishToRetry m hs n c) 4"
  unfolding publishToRetry_def by (rule cost_mono, (rule cost_rules)+, simp)

lemma cost_process_event [cost_rules]: "cost (process_event name t0 ev d) 15"
  unfolding process_event_def by (rule cost_mono, (rule cost_rules)+, simp)

lemma cost_handle_failure [cost_rules]: "cost (handle_failure Z name t0 ev n d err) 6"
  unfolding handle_failure_def by (rule cost_mono, (rule cost_rules)+, simp)

lemma cost_lift_sum [cost_rules]: "cost (lift_sum r) 0"
  unfolding lift_sum_def by (rule cost_mono, (rule cost_rules)+, simp)

lemma cost_handle_valid [cost_rules]: "cost (handle_valid Z name t0 ev d) 30"
  unfolding handle_valid_def by (rule cost_mono, (rule cost_rules)+, simp)

lemma cost_reject_invalid [cost_rules]: "cost (reject_invalid name data errs d) 5"
  unfolding reject_invalid_def by (rule cost_mono, (rule cost_rules)+, simp)

lemma cost_handleMessage: "cost (handleMessage Z data d) 30"
  unfolding handleMessage_def by (rule cost_mono, (rule cost_rules)+, simp)

lemma cost_handleTestRabbit: "cost (handleTestRabbit s b c d) 9"
  unfolding handleTestRabbit_def by (rule cost_mono, (rule cost_rules)+, simp)

lemma cost_gateway_record [cost_rules]: "cost (gateway_record ev) 6"
  unfolding gateway_record_def runWithOutboxEvent_def insertOutboxEvent_def
  by (rule cost_mono, (rule cost_rules)+, simp)

lemma cost_emit_event [cost_rules]: "cost (emit_event Z ty corr t0 ev) 10"
  unfolding emit_event_def by (rule cost_mono, (rule cost_rules)+, simp)

lemma cost_endpoints: "cost (sendTestMessage Z hs) 10" "cost (sendTestMessageV2 Z hs) 10"
  unfolding sendTestMessage_def sendTestMessageV2_def buildCreateMessageEventV1_def
    buildCreateMessageEventV2_def
  by (rule cost_mono, (rule cost_rules)+, simp)+

section \<open>The relay\<close>

lemma cost_report [cost_rules]: "cost (report e) 0"
  unfolding report_def by (rule cost_rules)

lemma cost_relay_statements [cost_rules]:
  "cost (claimBatch P) 1" "cost (markSent i v) 1" "cost (markFailedAttempt P row err) 1"
  unfolding claimBatch_def markSent_def markFailedAttempt_def
  by (rule cost_mono, (rule cost_rules)+, simp)+

lemma cost_publishOne: "cost (publishOne P row) 6"
  unfolding publishOne_def publishWithRestoredTrace_def
  by (rule cost_mono, (rule cost_rules)+, simp)

section \<open>The other handlers and endpoints\<close>

lemma cost_messages:
  "cost (messages_create dto) 1" "cost (messages_findAll T lmt cursor) 1" "cost (messages_findOne i) 1"
  "cost (controller_update upd) 2" "cost (messages_remove i) 2"
  unfolding messages_create_def messages_findAll_def messages_findOne_def controller_update_def message_update_def
    messages_remove_def messages_save_def find_query_def
  by (rule cost_mono, (rule cost_rules)+, simp)+

lemma cost_admin:
  "cost (replayOne headers i) 1" "cost (replayFailed headers ty) 1" "cost (gw_list_endpoint headers) 1"
  "cost (gw_replayOne headers i) 1" "cost (gw_replayFailed headers ty) 1"
  unfolding replayOne_def replayFailed_def gw_list_endpoint_def gw_replayOne_def gw_replayFailed_def guarded_def
    replayById_def replayAllFailed_def gw_listFailed_def gw_replayById_def gw_replayAllFailed_def query_replay_def
  by (rule cost_mono, (rule cost_rules)+, simp)+

lemma cost_dlq: "cost (handleDlqMessage parse given) 1"
  unfolding handleDlqMessage_def by (rule cost_mono, (rule cost_rules)+, simp)

lemma cost_isHealthy: "cost (isHealthy L key) 3"
  unfolding isHealthy_def connectWithTimeout_def close_connection_def by (rule cost_mono, (rule cost_rules)+, simp)

lemma cost_run_checks: "list_all2 cost cs ns \<Longrightarrow> cost (run_checks cs) (sum_list ns)"
proof (induction cs ns rule: list_all2_induct)
  case Nil
  then show ?case by (simp add: cost_free)
next
  case (Cons c cs n ns)
  have one: "cost (catching (bind c (\<lambda>x. ret (Inr x))) (\<lambda>e. ret (Inl e))) n"
    using Cons(1) by (rule cost_mono [OF cost_catching [OF cost_bind [OF _ cost_free(1)] cost_free(1)]]) simp
  show ?case
    using cost_bind [OF one cost_bind [OF Cons(3) cost_free(1)]] by simp
qed

lemma cost_health_check:
  assumes "list_all2 cost cs ns"
  shows "cost (health_check L cs) (sum_list ns)"
proof -
  have "cost (case check L rs of Inl e \<Rightarrow> throw e | Inr x \<Rightarrow> ret x) 0" for rs
    by (simp add: cost_free split: sum.split)
  from cost_bind [OF cost_run_checks [OF assms] this] show ?thesis by (simp add: health_check_def)
qed

section \<open>Properties\<close>

text \<open>
  C23: The number of external calls. Whatever the database, the broker and the libraries answer, one run makes at
  most: \<open>handleMessage\<close> 30 calls and the legacy handler 9; the handlers of the message patterns 1 or 2; the
  dead letter handler 1; an endpoint of the gateway that sends 10; an endpoint of the operator 1; a readiness
  probe what its pings make, and 3 for the broker; a liveness probe none. These are all handlers and endpoints
  but the greeting of the gateway and the metrics page, which make no call. That a run ends is part of the model; the
  bound says that no retry or loop hides in a handler.
\<close>

theorem handler_calls_bounded:
  assumes "cost (db_ping ''database'') pings" and "\<And>url. cost (http_ping ''messaging-service'' url) pings"
  shows "cost (handleMessage Z data d) 30 \<and> cost (handleTestRabbit subject body corr d) 9 \<and>
    cost (messages_create dto) 1 \<and> cost (messages_findAll T lmt cursor) 1 \<and> cost (messages_findOne i) 1 \<and>
    cost (controller_update upd) 2 \<and> cost (messages_remove i) 2 \<and> cost (handleDlqMessage parse given) 1 \<and>
    cost (replayOne headers i) 1 \<and> cost (replayFailed headers ty) 1 \<and>
    cost (messaging_readiness L db_ping) (pings + 3) \<and> cost (messaging_liveness L) 0 \<and>
    cost (sendTestMessage Z headers) 10 \<and> cost (sendTestMessageV2 Z headers) 10 \<and>
    cost (gw_list_endpoint headers) 1 \<and> cost (gw_replayOne headers i) 1 \<and> cost (gw_replayFailed headers ty) 1 \<and>
    cost (gateway_readiness L http_ping configured) pings \<and> cost (gateway_liveness L) 0"
proof -
  have "cost (messaging_readiness L db_ping) (pings + 3)"
    using cost_health_check [of "[db_ping ''database'', isHealthy L ''rabbitmq'']" "[pings, 3]" L] assms(1)
    by (simp add: messaging_readiness_def cost_isHealthy)
  moreover have "cost (gateway_readiness L http_ping configured) pings"
    using cost_health_check [of "[http_ping ''messaging-service'' _]" "[pings]" L, simplified, OF assms(2)]
    by (simp add: gateway_readiness_def)
  moreover have "cost (messaging_liveness L) 0" "cost (gateway_liveness L) 0"
    using cost_health_check [of "[]" "[]" L] by (simp_all add: messaging_liveness_def gateway_liveness_def)
  ultimately show ?thesis
    by (intro conjI cost_handleMessage cost_handleTestRabbit cost_messages cost_admin cost_dlq cost_endpoints)
qed

theorem handler_calls_bounded_witness:
  "calls (snd (messaging_readiness plain_lib (\<lambda>_. andThen external (ret JNull)) probe_start)) \<le> 4"
proof -
  have "cost (andThen external (ret JNull)) 1"
    by (rule cost_mono [OF cost_andThen [OF cost_call(1) cost_free(1)]]) simp
  note bounds = handler_calls_bounded [where db_ping = "\<lambda>_. andThen external (ret JNull)"
      and http_ping = "\<lambda>_ _. andThen external (ret JNull)" and L = plain_lib, OF this this]
  have "cost (messaging_readiness plain_lib (\<lambda>_. andThen external (ret JNull))) (1 + 3)"
    by (rule bounds [THEN conjunct2, THEN conjunct2, THEN conjunct2, THEN conjunct2, THEN conjunct2, THEN conjunct2,
        THEN conjunct2, THEN conjunct2, THEN conjunct2, THEN conjunct2, THEN conjunct1])
  from costD [OF this, of probe_start] show ?thesis by (simp add: probe_start_def)
qed

lemma wp_claim_count:
  assumes "distinct (map row_id (table (mem w)))"
  shows "wp (claimBatch P)
    (\<lambda>rows w'. calls w' \<le> calls w + 1 \<and> pg_update (mem w') = pg_update (mem w) \<and>
       length rows \<le> nat (cfg (config (mem w)) (key_BATCH P) DEFAULT_BATCH_SIZE))
    (\<lambda>_ w'. calls w' \<le> calls w + 1) w"
proof -
  have "length (fst (sql_claim now c n inst (table (mem w)))) \<le> n" for now c n inst
    by (simp add: length_sql_claim [OF assms])
  then show ?thesis
    by (auto simp: claimBatch_def wp_eqs Let_def case_prod_beta split: outcome.split)
qed

lemma cost_publish_no_row: "cost publish_no_row 3"
  unfolding publish_no_row_def by (rule cost_mono, (rule cost_rules)+, simp)

lemma pair_loop_count:
  "calls (snd (for_each (publish_item P) (loop_items RowsAndCount rows) v)) \<le> calls v + 6"
proof -
  have "calls (snd (publish_no_row v)) \<le> calls v + 3" by (rule costD [OF cost_publish_no_row])
  then show ?thesis
    using wp_publish_no_row [of v]
    by (auto simp: loop_items_def andThen_def bind_def wp_def split: prod.splits sum.splits)
qed

text \<open>
  C24: A relay tick ends. It makes at most one call for the claim and six for each row of the batch,
  and the batch is at most the configured size, however many rows wait and however each publish
  ends; when an update resolves to the pair of rows and count, it makes at most seven.
\<close>

theorem tick_terminates:
  assumes "distinct (map row_id (table (mem w)))"
  shows "calls (snd (runRelayTick P w)) \<le>
    calls w + 1 + 6 * (case pg_update (mem w) of
        RowsOnly \<Rightarrow> nat (cfg (config (mem w)) (key_BATCH P) DEFAULT_BATCH_SIZE) | RowsAndCount \<Rightarrow> 1)"
proof -
  let ?b = "nat (cfg (config (mem w)) (key_BATCH P) DEFAULT_BATCH_SIZE)"
  let ?n = "case pg_update (mem w) of RowsOnly \<Rightarrow> ?b | RowsAndCount \<Rightarrow> 1"
  let ?I = "\<lambda>w' :: relay_mem world. calls w' \<le> calls w + 1 + 6 * ?n"
  have rows: "wp (for_each (publish_item P) (loop_items (pg_update (mem v)) rows)) (\<lambda>_. ?I) (\<lambda>_. ?I) v"
    if "calls v \<le> calls w + 1" "length rows \<le> ?b" "pg_update (mem v) = pg_update (mem w)" for rows v
  proof (cases "pg_update (mem w)")
    case RowsOnly
    have "calls (snd (for_each (publishOne P) rows v)) \<le> calls v + length rows * 6"
      by (rule costD [OF cost_for_each [OF cost_publishOne]])
    with that RowsOnly show ?thesis by (simp add: wp_snd loop_items_rows)
  next
    case RowsAndCount
    with that pair_loop_count [of P rows v] show ?thesis by (simp add: wp_snd)
  qed
  have "wp (runRelayTick P) (\<lambda>_. ?I) (\<lambda>_. ?I) w"
    unfolding runRelayTick_def wp_bind [of "catching _ _"] wp_catch wp_bind [of "claimBatch P"]
    by (rule wp_mono [OF wp_claim_count [OF assms]]) (use rows in \<open>auto simp: wp_ret wp_if wp_bind wp_gets\<close>)
  then show ?thesis by (simp add: wp_snd)
qed

theorem tick_terminates_witness:
  "calls (snd (runRelayTick messaging_relay (start_world sample_relay))) \<le> 7"
proof -
  have "distinct (map row_id (table (mem (start_world sample_relay))))" by simp
  from tick_terminates [OF this, of messaging_relay] show ?thesis
    by (simp add: sample_batch DEFAULT_BATCH_SIZE_def)
qed

end
