(* ===== verification/Delivery_Runs.thy ===== *)
theory Delivery_Runs
  imports Messaging_Controller
begin

text \<open>
  Many deliveries in a row: the same event may come back again and again, as a retry copy, a requeued
  delivery or a redelivery after a crash, with whatever headers. The attempt table bounds how often the
  consumer (\<open>apps/messaging/src/messaging.controller.ts\<close>) retries it.
\<close>

section \<open>The interface of a budgeted handler\<close>

text \<open>
  What bounds retries: \<open>count\<close> is what the ledger has on record, \<open>closed\<close> that the item is dealt with,
  which it stays; until then a step never lowers the count, and a step that retries raises it and
  keeps it below the budget.
\<close>

locale budgeted_handler =
  fixes count :: "'w \<Rightarrow> int"
    and closed :: "'w \<Rightarrow> bool"
    and handle :: "'a \<Rightarrow> 'w \<Rightarrow> 'w"
    and retried :: "'a \<Rightarrow> 'w \<Rightarrow> bool"
    and budget :: int
  assumes closed_stays: "closed w \<Longrightarrow> closed (handle a w)"
    and count_grows: "\<not> closed (handle a w) \<Longrightarrow> count w \<le> count (handle a w)"
    and retry_counted: "\<not> closed (handle a w) \<Longrightarrow> retried a w \<Longrightarrow>
      count (handle a w) = count w + 1 \<and> count w + 1 < budget"
begin

primrec run_all :: "'a list \<Rightarrow> 'w \<Rightarrow> 'w" where
  "run_all [] w = w"
| "run_all (a # as) w = run_all as (handle a w)"

primrec retry_count :: "'a list \<Rightarrow> 'w \<Rightarrow> nat" where
  "retry_count [] w = 0"
| "retry_count (a # as) w = (if retried a w then 1 else 0) + retry_count as (handle a w)"

lemma closed_run: "closed w \<Longrightarrow> closed (run_all as w)"
  by (induction as arbitrary: w) (simp_all add: closed_stays)

lemma retries_bounded:
  "\<not> closed (run_all as w) \<Longrightarrow> int (retry_count as w) \<le> max 0 (budget - 1 - count w)"
proof (induction as arbitrary: w)
  case (Cons a as)
  then have "\<not> closed (handle a w)" using closed_run by fastforce
  with Cons show ?case
    using count_grows [of a w] retry_counted [of a w] by fastforce
qed simp

end

section \<open>What a delivery does to the ledgers\<close>

abbreviation recorded :: "string \<Rightarrow> messaging_mem world \<Rightarrow> int" where
  "recorded e w \<equiv> find_attempts e (committed (mem w))"

definition dealt_with :: "string \<Rightarrow> messaging_mem world \<Rightarrow> bool" where
  "dealt_with e w \<longleftrightarrow> e \<in> processed_ids (committed (mem w)) \<or> unique_noise w"

text \<open>The effect of a step on the ledgers when it concerns the event \<open>i\<close>.\<close>

definition ledgers :: "string \<Rightarrow> messaging_mem world \<Rightarrow> messaging_mem world \<Rightarrow> bool" where
  "ledgers i w w' \<longleftrightarrow> outcomes w' = outcomes w \<and>
     processed_ids (committed (mem w)) \<subseteq> processed_ids (committed (mem w')) \<and>
     (\<forall>k. k \<noteq> i \<longrightarrow> recorded k w' = recorded k w)"

lemma ledgers_trans: "ledgers i a b \<Longrightarrow> ledgers i b c \<Longrightarrow> ledgers i a c"
  by (auto simp: ledgers_def)

lemma ledgers_noise: "ledgers i w w' \<Longrightarrow> unique_noise w' = unique_noise w"
  by (simp add: ledgers_def unique_noise_def outside_errors_def)

lemma ledgers_dealt: "ledgers i w w' \<Longrightarrow> dealt_with e w \<Longrightarrow> dealt_with e w'"
  using ledgers_noise by (auto simp: dealt_with_def ledgers_def)

lemma ledgers_same:
  "outcomes w' = outcomes w \<Longrightarrow> committed (mem w') = committed (mem w) \<Longrightarrow> ledgers i w w'"
  by (simp add: ledgers_def)

text \<open>After the attempt was recorded: dealt with, or the count as it was.\<close>

definition kept :: "string \<Rightarrow> messaging_mem world \<Rightarrow> messaging_mem world \<Rightarrow> bool" where
  "kept i w w' \<longleftrightarrow> ledgers i w w' \<and> (dealt_with i w' \<or> recorded i w' = recorded i w)"

lemma kept_trans: "kept i a b \<Longrightarrow> kept i b c \<Longrightarrow> kept i a c"
  unfolding kept_def using ledgers_trans ledgers_dealt by metis

lemma kept_same:
  "outcomes w' = outcomes w \<Longrightarrow> committed (mem w') = committed (mem w) \<Longrightarrow> kept i w w'"
  by (simp add: kept_def ledgers_same)

lemma dealt_same:
  "outcomes w' = outcomes w \<Longrightarrow> committed (mem w') = committed (mem w) \<Longrightarrow> dealt_with e w \<Longrightarrow> dealt_with e w'"
  using ledgers_dealt [OF ledgers_same] .

text \<open>Counting a metric changes no table.\<close>

lemma metric_kept [simp]:
  "kept i w (u\<lparr>mem := (mem u)\<lparr>svc_metrics := ms\<rparr>\<rparr>) = kept i w u"
  "dealt_with i (u\<lparr>mem := (mem u)\<lparr>svc_metrics := ms\<rparr>\<rparr>) = dealt_with i u"
  by (simp_all add: kept_def ledgers_def dealt_with_def unique_noise_def outside_errors_def)

lemma wp_lc_kept:
  assumes "kept i w0 w" "\<And>w'. kept i w0 w' \<Longrightarrow> Q () w'"
  shows "wp (lc_publish st ty n c errs) Q E w"
proof (rule wp_lc_publish)
  fix w' assume f: "lc_frame w w'"
  then have "kept i w w'" using quiet_lc_frame [OF f] by (intro kept_same) (auto simp: quiet_def)
  then show "Q () w'" using assms kept_trans by blast
qed

lemma written_recorded:
  "written_once s b e t c d m d' \<Longrightarrow> find_attempts k d' = find_attempts k d \<and>
     e \<in> processed_ids d' \<and> processed_ids d \<subseteq> processed_ids d'"
  by (auto simp: written_once_def processed_ids_def)

lemma wp_handleIdem_kept:
  "wp (handleMessageCreationIdempotent s b e t c) (\<lambda>_ w'. kept e w w' \<and> dealt_with e w')
    (\<lambda>_ w'. kept e w w') w"
proof (rule wp_mono [OF wp_handleIdem])
  fix x w' assume p: "quiet w w' \<and> idempotent_post s b e t c w (Some x) (committed (mem w'))"
  then have o: "outcomes w' = outcomes w" by (simp add: quiet_def)
  show "kept e w w' \<and> dealt_with e w'"
    using p o quiet_noise [of w w'] written_recorded
    by (cases x) (fastforce simp: idempotent_post_def kept_def ledgers_def dealt_with_def)+
next
  fix x w' assume p: "quiet w w' \<and> idempotent_post s b e t c w None (committed (mem w'))"
  then have o: "outcomes w' = outcomes w" by (simp add: quiet_def)
  show "kept e w w'"
    using p o written_recorded
    by (fastforce simp: idempotent_post_def kept_def ledgers_def dealt_with_def)
qed

text \<open>Once the event is dealt with, clearing its counter and settling the delivery keep it so.\<close>

lemma wp_finish_kept:
  assumes "kept e w0 w" "dealt_with e w"
  shows "wp (andThen (clearAttempts e) (andThen (channel_ack d) (ret x)))
    (\<lambda>_ w'. kept e w0 w') (\<lambda>_ w'. kept e w0 w') w"
proof -
  have clear: "kept e w0 w'" if "db_frame w w'" "same_business (committed (mem w)) (committed (mem w'))"
    "\<And>k. k \<noteq> e \<Longrightarrow> recorded k w' = recorded k w" for w'
  proof -
    have "ledgers e w w'"
      using that quiet_db_frame [OF that(1)]
      by (simp add: ledgers_def quiet_def same_business_def processed_ids_def)
    then have "kept e w w'" using ledgers_dealt [OF _ assms(2)] by (simp add: kept_def)
    then show ?thesis using assms(1) kept_trans by blast
  qed
  have ack: "wp (channel_ack d) (\<lambda>_. wp (ret x) (\<lambda>_ w'. kept e w0 w') (\<lambda>_ w'. kept e w0 w'))
      (\<lambda>_ w'. kept e w0 w') v" if "kept e w0 v" for v
    using kept_trans [OF that kept_same] by (simp add: channel_ack_def wp_eqs split: outcome.split)
  show ?thesis
    unfolding wp_andThen
  proof (rule wp_mono [OF wp_clearAttempts])
    fix u w' assume p: "db_frame w w' \<and> same_business (committed (mem w)) (committed (mem w')) \<and>
      (\<lambda>e'. recorded e' w') = (\<lambda>e'. recorded e' w)(e := 0)"
    have "recorded k w' = recorded k w" if "k \<noteq> e" for k
      using fun_cong [OF conjunct2 [OF conjunct2 [OF p]], of k] that by simp
    then show "wp (channel_ack d) (\<lambda>_. wp (ret x) (\<lambda>_ w'. kept e w0 w') (\<lambda>_ w'. kept e w0 w'))
        (\<lambda>_ w'. kept e w0 w') w'"
      using p by (intro ack clear) auto
  next
    fix u w' assume p: "db_frame w w' \<and> same_business (committed (mem w)) (committed (mem w')) \<and>
       u \<in> outside_errors w \<and> (\<lambda>e'. recorded e' w') \<in> {\<lambda>e'. recorded e' w, (\<lambda>e'. recorded e' w)(e := 0)}"
    then have "recorded k w' = recorded k w" if "k \<noteq> e" for k
      using that by (auto dest: fun_cong [of _ _ k])
    then show "kept e w0 w'" using p by (intro clear) auto
  qed
qed

lemma wp_process_kept:
  fixes ev :: jsval
  defines "i \<equiv> event_string ''eventId'' ev"
  shows "wp (process_event name t0 ev d) (\<lambda>_ w'. kept i w w') (\<lambda>_ w'. kept i w w') w"
  unfolding process_event_def Let_def i_def [symmetric] wp_bind [of "handleMessageCreationIdempotent _ _ _ _ _"]
proof (rule wp_mono [OF wp_handleIdem_kept])
  let ?R = "\<lambda>_ w'. kept i w w'"
  fix x v assume v: "kept i w v \<and> dealt_with i v"
  have fin: "wp (andThen (clearAttempts i) (andThen (channel_ack d) (ret y))) ?R ?R u"
    if "kept i w u" "dealt_with i u" for y u by (rule wp_finish_kept [OF that])
  have pub: "wp (lc_publish st ty n c errs) (\<lambda>_. wp (andThen (clearAttempts i) (andThen (channel_ack d) (ret y))) ?R ?R) ?R u"
    if "kept i w u" "dealt_with i u" for st ty n c errs y u
  proof (rule wp_lc_publish)
    fix u' assume f: "lc_frame u u'"
    have "kept i u u'" "dealt_with i u'"
      by (rule kept_same dealt_same; use quiet_lc_frame [OF f] that(2) in \<open>simp add: quiet_def\<close>)+
    then show "wp (andThen (clearAttempts i) (andThen (channel_ack d) (ret y))) ?R ?R u'"
      by (intro fin kept_trans [OF that(1)])
  qed
  show "wp (case x of
        None \<Rightarrow> andThen (count_metric (processed_metric ''messaging'' name ''duplicate''))
            (andThen (end_timer ''messaging'' t0 name ''duplicate'')
              (andThen (clearAttempts i) (andThen (channel_ack d) (ret NullResult))))
      | Some persisted \<Rightarrow> andThen (count_metric (processed_metric ''messaging'' name ''success''))
            (andThen (end_timer ''messaging'' t0 name ''success'')
              (andThen (lc_publish Persisted name i (event_string ''correlationId'' ev) [])
                (andThen (clearAttempts i) (andThen (channel_ack d) (ret (PersistedMessage persisted)))))))
      ?R ?R v"
  proof (cases x)
    case None
    show ?thesis unfolding None option.case wp_andThen [of "count_metric _"] wp_count_metric
      wp_andThen [of "end_timer _ _ _ _"] wp_end_timer
      by (rule fin) (use v in simp_all)
  next
    case (Some m)
    show ?thesis unfolding Some option.case wp_andThen [of "count_metric _"] wp_count_metric
      wp_andThen [of "end_timer _ _ _ _"] wp_end_timer wp_andThen [of "lc_publish _ _ _ _ _"]
      by (rule pub) (use v in simp_all)
  qed
qed

lemma wp_failure_kept:
  assumes "kept i w v"
  shows "wp (handle_failure Z name t0 ev n d err) (\<lambda>_ w'. kept i w w') (\<lambda>_ w'. kept i w w') v"
    (is "wp _ ?Q ?E _")
proof -
  have nack: "wp (channel_nack d b) (\<lambda>_. wp m Q ?E) ?E u"
    if "kept i w u" "\<And>u'. kept i w u' \<Longrightarrow> wp m Q ?E u'"
    for b u and m :: "(messaging_mem, 'x) io" and Q
    using that kept_trans [OF that(1) kept_same]
    by (simp add: channel_nack_def wp_eqs split: outcome.split)
  have ack: "wp (channel_ack d) (\<lambda>_. wp m Q ?E) ?E u"
    if "kept i w u" "\<And>u'. kept i w u' \<Longrightarrow> wp m Q ?E u'"
    for u and m :: "(messaging_mem, 'x) io" and Q
    using that kept_trans [OF that(1) kept_same]
    by (simp add: channel_ack_def wp_eqs split: outcome.split)
  have dlq: "wp (andThen (end_timer a b c e) (andThen (channel_nack d False) (ret Nothing))) ?Q ?E u"
    if "kept i w u" for a b c e u
    unfolding wp_andThen wp_end_timer wp_count_metric by (rule nack) (use that in \<open>simp_all add: wp_ret\<close>)
  have retry: "wp (bind (catching (andThen (publishToRetry x hs k c) (ret True))
          (\<lambda>publishErr. andThen (channel_nack d True) (andThen (end_timer a b c' e) (ret False))))
        (\<lambda>scheduled. if \<not> scheduled then ret Nothing
          else andThen (channel_ack d) (andThen (count_metric me) (andThen (end_timer a' b' c'' e') (ret Nothing)))))
      ?Q ?E u" (is "wp (bind _ ?after) _ _ _") if u: "kept i w u"
    for x hs k c a b c' e me a' b' c'' e' u
    unfolding wp_bind wp_catch wp_andThen [of "publishToRetry _ _ _ _"]
  proof (rule wp_mono [OF publishToRetry_effect])
    fix y u' assume "client_frame u u' \<and> (\<exists>ch.
       published (mem u') = published (mem u) @ [(ch, retry_copy x hs k u)] \<and>
       confirmed_since u u' (ch, retry_copy x hs k u))"
    then have "kept i u u'" using client_frame_service [of u u'] by (intro kept_same) auto
    then have "kept i w u'" using u kept_trans by blast
    then show "wp (ret True) (\<lambda>y. wp (?after y) ?Q ?E)
        (\<lambda>err. wp (andThen (channel_nack d True) (andThen (end_timer a b c' e) (ret False)))
          (\<lambda>y. wp (?after y) ?Q ?E) ?E) u'"
      unfolding wp_ret by (simp add: wp_andThen) (rule ack, simp_all add: wp_eqs)
  next
    fix y u' assume "client_frame u u' \<and> (published (mem u') = published (mem u) \<or>
       (\<exists>ch. published (mem u') = published (mem u) @ [(ch, retry_copy x hs k u)]))"
    then have "kept i u u'" using client_frame_service [of u u'] by (intro kept_same) auto
    then have "kept i w u'" using u kept_trans by blast
    then show "wp (andThen (channel_nack d True) (andThen (end_timer a b c' e) (ret False)))
          (\<lambda>y. wp (?after y) ?Q ?E) ?E u'"
      unfolding wp_andThen by (rule nack) (simp_all add: wp_eqs)
  qed
  show ?thesis
    unfolding handle_failure_def Let_def wp_bind [of now_ms] wp_now_ms wp_andThen [of "count_metric _"]
      wp_count_metric wp_if
    using dlq retry assms by simp
qed

text \<open>A delivery of the event: at most one more attempt on record, one more if it was processed.\<close>

definition attempted :: "string \<Rightarrow> messaging_mem world \<Rightarrow> messaging_mem world \<Rightarrow> bool" where
  "attempted i w w' \<longleftrightarrow> ledgers i w w' \<and> (dealt_with i w' \<or> recorded i w' = recorded i w + 1 \<or>
     recorded i w' = recorded i w \<and> quiet w w')"

lemma wp_valid_attempted:
  fixes ev :: jsval
  defines "i \<equiv> event_string ''eventId'' ev"
  shows "wp (handle_valid Z name t0 ev d) (\<lambda>_ w'. attempted i w w') (\<lambda>_ w'. attempted i w w') w"
  unfolding handle_valid_def Let_def i_def [symmetric] wp_bind [of "recordAttempt _"]
proof (rule wp_mono [OF wp_recordAttempt])
  fix n v assume p: "db_frame w v \<and> same_business (committed (mem w)) (committed (mem v)) \<and>
      n = recorded i w + 1 \<and> (\<lambda>e'. recorded e' v) = (\<lambda>e'. recorded e' w)(i := n)"
  have c: "recorded k v = (if k = i then recorded i w + 1 else recorded k w)" for k
    using p by (auto dest: fun_cong [of _ _ k])
  have l: "ledgers i w v"
    using p quiet_db_frame [of w v] by (simp add: ledgers_def quiet_def c same_business_def processed_ids_def)
  have after: "attempted i w w'" if "kept i v w'" for w'
    using that l ledgers_trans [OF l] by (auto simp: kept_def attempted_def c)
  have run: "wp (catching (process_event name t0 ev d) (handle_failure Z name t0 ev n d))
      (\<lambda>_ w'. attempted i w w') (\<lambda>_ w'. attempted i w w') u" if "kept i v u" for u
    unfolding wp_catch
  proof (rule wp_mono [OF wp_process_kept])
    fix x u' assume "kept (event_string ''eventId'' ev) u u'"
    then show "attempted i w u'" using after kept_trans [OF that] by (simp add: i_def)
  next
    fix x u' assume "kept (event_string ''eventId'' ev) u u'"
    then have "kept i v u'" using kept_trans [OF that] by (simp add: i_def)
    then show "wp (handle_failure Z name t0 ev n d x) (\<lambda>_ w'. attempted i w w') (\<lambda>_ w'. attempted i w w') u'"
      by (intro wp_mono [OF wp_failure_kept]) (auto intro: after)
  qed
  show "wp (andThen (lc_publish Received name i (event_string ''correlationId'' ev) [])
      (andThen (lc_publish Validated name i (event_string ''correlationId'' ev) [])
        (catching (process_event name t0 ev d) (handle_failure Z name t0 ev n d))))
      (\<lambda>_ w'. attempted i w w') (\<lambda>_ w'. attempted i w w') v"
    unfolding wp_andThen
    by (rule wp_lc_kept [OF kept_same], simp, simp, rule wp_lc_kept, assumption, rule run)
next
  fix x v assume p: "db_frame w v \<and> same_business (committed (mem w)) (committed (mem v)) \<and>
    x \<in> outside_errors w \<and> (\<lambda>e'. recorded e' v) \<in>
      {\<lambda>e'. recorded e' w, (\<lambda>e'. recorded e' w)(i := recorded i w + 1)}"
  then have "recorded k v = recorded k w \<or> k = i \<and> recorded k v = recorded k w + 1" for k
    by (auto simp: fun_eq_iff split: if_splits)
  then show "attempted i w v"
    using p quiet_db_frame [of w v] unfolding attempted_def ledgers_def
    by (auto simp: quiet_def same_business_def processed_ids_def)
qed


section \<open>The consumer is a budgeted handler\<close>

definition deliver :: "zod \<Rightarrow> jsval \<times> delivery \<Rightarrow> messaging_mem world \<Rightarrow> messaging_mem world" where
  "deliver Z a w = snd (handleMessage Z (fst a) (snd a) w)"

text \<open>A delivery of the event that is retried: a copy published, or the delivery itself requeued.\<close>

definition retried_for :: "zod \<Rightarrow> string \<Rightarrow> jsval \<times> delivery \<Rightarrow> messaging_mem world \<Rightarrow> bool" where
  "retried_for Z e a w \<longleftrightarrow>
     (case accepted_event Z (fst a) (snd a) of None \<Rightarrow> False
      | Some ev \<Rightarrow> event_string ''eventId'' ev = e) \<and>
     (published (mem (deliver Z a w)) \<noteq> published (mem w) \<or>
      Nack (deliveryTag (snd a)) True \<in> set (drop (length (settled (mem w))) (settled (mem (deliver Z a w)))))"

lemma delivered:
  assumes "accepted_event Z (fst a) (snd a) = Some ev"
  shows "attempted (event_string ''eventId'' ev) w (deliver Z a w) \<and>
    (handled ev (snd a) w (deliver Z a w) \<or> unsettled (attempt_number ev w) w (deliver Z a w))"
  using wp_valid_attempted [of Z "event_name (delivery_type (fst a) (snd a))" "clock w (calls w)" ev "snd a" w]
    wp_handle_valid [of Z "event_name (delivery_type (fst a) (snd a))" "clock w (calls w)" ev "snd a" w]
  by (auto simp: wp_def deliver_def handleMessage_accepted [OF assms] split: prod.splits sum.splits)

lemma wp_reject_same:
  "wp (reject_invalid name data errs d)
    (\<lambda>_ w'. outcomes w' = outcomes w \<and> committed (mem w') = committed (mem w))
    (\<lambda>_ w'. outcomes w' = outcomes w \<and> committed (mem w') = committed (mem w)) w"
  unfolding reject_invalid_def case_prod_beta Let_def wp_andThen wp_count_metric
proof (rule wp_lc_publish)
  fix v assume "lc_frame (w\<lparr>mem := (mem w)\<lparr>svc_metrics := svc_metrics (mem w) @
    [failed_metric ''messaging'' name VALIDATION]\<rparr>\<rparr>) v"
  from quiet_lc_frame [OF this] show "wp (channel_ack d) (\<lambda>_. wp (ret Nothing)
      (\<lambda>_ w'. outcomes w' = outcomes w \<and> committed (mem w') = committed (mem w))
      (\<lambda>_ w'. outcomes w' = outcomes w \<and> committed (mem w') = committed (mem w)))
    (\<lambda>_ w'. outcomes w' = outcomes w \<and> committed (mem w') = committed (mem w)) v"
    by (simp add: channel_ack_def wp_eqs quiet_def split: outcome.split)
qed

lemma not_delivered:
  assumes "accepted_event Z (fst a) (snd a) = None"
  shows "outcomes (deliver Z a w) = outcomes w \<and> committed (mem (deliver Z a w)) = committed (mem w)"
proof (cases "validateEvent Z (delivery_type (fst a) (snd a)) (fst a)")
  case (Inl errs)
  then have "deliver Z a w = snd (reject_invalid (event_name (delivery_type (fst a) (snd a))) (fst a) errs (snd a) w)"
    by (simp add: deliver_def handleMessage_def Let_def bind_def now_ms_def)
  then show ?thesis
    using wp_reject_same [of "event_name (delivery_type (fst a) (snd a))" "fst a" errs "snd a" w]
    by (simp add: wp_snd)
next
  case (Inr valid)
  with assms show ?thesis
    by (auto simp: accepted_event_def deliver_def handleMessage_def Let_def bind_def now_ms_def
        lift_sum_def throw_def split: if_splits sum.splits)
qed


interpretation poison: budgeted_handler "recorded e" "dealt_with e" "deliver Z" "retried_for Z e"
    "MAX_ATTEMPTS RETRY_CONFIG" for Z e
proof
  fix w :: "messaging_mem world" and a
  show "dealt_with e (deliver Z a w)" if "dealt_with e w"
  proof (cases "accepted_event Z (fst a) (snd a)")
    case None
    with not_delivered [OF None] that dealt_same show ?thesis by blast
  next
    case (Some ev)
    with delivered [OF Some] that ledgers_dealt show ?thesis unfolding attempted_def by blast
  qed
  assume unsolved: "\<not> dealt_with e (deliver Z a w)"
  show "recorded e w \<le> recorded e (deliver Z a w)"
  proof (cases "accepted_event Z (fst a) (snd a)")
    case None
    with not_delivered [OF None, of w] show ?thesis by simp
  next
    case (Some ev)
    with delivered [OF Some, of w] unsolved show ?thesis
      by (cases "event_string ''eventId'' ev = e") (auto simp: attempted_def ledgers_def)
  qed
  assume retried: "retried_for Z e a w"
  then obtain ev where ev: "accepted_event Z (fst a) (snd a) = Some ev" "event_string ''eventId'' ev = e"
    by (auto simp: retried_for_def split: option.splits)
  note d = delivered [OF ev(1), of w]
  have "\<not> quiet w (deliver Z a w)"
    using retried by (auto simp: retried_for_def quiet_def)
  moreover have "attempt_number ev w < MAX_ATTEMPTS RETRY_CONFIG"
    using d retried unsolved ev by (auto simp: handled_def unsettled_def acked_def failure_settled_def
        retried_for_def Let_def split: if_splits)
  ultimately show "recorded e (deliver Z a w) = recorded e w + 1 \<and> recorded e w + 1 < MAX_ATTEMPTS RETRY_CONFIG"
    using d unsolved ev by (auto simp: attempted_def attempt_number_def)
qed


section \<open>Properties\<close>

text \<open>A run of deliveries, and how many of them are retries of the event.\<close>

primrec deliver_all :: "zod \<Rightarrow> (jsval \<times> delivery) list \<Rightarrow> messaging_mem world \<Rightarrow> messaging_mem world" where
  "deliver_all Z [] w = w"
| "deliver_all Z (a # as) w = deliver_all Z as (deliver Z a w)"

primrec retries :: "zod \<Rightarrow> string \<Rightarrow> (jsval \<times> delivery) list \<Rightarrow> messaging_mem world \<Rightarrow> nat" where
  "retries Z e [] w = 0"
| "retries Z e (a # as) w = (if retried_for Z e a w then 1 else 0) + retries Z e as (deliver Z a w)"

lemma runs_agree: "poison.run_all Z as w = deliver_all Z as w" "poison.retry_count Z e as w = retries Z e as w"
  by (induction as arbitrary: w) simp_all

lemma deliver_outcomes: "outcomes (deliver Z a w) = outcomes w"
  using not_delivered [of Z a w] delivered [of Z a _ w]
  by (cases "accepted_event Z (fst a) (snd a)") (auto simp: attempted_def ledgers_def)

lemma deliver_all_outcomes: "outcomes (deliver_all Z as w) = outcomes w"
  by (induction as arbitrary: w) (simp_all add: deliver_outcomes)

text \<open>
  C14: A poison event is retried at most four times. However often an event comes back, in whatever
  mixture with other events, under whatever retry headers and whichever calls fail: as long as it is
  not in the processed ledger (and the outside produces no error that reads as a unique violation),
  the deliveries of it that were answered with a retry copy or a requeue number at most the attempt
  limit, less one, less the attempts that were on record before.
\<close>

theorem poison_event_bounded:
  assumes "\<not> unique_noise w" and "e \<notin> processed_ids (committed (mem (deliver_all Z ds w)))"
  shows "int (retries Z e ds w) \<le>
    max 0 (MAX_ATTEMPTS RETRY_CONFIG - 1 - find_attempts e (committed (mem w)))"
proof -
  have "unique_noise (deliver_all Z ds w) = unique_noise w"
    by (simp add: unique_noise_def outside_errors_def deliver_all_outcomes)
  then have "\<not> dealt_with e (poison.run_all Z ds w)"
    using assms by (simp add: dealt_with_def runs_agree)
  from poison.retries_bounded [OF this] show ?thesis by (simp add: runs_agree)
qed

text \<open>A database that refuses connections while the broker is down too: the delivery is requeued.\<close>

definition refusing_world :: "messaging_mem world" where
  "refusing_world = (start_world (new_service no_tables))\<lparr>outcomes := \<lambda>n. if n \<in> {1, 2}
     then Fails (JErr ''Error'' [(''code'', JStr ''ECONNREFUSED'')]) else Done\<rparr>"

theorem poison_event_bounded_witness:
  "retries accepting_zod ''e'' [(example_event, example_delivery)] refusing_world = 1 \<and>
   int (retries accepting_zod ''e'' [(example_event, example_delivery)] refusing_world) \<le> 4"
proof
  let ?a = "(example_event, example_delivery)"
  have run: "committed (mem (deliver accepting_zod ?a refusing_world)) = no_tables\<lparr>event_attempts :=
      [\<lparr>ea_eventId = ''e'', ea_attempts = 1, ea_updatedAt = 0\<rparr>]\<rparr> \<and>
    settled (mem (deliver accepting_zod ?a refusing_world)) = [Nack 1 True]"
    by code_simp
  then show "retries accepting_zod ''e'' [?a] refusing_world = 1"
    by (simp add: retried_for_def example_accepted example_delivery_def refusing_world_def new_service_def)
  have "\<not> unique_noise refusing_world"
    by (auto simp: unique_noise_def outside_errors_def refusing_world_def isUniqueViolation_def get_prop_def)
  from poison_event_bounded [OF this, of "''e''" accepting_zod "[?a]"]
  show "int (retries accepting_zod ''e'' [?a] refusing_world) \<le> 4"
    using run by (simp add: processed_ids_def no_tables_def refusing_world_def new_service_def
        find_attempts_def RETRY_CONFIG_def)
qed

end
