(* ===== verification/Wire_Format.thy ===== *)
theory Wire_Format
  imports Contracts
begin

text \<open>
  Events cross the wire as JSON: the gateway stores the validated event in a \<open>jsonb\<close> column, the relay
  publishes its text, the consumer parses it and validates it again
  (\<open>libs/contracts/src/events/validate-event.ts\<close> on both sides). What one side accepts, the other
  accepts unchanged: the schemas are stable under JSON.
\<close>

section \<open>Schemas whose values survive JSON\<close>

text \<open>
  A schema that never yields \<open>undefined\<close>; in an array or a record, \<open>undefined\<close> would come back as
  \<open>null\<close> or not at all.
\<close>

fun definite :: "schema \<Rightarrow> bool" where
  "definite (ZOptional _) = False"
| "definite (ZDefault s d) \<longleftrightarrow> definite s \<and> d \<noteq> JUndef"
| "definite _ = True"

text \<open>
  Distinct member names, definite elements, and defaults that satisfy the schema they stand for
  and are JSON themselves.
\<close>

fun wire_schema :: "(string \<Rightarrow> bool) \<Rightarrow> (string \<Rightarrow> bool) \<Rightarrow> schema \<Rightarrow> bool" where
  "wire_schema u d (ZArray mn s) \<longleftrightarrow> definite s \<and> wire_schema u d s"
| "wire_schema u d (ZOptional s) \<longleftrightarrow> wire_schema u d s"
| "wire_schema u d (ZDefault s x) \<longleftrightarrow> definite s \<and> wire_schema u d s \<and> x \<noteq> JUndef \<and> json_of x = x \<and>
     documented u d s x = Some x"
| "wire_schema u d (ZRecord ks s mx) \<longleftrightarrow> definite s \<and> wire_schema u d s"
| "wire_schema u d (ZObject fs) \<longleftrightarrow> distinct (map fst fs) \<and> (\<forall>x\<in>set fs. wire_schema u d (snd x))"
| "wire_schema u d _ \<longleftrightarrow> True"

lemma json_of_undef [simp]: "json_of v = JUndef \<longleftrightarrow> v = JUndef"
  by (cases v) auto

lemma documented_undef:
  "documented u d s v = Some JUndef \<Longrightarrow> definite s \<Longrightarrow> False"
  by (induction s arbitrary: v) (auto split: jsval.splits if_splits)

text \<open>The members of an object after JSON.\<close>

lemma json_members:
  "json_of (JObj kvs) = JObj (map (\<lambda>(k, v). (k, json_of v)) (filter (\<lambda>(k, v). v \<noteq> JUndef) kvs))"
  by simp

lemma get_prop_json:
  assumes "distinct (map fst kvs)"
  shows "get_prop k (json_of (JObj kvs)) = json_of (get_prop k (JObj kvs))"
proof -
  have "get_prop k (JObj (filter (\<lambda>(k, v). v \<noteq> JUndef) kvs)) = get_prop k (JObj kvs)"
    by (rule get_prop_filter [OF assms]) auto
  moreover have "get_prop k (JObj (map (\<lambda>(k, v). (k, json_of v)) xs)) = json_of (get_prop k (JObj xs))"
    for xs by (induction xs) (auto simp: get_prop_def)
  ultimately show ?thesis by simp
qed

lemma get_prop_zip:
  assumes "distinct ks" "length ks = length ws" "i < length ks"
  shows "get_prop (ks ! i) (JObj (zip ks ws)) = ws ! i"
  using assms by (simp add: get_prop_def map_of_zip_nth)

lemma json_members_idem:
  "\<forall>(k, v)\<in>set kvs. v \<noteq> JUndef \<longrightarrow> json_of (json_of v) = json_of v \<Longrightarrow>
     json_of (json_of (JObj kvs)) = json_of (JObj kvs)"
  by (induction kvs) (auto simp: case_prod_beta)

lemma json_of_idem [simp]: "json_of (json_of v) = json_of v"
proof (induction v rule: json_of.induct)
  case (1 vs)
  then show ?case by (auto split: if_splits)
next
  case (2 kvs)
  then show ?case by (intro json_members_idem) auto
next
  case (3 c kvs)
  then show ?case using json_members_idem [of kvs] by auto
qed auto

section \<open>Stability\<close>

lemma object_stable:
  assumes dist: "distinct (map fst fs)"
    and IH: "\<And>k s v w. (k, s) \<in> set fs \<Longrightarrow> documented u d s v = Some w \<Longrightarrow>
      documented u d s (json_of w) = Some (json_of w)"
    and doc: "documented u d (ZObject fs) v = Some w"
  shows "documented u d (ZObject fs) (json_of w) = Some (json_of w)"
proof -
  obtain kvs ws where v: "v = JObj kvs"
    and ws: "all_some (map (\<lambda>(k, s). documented u d s (get_prop k v)) fs) = Some ws"
    and w: "w = JObj (filter (\<lambda>(k, w). w \<noteq> JUndef \<or> k \<in> fst ` set kvs) (zip (map fst fs) ws))"
    using doc by (auto split: jsval.splits)
  let ?ks = "map fst fs" and ?js = "map json_of ws"
  have map: "map (\<lambda>(k, s). documented u d s (get_prop k v)) fs = map Some ws"
    using ws by (simp add: all_some_iff)
  have len: "length ?ks = length ws" using map by (metis length_map)
  have j: "json_of w = JObj (filter (\<lambda>(k, x). x \<noteq> JUndef) (zip ?ks ?js))"
  proof -
    have "filter (\<lambda>(k, v). v \<noteq> JUndef) (filter (\<lambda>(k, w). w \<noteq> JUndef \<or> k \<in> fst ` set kvs) (zip ?ks ws)) =
        filter (\<lambda>(k, v). v \<noteq> JUndef) (zip ?ks ws)"
      by (auto simp: filter_filter intro!: filter_cong)
    moreover have "map (\<lambda>(k, v). (k, json_of v)) (filter (\<lambda>(k, v). v \<noteq> JUndef) (zip xs ys)) =
        filter (\<lambda>(k, v). v \<noteq> JUndef) (zip xs (map json_of ys))" for xs :: "string list" and ys
      by (induction xs ys rule: list_induct2') auto
    ultimately show ?thesis unfolding w json_members by simp
  qed
  have member: "get_prop (?ks ! i) (json_of w) = ?js ! i" if "i < length fs" for i
  proof -
    have "get_prop (?ks ! i) (json_of w) = get_prop (?ks ! i) (JObj (zip ?ks ?js))"
      unfolding j by (rule get_prop_filter) (use dist len in auto)
    also have "\<dots> = ?js ! i"
      by (rule get_prop_zip) (use dist len that in auto)
    finally show ?thesis .
  qed
  have "map (\<lambda>(k, s). documented u d s (get_prop k (json_of w))) fs = map Some ?js"
  proof (rule nth_equalityI)
    fix i assume "i < length (map (\<lambda>(k, s). documented u d s (get_prop k (json_of w))) fs)"
    then have i: "i < length fs" by simp
    obtain k s where ks: "fs ! i = (k, s)" by fastforce
    have "documented u d s (get_prop k v) = Some (ws ! i)"
      using arg_cong [OF map, of "\<lambda>xs. xs ! i"] i ks len by simp
    from IH [OF _ this] have "documented u d s (?js ! i) = Some (?js ! i)"
      using i ks nth_mem [OF i] len by simp
    then show "map (\<lambda>(k, s). documented u d s (get_prop k (json_of w))) fs ! i = map Some ?js ! i"
      using member [OF i] i ks len by simp
  qed (use len in simp)
  then have all: "all_some (map (\<lambda>(k, s). documented u d s (get_prop k (json_of w))) fs) = Some ?js"
    by (simp only: all_some_map)
  have "filter (\<lambda>(k, x). x \<noteq> JUndef \<or> k \<in> fst ` set (filter (\<lambda>(k, x). x \<noteq> JUndef) (zip ?ks ?js)))
      (zip ?ks ?js) = filter (\<lambda>(k, x). x \<noteq> JUndef) (zip ?ks ?js)"
  proof (rule filter_cong [OF refl])
    fix y assume y: "y \<in> set (zip ?ks ?js)"
    obtain k x where yx: "y = (k, x)" by fastforce
    have "x' = x" if "(k, x') \<in> set (zip ?ks ?js)" for x'
      by (rule eq_key_imp_eq_value [OF _ that]) (use y yx dist len in simp_all)
    then show "(case y of (k, x) \<Rightarrow> x \<noteq> JUndef \<or> k \<in> fst ` set (filter (\<lambda>(k, x). x \<noteq> JUndef) (zip ?ks ?js))) =
        (case y of (k, x) \<Rightarrow> x \<noteq> JUndef)"
      using yx by force
  qed
  with all j show ?thesis by simp
qed

lemma elements_stable:
  assumes IH: "\<And>v w. v \<in> set vs \<Longrightarrow> documented u d s v = Some w \<Longrightarrow>
      documented u d s (json_of w) = Some (json_of w)"
    and ws: "map (documented u d s) vs = map Some ws"
  shows "all_some (map (documented u d s) (map json_of ws)) = Some (map json_of ws)"
proof -
  have "documented u d s (json_of w) = Some (json_of w)" if "w \<in> set ws" for w
  proof -
    have "Some w \<in> set (map (documented u d s) vs)" unfolding ws using that by simp
    then show ?thesis using IH by auto
  qed
  then show ?thesis by (simp add: all_some_iff)
qed

lemma definite_elements:
  assumes "definite s" and "map (documented u d s) vs = map Some ws"
  shows "JUndef \<notin> set ws"
proof
  assume "JUndef \<in> set ws"
  then have "Some JUndef \<in> set (map Some ws)" by simp
  then obtain v where "documented u d s v = Some JUndef"
    unfolding assms(2) [symmetric] by auto
  with documented_undef assms(1) show False by blast
qed

lemma documented_stable:
  assumes "wire_schema u d s" and "documented u d s v = Some w"
  shows "documented u d s (json_of w) = Some (json_of w)"
  using assms
proof (induction s arbitrary: v w)
  case (ZArray mn s)
  then obtain vs ws where "v = JArr vs" "mn \<le> length vs" and ws: "map (documented u d s) vs = map Some ws"
    and w: "w = JArr ws" by (auto simp: all_some_iff split: jsval.splits if_splits)
  moreover have "all_some (map (documented u d s) (map json_of ws)) = Some (map json_of ws)"
    by (rule elements_stable [OF _ ws]) (use ZArray in auto)
  moreover have "json_of w = JArr (map json_of ws)"
    unfolding w using definite_elements [OF _ ws] ZArray.prems(1) by (auto intro!: map_cong)
  moreover have "length ws = length vs" using ws by (metis length_map)
  ultimately show ?case by (simp del: map_map list.map_comp json_of.simps)
next
  case (ZRecord ks s mx)
  then obtain kvs ws where v: "v = JObj kvs" "length kvs \<le> mx"
      "\<forall>k\<in>set (map fst kvs). documented u d ks (JStr k) \<noteq> None"
    and ws: "map (documented u d s) (map snd kvs) = map Some ws" and w: "w = JObj (zip (map fst kvs) ws)"
    by (auto simp: all_some_iff split: jsval.splits if_splits)
  have len: "length ws = length kvs" using ws by (metis length_map)
  have el: "all_some (map (documented u d s) (map json_of ws)) = Some (map json_of ws)"
    by (rule elements_stable [OF _ ws]) (use ZRecord in auto)
  have "JUndef \<notin> set ws" using definite_elements [OF _ ws] ZRecord.prems(1) by simp
  then have "filter (\<lambda>(k, v). v \<noteq> JUndef) (zip (map fst kvs) ws) = zip (map fst kvs) ws"
    by (auto simp: filter_id_conv dest: set_zip_rightD)
  moreover have "map (\<lambda>(k, v). (k, json_of v)) (zip xs ys) = zip xs (map json_of ys)" for xs :: "string list" and ys
    by (induction xs ys rule: list_induct2') auto
  ultimately have j: "json_of w = JObj (zip (map fst kvs) (map json_of ws))"
    unfolding w json_members by simp
  show ?case
    unfolding j using v(2,3) el len by (simp del: map_map list.map_comp)
next
  case (ZObject fs)
  show ?case
  proof (rule object_stable [OF _ _ ZObject.prems(2)])
    fix k s v w assume "(k, s) \<in> set fs" "documented u d s v = Some w"
    with ZObject show "documented u d s (json_of w) = Some (json_of w)"
      by (metis snd_conv snds.intros wire_schema.simps(5))
  qed (use ZObject.prems in simp)
qed (auto split: jsval.splits if_splits dest: documented_undef)

text \<open>The two contracts.\<close>

lemma registry_wire: "wire_schema u d (EventRegistry t)"
  by (cases t) (simp_all add: v1_schema(1) v2_schema(1) v1_members_def v2_members_def serviceIdSchema_def
      schemaVersionSchema_def createMessageEventV1PayloadSchema_def createMessageEventV2PayloadSchema_def
      messagePrioritySchema_def MESSAGE_PRIORITIES_def messageMetadataSchema_def)

lemma json_valid:
  "zod_documented Z \<Longrightarrow> validateEvent Z t raw = Inr ev \<Longrightarrow> validateEvent Z t (json_of ev) = Inr (json_of ev)"
  using documented_stable [OF registry_wire] by (simp add: validateEvent_iff)

lemma json_member:
  assumes "documented u d (ZObject fs) v = Some w" "distinct (map fst fs)"
  shows "get_prop k (json_of w) = json_of (get_prop k w)"
proof -
  obtain ws P where w: "w = JObj (filter P (zip (map fst fs) ws))"
    using assms(1) by (auto split: jsval.splits)
  have "distinct (map fst (filter P (zip (map fst fs) ws)))"
    using assms(2) by (intro distinct_map_filter) (simp add: map_fst_zip_take distinct_take)
  then show ?thesis unfolding w by (rule get_prop_json)
qed

section \<open>Properties\<close>

text \<open>
  C27: A contract survives the wire. Whatever a validator accepts, under either contract, it accepts
  again after the accepted event has gone through JSON, and returns exactly the JSON that arrived:
  identifiers, priority, metadata and content are those the producer validated.
\<close>

theorem validation_survives_json:
  assumes "zod_documented Z" and "validateEvent Z t raw = Inr ev"
  shows "validateEvent Z t (json_of ev) = Inr (json_of ev)"
  by (rule json_valid [OF assms])

theorem validation_survives_json_witness:
  "\<exists>ev. validateEvent sample_zod CreateMessageV1 sample_v1 = Inr ev \<and>
     validateEvent sample_zod CreateMessageV1 (json_of ev) = Inr (json_of ev)"
proof -
  obtain ev where ev: "validateEvent sample_zod CreateMessageV1 sample_v1 = Inr ev"
    using sample_v1_valid by blast
  with validation_survives_json [OF sample_zod_documented ev] show ?thesis by blast
qed

end
