(* ===== verification/Event_Pipeline.thy ===== *)
theory Event_Pipeline
  imports Gateway_Controller Messaging_Controller Wire_Format Outbox_Relay
begin

text \<open>
  The two ends of the contract: what the gateway (\<open>apps/gateway/src/app.controller.ts\<close>) stores in its
  outbox, and what the handler of the consumer (\<open>apps/messaging/src/messaging.controller.ts\<close>) accepts, in
  either version. The two services share no code but \<open>libs/contracts\<close>; the way between them is in
  \<open>Dispatch\<close> and \<open>End_To_End\<close>.
\<close>

section \<open>The producer's side\<close>

definition endpoint :: "zod \<Rightarrow> bool \<Rightarrow> (string \<times> jsval) list \<Rightarrow> (gateway_mem, jsval) io" where
  "endpoint Z v2 headers = (if v2 then sendTestMessageV2 Z headers else sendTestMessage Z headers)"

definition endpoint_type :: "bool \<Rightarrow> EventType" where
  "endpoint_type v2 = (if v2 then CreateMessageV2 else CreateMessageV1)"

definition endpoint_subject :: "bool \<Rightarrow> string" where
  "endpoint_subject v2 = (if v2 then ''System test message (v2)'' else ''System test message'')"

text \<open>What the endpoints build: the version member and the text of the message.\<close>

definition built :: "bool \<Rightarrow> jsval \<Rightarrow> bool" where
  "built v2 raw \<longleftrightarrow> get_prop ''schemaVersion'' raw = (if v2 then JStr ''2'' else JUndef) \<and>
     get_prop ''subject'' (get_prop ''payload'' raw) = JStr (endpoint_subject v2) \<and>
     get_prop ''content'' (get_prop ''payload'' raw) = JStr ''Hello RabbitMQ!''"

definition emitted :: "zod \<Rightarrow> bool \<Rightarrow> jsval \<Rightarrow> gateway_mem world \<Rightarrow> gateway_mem world \<Rightarrow> outbox_row \<Rightarrow>
    jsval \<Rightarrow> jsval \<Rightarrow> bool" where
  "emitted Z v2 corr g g' row raw valid \<longleftrightarrow> validateEvent Z (endpoint_type v2) raw = Inr valid \<and> built v2 raw \<and>
     gateway_recorded (outbox_input (endpoint_type v2) corr valid) (committed (mem g)) row (committed (mem g'))"

lemma wp_endpoint:
  assumes "zod_documented Z"
  shows "wp (endpoint Z v2 headers)
    (\<lambda>resp g'. \<exists>row raw valid. emitted Z v2 (request_correlation headers) g g' row raw valid \<and>
       resp = accepted_response (endpoint_type v2) (request_correlation headers) valid row)
    (\<lambda>_ g'. committed (mem g') = committed (mem g) \<or>
       (\<exists>row raw valid. emitted Z v2 (request_correlation headers) g g' row raw valid)) g"
proof -
  let ?corr = "request_correlation headers"
  have emit: "wp (emit_event Z (endpoint_type v2) ?corr started raw)
      (\<lambda>resp g'. \<exists>row raw valid. emitted Z v2 ?corr g g' row raw valid \<and>
         resp = accepted_response (endpoint_type v2) ?corr valid row)
      (\<lambda>_ g'. committed (mem g') = committed (mem g) \<or> (\<exists>row raw valid. emitted Z v2 ?corr g g' row raw valid)) u"
    if "committed (mem u) = committed (mem g)" "built v2 raw" for started raw u
    by (rule wp_mono [OF wp_emit_event]) (use that in \<open>auto simp: emitted_def\<close>)
  have parsed: "get_prop ''subject'' pl = get_prop ''subject'' v \<and> get_prop ''content'' pl = get_prop ''content'' v"
    if "zod_parse_or_throw Z createMessageEventV2PayloadSchema v = Inr pl" for v pl
  proof -
    have "doc Z createMessageEventV2PayloadSchema v = Some pl"
      using that zparse_iff [OF assms] by (auto simp: zod_parse_or_throw_def split: sum.splits)
    from v2_payload_members [OF this] show ?thesis by blast
  qed
  show ?thesis
  proof (cases v2)
    case True
    show ?thesis
      using emit True parsed
      by (auto simp: endpoint_def endpoint_type_def sendTestMessageV2_def Let_def wp_bind wp_now_ms
          buildCreateMessageEventV2_def wp_randomUUID lift_sum_def wp_ret wp_throw built_def
          endpoint_subject_def split: sum.split)
  next
    case False
    show ?thesis
      using emit False
      by (auto simp: endpoint_def endpoint_type_def sendTestMessage_def Let_def wp_bind wp_now_ms
          buildCreateMessageEventV1_def wp_randomUUID wp_ret built_def endpoint_subject_def)
  qed
qed

section \<open>The consumer's side\<close>

text \<open>Members of a valid event and of its payload, before and after JSON.\<close>

lemma valid_members:
  assumes "zod_documented Z" "validateEvent Z t raw = Inr ev"
  shows "\<exists>i. get_prop ''eventId'' ev = JStr i" "\<exists>c. get_prop ''correlationId'' ev = JStr c"
    "get_prop ''schemaVersion'' ev = get_prop ''schemaVersion'' raw"
    "\<exists>s. get_prop ''subject'' (get_prop ''payload'' ev) = JStr s"
    "\<exists>b. get_prop ''content'' (get_prop ''payload'' ev) = JStr b"
    "get_prop ''subject'' (get_prop ''payload'' ev) = get_prop ''subject'' (get_prop ''payload'' raw)"
    "get_prop ''content'' (get_prop ''payload'' ev) = get_prop ''content'' (get_prop ''payload'' raw)"
proof -
  have d: "doc Z (EventRegistry t) raw = Some ev" using assms(2) by (simp add: validateEvent_iff [OF assms(1)])
  have env: "envelope_ok Z raw ev" using d v1_valid v2_valid by (cases t) auto
  then show "\<exists>i. get_prop ''eventId'' ev = JStr i" "\<exists>c. get_prop ''correlationId'' ev = JStr c"
    "get_prop ''schemaVersion'' ev = get_prop ''schemaVersion'' raw"
    by (auto simp: envelope_ok_def)
  have "(\<exists>s. get_prop ''subject'' (get_prop ''payload'' ev) = JStr s) \<and>
    (\<exists>b. get_prop ''content'' (get_prop ''payload'' ev) = JStr b) \<and>
    get_prop ''subject'' (get_prop ''payload'' ev) = get_prop ''subject'' (get_prop ''payload'' raw) \<and>
    get_prop ''content'' (get_prop ''payload'' ev) = get_prop ''content'' (get_prop ''payload'' raw)"
  proof (cases t)
    case CreateMessageV1
    with d v1_valid [of Z raw ev] v1_payload_members show ?thesis by fastforce
  next
    case CreateMessageV2
    with d v2_valid [of Z raw ev] v2_payload_members show ?thesis by fastforce
  qed
  then show "\<exists>s. get_prop ''subject'' (get_prop ''payload'' ev) = JStr s"
    "\<exists>b. get_prop ''content'' (get_prop ''payload'' ev) = JStr b"
    "get_prop ''subject'' (get_prop ''payload'' ev) = get_prop ''subject'' (get_prop ''payload'' raw)"
    "get_prop ''content'' (get_prop ''payload'' ev) = get_prop ''content'' (get_prop ''payload'' raw)"
    by blast+
qed

lemma json_envelope:
  assumes "zod_documented Z" "validateEvent Z t raw = Inr ev"
  shows "get_prop k (json_of ev) = json_of (get_prop k ev)"
    "get_prop k (get_prop ''payload'' (json_of ev)) = json_of (get_prop k (get_prop ''payload'' ev))"
proof -
  have d: "doc Z (EventRegistry t) raw = Some ev" using assms(2) by (simp add: validateEvent_iff [OF assms(1)])
  have m: "get_prop k (json_of ev) = json_of (get_prop k ev)" for k
    using d by (cases t) (auto simp only: EventRegistry.simps v1_schema(1) v2_schema(1)
        intro: json_member v1_schema(2) v2_schema(2))
  then show "get_prop k (json_of ev) = json_of (get_prop k ev)" .
  have "get_prop k (json_of (get_prop ''payload'' ev)) = json_of (get_prop k (get_prop ''payload'' ev))"
  proof (cases t)
    case CreateMessageV1
    then have "doc Z createMessageEventV1PayloadSchema (get_prop ''payload'' raw) = Some (get_prop ''payload'' ev)"
      using d v1_valid by simp
    then show ?thesis unfolding createMessageEventV1PayloadSchema_def by (rule json_member) simp
  next
    case CreateMessageV2
    then have "doc Z createMessageEventV2PayloadSchema (get_prop ''payload'' raw) = Some (get_prop ''payload'' ev)"
      using d v2_valid by simp
    then show ?thesis unfolding createMessageEventV2PayloadSchema_def by (rule json_member) simp
  qed
  then show "get_prop k (get_prop ''payload'' (json_of ev)) = json_of (get_prop k (get_prop ''payload'' ev))"
    by (simp only: m)
qed

text \<open>The consumer accepts what the producer stored, in the version it was written in.\<close>

lemma consumed_type:
  assumes "zod_documented Z" "validateEvent Z (endpoint_type v2) raw = Inr ev" "built v2 raw"
    and "coerceToSchemaVersion (readSchemaVersionHeader d) = None"
  shows "delivery_type (json_of ev) d = endpoint_type v2"
proof -
  have doc: "doc Z (EventRegistry (endpoint_type v2)) (json_of ev) = Some (json_of ev)"
    using json_valid [OF assms(1,2)] by (simp add: validateEvent_iff [OF assms(1)])
  show ?thesis
  proof (cases v2)
    case True
    with dispatch_v2 [of Z "json_of ev" "json_of ev"] doc show ?thesis
      by (simp add: delivery_type_def delivery_version_def endpoint_type_def)
  next
    case False
    have "get_prop ''schemaVersion'' (json_of ev) = JUndef"
      using json_envelope(1) [OF assms(1,2)] valid_members(3) [OF assms(1,2)] assms(3) False
      by (simp add: built_def)
    with dispatch_v1 [of Z "json_of ev" "json_of ev"] doc False assms(4) show ?thesis
      by (simp add: delivery_type_def delivery_version_def endpoint_type_def)
  qed
qed

lemma consumed_event:
  assumes "zod_documented Z" "validateEvent Z (endpoint_type v2) raw = Inr ev" "built v2 raw"
    and "coerceToSchemaVersion (readSchemaVersionHeader d) = None"
  obtains ev2 where "accepted_event Z (json_of ev) d = Some ev2"
    "event_string ''eventId'' ev2 = event_string ''eventId'' ev"
    "event_string ''correlationId'' ev2 = event_string ''correlationId'' ev"
    "payload_string ''subject'' ev2 = Some (endpoint_subject v2)"
    "payload_string ''content'' ev2 = Some ''Hello RabbitMQ!''"
proof -
  note m = valid_members [OF assms(1,2)] and j = json_envelope [OF assms(1,2)]
  note again = json_valid [OF assms(1,2)] and ty = consumed_type [OF assms]
  have ids: "get_prop ''eventId'' (json_of ev) = get_prop ''eventId'' ev"
    "get_prop ''correlationId'' (json_of ev) = get_prop ''correlationId'' ev"
    "get_prop ''subject'' (get_prop ''payload'' (json_of ev)) = JStr (endpoint_subject v2)"
    "get_prop ''content'' (get_prop ''payload'' (json_of ev)) = JStr ''Hello RabbitMQ!''"
    using m(1,2) m(6,7) j assms(3) by (auto simp: built_def)
  show ?thesis
  proof (cases v2)
    case True
    with again ty have "accepted_event Z (json_of ev) d = Some (json_of ev)"
      by (simp add: accepted_event_def endpoint_type_def)
    from that [OF this] ids show ?thesis by (simp add: event_string_def payload_string_def)
  next
    case False
    with again have v1: "validateEvent Z CreateMessageV1 (json_of ev) = Inr (json_of ev)"
      by (simp add: endpoint_type_def)
    from upcast_members [OF assms(1) v1] obtain ev2 where up:
      "upcastCreateMessageEventV1ToV2 Z (json_of ev) = Inr ev2"
      "\<forall>k\<in>{''eventId'', ''correlationId'', ''timestamp'', ''source'', ''trace''}.
         get_prop k ev2 = get_prop k (json_of ev)"
      "\<forall>k\<in>{''subject'', ''content'', ''recipient''}.
         get_prop k (get_prop ''payload'' ev2) = get_prop k (get_prop ''payload'' (json_of ev))" by blast
    with False again ty have "accepted_event Z (json_of ev) d = Some ev2"
      by (simp add: accepted_event_def endpoint_type_def)
    from that [OF this] up(2,3) ids show ?thesis by (simp add: event_string_def payload_string_def)
  qed
qed

section \<open>A delivery that goes well\<close>

lemma handleIdem_done:
  assumes "outcomes w = (\<lambda>_. Done)" "e \<notin> processed_ids (committed (mem w))"
    "\<not> event_id_taken (fresh w (uuids w)) (outbox_events (committed (mem w)))"
  obtains m w' where "handleMessageCreationIdempotent s b e t c w = (Inr (Some m), w')"
    "msg_title m = or_else s ''Untitled''" "msg_content m = or_else b ''No content''"
    "m \<in> set (messages (committed (mem w')))"
proof -
  have "\<exists>m w'. handleMessageCreationIdempotent s b e t c w = (Inr (Some m), w')"
    using assms
    by (simp add: handleMessageCreationIdempotent_def runIdempotentWithOutboxEvents_def begin_tx_def
      release_tx_def commit_tx_def rollback_tx_def idempotency_insert_def in_tx_def insert_processed_def
      insert_message_def next_id_def save_message_def insertOutboxEvents_def insert_outbox_def io_defs
      Let_def processed_ids_def captureTraceContextCarrier_def)
  then obtain m w' where run: "handleMessageCreationIdempotent s b e t c w = (Inr (Some m), w')" by blast
  from wp_result [OF wp_handleMessageCreationIdempotent this]
  show ?thesis by (intro that [OF run]) (auto simp: idempotent_post_def written_once_def)
qed

lemma handleMessage_done:
  assumes acc: "accepted_event Z data d = Some ev"
    and w: "outcomes w = (\<lambda>_. Done)" "\<not> lc_enabled (mem w)"
    and new: "event_string ''eventId'' ev \<notin> processed_ids (committed (mem w))"
      "\<not> event_id_taken (fresh w (uuids w)) (outbox_events (committed (mem w)))"
  obtains m w' where "handleMessage Z data d w = (Inr (PersistedMessage m), w')"
    "msg_title m = or_else (payload_string ''subject'' ev) ''Untitled''"
    "msg_content m = or_else (payload_string ''content'' ev) ''No content''"
    "m \<in> set (messages (committed (mem w')))" "settled (mem w') = settled (mem w) @ [Ack (deliveryTag d)]"
proof -
  let ?i = "event_string ''eventId'' ev" and ?c = "event_string ''correlationId'' ev"
  obtain n w1 where a: "recordAttempt ?i w = (Inr n, w1)"
    and w1: "outcomes w1 = (\<lambda>_. Done)" "uuids w1 = uuids w" "fresh w1 = fresh w"
      "processed_ids (committed (mem w1)) = processed_ids (committed (mem w))"
      "outbox_events (committed (mem w1)) = outbox_events (committed (mem w))"
    using w(1) by (simp add: recordAttempt_def autocommit_def request_def Let_def case_prod_beta processed_ids_def)
  note f1 = wp_result [OF wp_recordAttempt a]
  from handleIdem_done [of w1 ?i, unfolded w1, OF refl new] obtain m w2 where
    h: "handleMessageCreationIdempotent (payload_string ''subject'' ev) (payload_string ''content'' ev) ?i
      (event_name (delivery_type data d)) (Some ?c) w1 = (Inr (Some m), w2)"
    and m: "msg_title m = or_else (payload_string ''subject'' ev) ''Untitled''"
      "msg_content m = or_else (payload_string ''content'' ev) ''No content''"
      "m \<in> set (messages (committed (mem w2)))" by metis
  note f2 = wp_result [OF wp_handleMessageCreationIdempotent h]
  have fr: "db_frame w w1" "db_frame w1 w2" using f1 f2 by blast+
  then have off: "\<not> lc_enabled (mem w1)" "\<not> lc_enabled (mem w2)" using w(2) by (simp_all add: db_frame_lc)
  have q: "outcomes w2 = (\<lambda>_. Done)" "settled (mem w2) = settled (mem w)"
    using quiet_db_frame [OF fr(1)] quiet_db_frame [OF fr(2)] w(1) by (simp_all add: quiet_def)
  show ?thesis
  proof (rule that)
    show "handleMessage Z data d w = (Inr (PersistedMessage m), snd (handleMessage Z data d w))"
      "m \<in> set (messages (committed (mem (snd (handleMessage Z data d w)))))"
      "settled (mem (snd (handleMessage Z data d w))) = settled (mem w) @ [Ack (deliveryTag d)]"
      using off q m(3)
      by (simp_all add: handleMessage_accepted [OF acc] handle_valid_def Let_def bind_def a andThen_def
        lc_publish_disabled catching_def process_event_def h count_metric_def end_timer_def now_ms_def
        modify_def ret_def clearAttempts_def autocommit_def request_def channel_ack_def external_def)
  qed (fact m)+
qed


section \<open>The stored row\<close>

lemma emitted_row:
  assumes "emitted Z v2 corr g g' row raw valid"
  shows "committed (mem g') = committed (mem g) @ [row]" "event_type row = event_name (endpoint_type v2)"
    "payload row = json_of valid" "event_id row = as_string (get_prop ''eventId'' valid) \<or>
      as_string (get_prop ''eventId'' valid) = None"
  using assms by (auto simp: emitted_def gateway_recorded_def outbox_row_for_def outbox_input_def)

text \<open>A request with a correlation id, on services that have just started.\<close>

definition gateway_start :: "gateway_mem world" where
  "gateway_start = (start_world (new_service []))\<lparr>fresh := \<lambda>_. ''u''\<rparr>"

lemma gateway_start_accepts:
  "case endpoint sample_zod True [(''x-correlation-id'', JStr ''c'')] gateway_start of
     (Inr _, _) \<Rightarrow> True | _ \<Rightarrow> False"
  by code_simp

end
