(* ===== verification/Observability.thy ===== *)
theory Observability
  imports Tracing
begin

text \<open>
  What the services report about themselves: the Pino logger service
  (\<open>libs/common/src/logger/pino-logger.service.ts\<close>), the HTTP logging middleware
  (\<open>libs/common/src/middleware/logging.middleware.ts\<close>), the interceptor around the message handlers
  (\<open>apps/messaging/src/interceptors/logging.interceptor.ts\<close>) and the span wrapper
  (\<open>libs/common/src/tracing/tracing.service.ts\<close>). The components of the other theories are modelled
  without their logs and spans; here is what these wrappers do to the code they wrap.

  Pino and the OpenTelemetry SDK are libraries: their memory is what was written to them. In these
  worlds the clock counts nanoseconds, as \<open>process.hrtime.bigint\<close> does.
\<close>

section \<open>The logger\<close>

datatype log_level = Trace | Debug | Info | Warn | ErrorLevel | Fatal

record log_entry =
  lg_level :: log_level
  lg_fields :: "(string \<times> jsval) list"
  lg_msg :: string

record observed =
  log_entries :: "log_entry list"

definition pino_write :: "log_level \<Rightarrow> jsval \<Rightarrow> string \<Rightarrow> ('a observed_scheme, unit) io" where
  "pino_write lvl fs msg = modify (\<lambda>m. m\<lparr>log_entries := log_entries m @
     [\<lparr>lg_level = lvl, lg_fields = props fs, lg_msg = msg\<rparr>]\<rparr>)"

definition mergeFields :: "jsval \<Rightarrow> jsval" where
  "mergeFields contextOrFields =
     (if contextOrFields \<in> {JUndef, JNull, JStr ''''} then JObj []
      else case as_string contextOrFields of
        Some s \<Rightarrow> JObj [(''context'', JStr s)]
      | None \<Rightarrow> contextOrFields)"

definition pino_log :: "string \<Rightarrow> jsval \<Rightarrow> ('a observed_scheme, unit) io" where
  "pino_log msg fs = pino_write Info (mergeFields fs) msg"

definition pino_warn :: "string \<Rightarrow> jsval \<Rightarrow> ('a observed_scheme, unit) io" where
  "pino_warn msg fs = pino_write Warn (mergeFields fs) msg"

definition pino_debug :: "string \<Rightarrow> jsval \<Rightarrow> ('a observed_scheme, unit) io" where
  "pino_debug msg fs = pino_write Debug (mergeFields fs) msg"

definition pino_verbose :: "string \<Rightarrow> jsval \<Rightarrow> ('a observed_scheme, unit) io" where
  "pino_verbose msg fs = pino_write Trace (mergeFields fs) msg"

definition pino_fatal :: "string \<Rightarrow> jsval \<Rightarrow> ('a observed_scheme, unit) io" where
  "pino_fatal msg fs = pino_write Fatal (mergeFields fs) msg"

text \<open>\<open>error\<close> also takes a stack, a context and a correlation id, as Nest's loggers do.\<close>

definition pino_error :: "string \<Rightarrow> jsval \<Rightarrow> jsval \<Rightarrow> jsval \<Rightarrow> ('a observed_scheme, unit) io" where
  "pino_error msg traceOrFields ctx correlationId = pino_write ErrorLevel
     (case as_string traceOrFields of
        Some stack \<Rightarrow> JObj [(''stack'', JStr stack), (''context'', ctx), (''correlationId'', correlationId)]
      | None \<Rightarrow> if is_object traceOrFields then traceOrFields else JObj []) msg"

definition elapsedMs :: "int \<Rightarrow> int \<Rightarrow> int" where
  "elapsedMs startNs nowNs = (nowNs - startNs) div 1000000"

section \<open>The HTTP middleware\<close>

record http_request =
  rq_headers :: "(string \<times> jsval) list"
  rq_method :: string
  rq_originalUrl :: "string option"
  rq_url :: string
  rq_remoteAddress :: "string option"

definition req_header :: "string \<Rightarrow> http_request \<Rightarrow> jsval" where
  "req_header k req = get_prop k (JObj (rq_headers req))"

definition requestFields :: "http_request \<Rightarrow> (string \<times> jsval) list" where
  "requestFields req =
    [(''correlationId'', nullish (req_header ''x-correlation-id'' req) (JStr ''unknown'')),
     (''operation'', JStr ''http_request''), (''method'', JStr (rq_method req)),
     (''url'', JStr (or_else (rq_originalUrl req) (rq_url req))),
     (''userAgent'', nullish (req_header ''user-agent'' req) (JStr ''unknown'')),
     (''remoteIp'', nullish (req_header ''x-forwarded-for'' req)
        (JStr (or_else (rq_remoteAddress req) ''unknown'')))]"

text \<open>The listener on \<open>finish\<close>, and the middleware around the rest of the request: \<open>None\<close> is a service
  without a logger.\<close>

definition on_finish :: "http_request \<Rightarrow> int \<Rightarrow> int \<Rightarrow> ('a observed_scheme, unit) io" where
  "on_finish req startNs statusCode = bind now_ms (\<lambda>nowNs.
     let fs = JObj (requestFields req @
           [(''statusCode'', JNum statusCode), (''durationMs'', JNum (elapsedMs startNs nowNs))])
     in if 500 \<le> statusCode then pino_error ''HTTP response 5xx'' fs JUndef JUndef
        else if 400 \<le> statusCode then pino_warn ''HTTP response 4xx'' fs
        else pino_log ''HTTP response'' fs)"

definition middleware_use :: "bool \<Rightarrow> http_request \<Rightarrow> ('a observed_scheme, int) io \<Rightarrow>
    ('a observed_scheme, int) io" where
  "middleware_use has_logger req rest =
     (if \<not> has_logger then rest
      else bind now_ms (\<lambda>startNs. andThen (pino_debug ''Incoming HTTP request'' (JObj (requestFields req)))
        (bind rest (\<lambda>statusCode. andThen (on_finish req startNs statusCode) (ret statusCode)))))"

section \<open>The interceptor around message handlers\<close>

text \<open>
  The execution context: for messages the data and the two functions of the RMQ context, when they
  exist (\<open>Some (Inl e)\<close> throws); for HTTP the headers of the request.
\<close>

record rmq_message =
  rm_deliveryTag :: "int option"
  rm_headers :: "(string \<times> jsval) list option"

datatype context_type = RpcContext | HttpContext | OtherContext

record exec_context =
  ctx_type :: context_type
  ctx_class :: "string option"
  ctx_handler :: "string option"
  rpc_data :: jsval
  rpc_getPattern :: "(jsval + jsval) option"
  rpc_getMessage :: "(jsval + rmq_message option) option"
  ctx_headers :: "(string \<times> jsval) list option"

record identifiers =
  id_correlationId :: jsval
  id_eventId :: string
  id_messageId :: string
  id_pattern :: string

definition unknown_ids :: identifiers where
  "unknown_ids = \<lparr>id_correlationId = JStr ''unknown'', id_eventId = ''unknown'', id_messageId = ''unknown'',
     id_pattern = ''unknown''\<rparr>"

definition ids_of_message :: "rmq_message \<Rightarrow> identifiers \<Rightarrow> identifiers" where
  "ids_of_message msg ids =
     (let cid = get_prop ''x-correlation-id'' (JObj (or_else (rm_headers msg) []));
          ids1 = ids\<lparr>id_messageId := (case rm_deliveryTag msg of None \<Rightarrow> ''unknown'' | Some n \<Rightarrow> show_int n)\<rparr>
      in if as_string cid \<noteq> None then ids1\<lparr>id_correlationId := cid\<rparr> else ids1)"

definition ids_of_data :: "jsval \<Rightarrow> identifiers \<Rightarrow> identifiers" where
  "ids_of_data data ids = (if \<not> is_object data then ids
     else let cid = get_prop ''correlationId'' data;
              ids1 = (if as_string cid \<noteq> None then ids\<lparr>id_correlationId := cid\<rparr> else ids)
          in case as_string (get_prop ''eventId'' data) of None \<Rightarrow> ids1 | Some e \<Rightarrow> ids1\<lparr>id_eventId := e\<rparr>)"

text \<open>What was read before an exception stays.\<close>

definition extractRmqContext :: "exec_context \<Rightarrow> identifiers" where
  "extractRmqContext c = (case ctx_type c of
       RpcContext \<Rightarrow>
         (case rpc_getPattern c of
            Some (Inl _) \<Rightarrow> unknown_ids
          | pat \<Rightarrow>
             (let ids = (case pat of Some (Inr v) \<Rightarrow> unknown_ids\<lparr>id_pattern := js_String v\<rparr> | _ \<Rightarrow> unknown_ids)
              in case rpc_getMessage c of
                   Some (Inl _) \<Rightarrow> ids
                 | Some (Inr (Some msg)) \<Rightarrow> ids_of_data (rpc_data c) (ids_of_message msg ids)
                 | _ \<Rightarrow> ids_of_data (rpc_data c) ids))
     | HttpContext \<Rightarrow>
         (case ctx_headers c of
            None \<Rightarrow> unknown_ids
          | Some hs \<Rightarrow> unknown_ids
             \<lparr>id_correlationId := nullish (get_prop ''x-correlation-id'' (JObj hs)) (JStr ''unknown''),
              id_pattern := or_else (ctx_class c) ''undefined'' @ ''.'' @ or_else (ctx_handler c) ''undefined''\<rparr>)
     | OtherContext \<Rightarrow> unknown_ids)"

definition baseFields :: "exec_context \<Rightarrow> (string \<times> jsval) list" where
  "baseFields c = (let ids = extractRmqContext c in
     [(''correlationId'', id_correlationId ids), (''eventId'', JStr (id_eventId ids)),
      (''messageId'', JStr (id_messageId ids)), (''service'', JStr ''messaging''),
      (''operation'', JStr (or_else (ctx_class c) ''UnknownClass'' @ ''.'' @
         or_else (ctx_handler c) ''unknownMethod'')),
      (''pattern'', JStr (id_pattern ids))])"

text \<open>The handler emits one value or fails; \<open>stack\<close> is \<open>err.stack\<close> of an Error.\<close>

definition intercept :: "bool \<Rightarrow> exec_context \<Rightarrow> ('a observed_scheme, 'b) io \<Rightarrow> ('a observed_scheme, 'b) io" where
  "intercept has_logger c handle =
     (if \<not> has_logger then handle
      else bind now_ms (\<lambda>startNs. andThen (pino_debug ''RMQ handler invoked'' (JObj (baseFields c)))
        (catching
          (bind handle (\<lambda>x. bind now_ms (\<lambda>nowNs.
             andThen (pino_log ''RMQ handler completed'' (JObj (baseFields c @
                 [(''durationMs'', JNum (elapsedMs startNs nowNs)), (''success'', JBool True)])))
               (ret x))))
          (\<lambda>err. bind now_ms (\<lambda>nowNs.
             andThen (pino_error ''RMQ handler threw an error'' (JObj (baseFields c @
                 [(''durationMs'', JNum (elapsedMs startNs nowNs)), (''success'', JBool False),
                  (''errorMessage'', JStr (err_message err)),
                  (''errorStack'', if is_error err then get_prop ''stack'' err else JUndef)])) JUndef JUndef)
               (throw err))))))"

section \<open>Spans\<close>

text \<open>The spans started so far; the number of a span is its handle.\<close>

datatype span_status = Unset | SpanOk | SpanError string

record span_rec =
  sp_name :: string
  sp_status :: span_status
  sp_exceptions :: "jsval list"
  sp_ended :: nat

record traced = observed +
  spans :: "span_rec list"

definition update_span :: "nat \<Rightarrow> (span_rec \<Rightarrow> span_rec) \<Rightarrow> ('a traced_scheme, unit) io" where
  "update_span n f = modify (\<lambda>m. m\<lparr>spans := (spans m)[n := f (spans m ! n)]\<rparr>)"

definition start_span :: "string \<Rightarrow> ('a traced_scheme, nat) io" where
  "start_span name = bind (gets (\<lambda>m. length (spans m))) (\<lambda>n.
     andThen (modify (\<lambda>m. m\<lparr>spans := spans m @
       [\<lparr>sp_name = name, sp_status = Unset, sp_exceptions = [], sp_ended = 0\<rparr>]\<rparr>)) (ret n))"

definition withSpan :: "string \<Rightarrow> (nat \<Rightarrow> ('a traced_scheme, 'b) io) \<Rightarrow> ('a traced_scheme, 'b) io" where
  "withSpan name fn = bind (start_span name) (\<lambda>n.
     finally_do
       (catching
         (bind (fn n) (\<lambda>result. andThen (update_span n (\<lambda>s. s\<lparr>sp_status := SpanOk\<rparr>)) (ret result)))
         (\<lambda>err. andThen (update_span n (\<lambda>s. s\<lparr>sp_exceptions := sp_exceptions s @ [err]\<rparr>))
            (andThen (update_span n (\<lambda>s. s\<lparr>sp_status := SpanError (err_message err)\<rparr>)) (throw err))))
       (update_span n (\<lambda>s. s\<lparr>sp_ended := Suc (sp_ended s)\<rparr>)))"

section \<open>Facts\<close>

lemma mergeFields_obj [simp]: "mergeFields (JObj kvs) = JObj kvs"
  by (simp add: mergeFields_def)

lemma wp_pino_write [wp_eqs]:
  "wp (pino_write lvl fs msg) Q E w \<longleftrightarrow> Q () (w\<lparr>mem := (mem w)\<lparr>log_entries := log_entries (mem w) @
     [\<lparr>lg_level = lvl, lg_fields = props fs, lg_msg = msg\<rparr>]\<rparr>\<rparr>)"
  by (simp add: pino_write_def wp_eqs)

text \<open>One more log entry, and nothing else.\<close>

definition logged :: "log_level \<Rightarrow> string \<Rightarrow> (string \<times> jsval) list \<Rightarrow> 'a observed_scheme world \<Rightarrow>
    'a observed_scheme world" where
  "logged lvl msg fs w = w\<lparr>mem := (mem w)\<lparr>log_entries := log_entries (mem w) @
     [\<lparr>lg_level = lvl, lg_fields = fs, lg_msg = msg\<rparr>]\<rparr>\<rparr>"

lemma logged_sel [simp]:
  "log_entries (mem (logged lvl msg fs w)) =
     log_entries (mem w) @ [\<lparr>lg_level = lvl, lg_fields = fs, lg_msg = msg\<rparr>]"
  "spans (mem (logged lvl msg fs v)) = spans (mem v)"
  by (simp_all add: logged_def)

text \<open>Which correlation id a message is logged under.\<close>

lemma rpc_ids:
  assumes "ctx_type c = RpcContext" "\<nexists>e. rpc_getPattern c = Some (Inl e)"
    "rpc_getMessage c = Some (Inr (Some msg))"
  shows "id_correlationId (extractRmqContext c) =
     (case as_string (get_prop ''correlationId'' (rpc_data c)) of
        Some s \<Rightarrow> JStr s
      | None \<Rightarrow> (case as_string (get_prop ''x-correlation-id'' (JObj (or_else (rm_headers msg) []))) of
          Some s \<Rightarrow> JStr s | None \<Rightarrow> JStr ''unknown''))"
proof -
  have str: "as_string v = Some s \<longleftrightarrow> v = JStr s" for v s by (cases v) auto
  have obj: "is_object v" if "get_prop k v = JStr s" for k v s
    using that by (cases v) (auto simp: get_prop_def)
  show ?thesis
    using assms
    by (cases "rpc_getPattern c"; cases "the (rpc_getPattern c)")
      (auto simp: extractRmqContext_def ids_of_data_def ids_of_message_def Let_def unknown_ids_def str
        dest: obj split: option.split)
qed

section \<open>Properties\<close>

text \<open>
  What the interceptor does around any handler: one \<open>debug\<close> entry before it, one entry after it, at
  \<open>info\<close> for a result and at \<open>error\<close> with the message of the error otherwise, both tagged with the
  fields of the context and the time the handler took.
\<close>

lemma intercept_run:
  "intercept True c handle w =
    (let w0 = logged Debug ''RMQ handler invoked'' (baseFields c) w;
         (r, w1) = handle w0; took = JNum (elapsedMs (clock w (calls w)) (clock w1 (calls w1)))
     in case r of
          Inr x \<Rightarrow> (Inr x, logged Info ''RMQ handler completed''
            (baseFields c @ [(''durationMs'', took), (''success'', JBool True)]) w1)
        | Inl e \<Rightarrow> (Inl e, logged ErrorLevel ''RMQ handler threw an error''
            (baseFields c @ [(''durationMs'', took), (''success'', JBool False),
               (''errorMessage'', JStr (err_message e)),
               (''errorStack'', if is_error e then get_prop ''stack'' e else JUndef)]) w1))"
  by (simp add: intercept_def bind_def now_ms_def andThen_def catching_def pino_debug_def pino_log_def
      pino_error_def pino_write_def modify_def ret_def throw_def logged_def Let_def case_prod_beta
      split: sum.split)

text \<open>A computation that leaves the first \<open>n\<close> spans alone, as one that only starts spans of its own.\<close>

definition keeps_spans :: "nat \<Rightarrow> ('a traced_scheme, 'b) io \<Rightarrow> bool" where
  "keeps_spans n m \<longleftrightarrow> (\<forall>w. n \<le> length (spans (mem w)) \<longrightarrow>
     take n (spans (mem (snd (m w)))) = take n (spans (mem w)) \<and> n \<le> length (spans (mem (snd (m w)))))"

text \<open>The span of a run: its status follows the result, the error is recorded, and it ended once.\<close>

definition closed_span :: "string \<Rightarrow> jsval + 'b \<Rightarrow> span_rec" where
  "closed_span name r = (case r of
       Inr _ \<Rightarrow> \<lparr>sp_name = name, sp_status = SpanOk, sp_exceptions = [], sp_ended = 1\<rparr>
     | Inl e \<Rightarrow> \<lparr>sp_name = name, sp_status = SpanError (err_message e), sp_exceptions = [e], sp_ended = 1\<rparr>)"

definition span_started :: "string \<Rightarrow> 'a traced_scheme world \<Rightarrow> 'a traced_scheme world" where
  "span_started name w = w\<lparr>mem := (mem w)\<lparr>spans := spans (mem w) @
     [\<lparr>sp_name = name, sp_status = Unset, sp_exceptions = [], sp_ended = 0\<rparr>]\<rparr>\<rparr>"

lemma withSpan_run:
  fixes w :: "'a traced_scheme world" and fn :: "nat \<Rightarrow> ('a traced_scheme, 'b) io"
  defines "n \<equiv> length (spans (mem w))"
  assumes "keeps_spans (Suc n) (fn n)"
  shows "let (r, w1) = fn n (span_started name w); (r', w') = withSpan name fn w in
     r' = r \<and> spans (mem w') ! n = closed_span name r \<and> take n (spans (mem w')) = spans (mem w)"
proof -
  obtain r w1 where run: "fn n (span_started name w) = (r, w1)" by fastforce
  have "take (Suc n) (spans (mem w1)) = spans (mem (span_started name w))" "Suc n \<le> length (spans (mem w1))"
    using assms(2) run by (auto simp: keeps_spans_def span_started_def n_def dest: spec [of _ "span_started name w"])
  then have s: "n < length (spans (mem w1))" "spans (mem w1) ! n =
      \<lparr>sp_name = name, sp_status = Unset, sp_exceptions = [], sp_ended = 0\<rparr>"
      "take n (spans (mem w1)) = spans (mem w)"
    by (auto simp: take_Suc_conv_app_nth span_started_def)
  show ?thesis
    using s run
    by (cases r) (simp_all add: withSpan_def start_span_def update_span_def io_defs closed_span_def
        span_started_def n_def)
qed

section \<open>Properties\<close>

text \<open>
  C38: Observing a handler does not change it. A handler in a span, under the interceptor, returns
  what it returns and throws what it throws when it is run alone in the same state; the span is
  ended exactly once, with the status and the exception of that result, earlier spans are untouched,
  and the last log entry says at the matching level how it ended, under the correlation id of the
  context. So leaving logs and spans out of the other models leaves out nothing they decide.
\<close>

theorem observation_transparent:
  fixes w :: "'a traced_scheme world" and fn :: "nat \<Rightarrow> ('a traced_scheme, 'b) io"
  defines "n \<equiv> length (spans (mem w))"
  assumes "keeps_spans (Suc n) (fn n)"
  shows "let (r, w1) = fn n (span_started name (logged Debug ''RMQ handler invoked'' (baseFields c) w));
      (r', w') = intercept True c (withSpan name fn) w; entry = last (log_entries (mem w')) in
    r' = r \<and> spans (mem w') ! n = closed_span name r \<and> take n (spans (mem w')) = spans (mem w) \<and>
    lg_level entry = (case r of Inr _ \<Rightarrow> Info | Inl _ \<Rightarrow> ErrorLevel) \<and>
    map_of (lg_fields entry) ''correlationId'' = Some (id_correlationId (extractRmqContext c))"
proof -
  let ?w0 = "logged Debug ''RMQ handler invoked'' (baseFields c) w"
  have w0: "length (spans (mem ?w0)) = n" "spans (mem ?w0) = spans (mem w)" by (simp_all add: n_def)
  obtain r w1 where run: "fn n (span_started name ?w0) = (r, w1)" by fastforce
  obtain r' w2 where span: "withSpan name fn ?w0 = (r', w2)" by fastforce
  have s: "r' = r" "spans (mem w2) ! n = closed_span name r" "take n (spans (mem w2)) = spans (mem w)"
    using withSpan_run [of ?w0 fn name, unfolded w0(2), folded n_def, OF assms(2)] run span by simp_all
  have base: "map_of (baseFields c) ''correlationId'' = Some (id_correlationId (extractRmqContext c))"
    by (simp add: baseFields_def Let_def)
  show ?thesis
    by (cases r) (simp_all add: intercept_run run span s base Let_def map_add_def)
qed

theorem observation_transparent_witness:
  "fst (intercept True \<lparr>ctx_type = OtherContext, ctx_class = None, ctx_handler = None, rpc_data = JUndef,
       rpc_getPattern = None, rpc_getMessage = None, ctx_headers = None\<rparr>
     (withSpan ''s'' (\<lambda>_. throw (new_Error ''x''))) (start_world \<lparr>log_entries = [], spans = []\<rparr>)) =
   (Inl (new_Error ''x'') :: jsval + unit)"
proof -
  let ?w = "start_world \<lparr>log_entries = [], spans = []\<rparr>"
  have "keeps_spans (Suc (length (spans (mem ?w)))) (throw (new_Error ''x'') :: (traced, unit) io)"
    by (simp add: keeps_spans_def throw_def)
  from observation_transparent [of ?w "\<lambda>_. throw (new_Error ''x'') :: (traced, unit) io", OF this]
  show ?thesis by (simp add: throw_def Let_def case_prod_beta)
qed

end
