(* ===== verification/Logging.thy ===== *)
theory Logging
  imports Observability
begin

text \<open>
  How the loggers are built: \<open>libs/common/src/logger/pino.factory.ts\<close> and the constructor of the Pino
  service, and the Winston logger it replaced (\<open>logger.factory.ts\<close>, \<open>logger.service.ts\<close>); and the rest
  of \<open>libs/common/src/tracing/tracing.service.ts\<close>, which reads and annotates the active span. What the
  libraries do with these options is theirs; here are the options, the functions the code hands over,
  and that a log line names the trace the tracing service names.
\<close>

section \<open>The active span\<close>

record span_context =
  sc_traceId :: string
  sc_spanId :: string

text \<open>Whether a context is valid is the API's to say.\<close>

definition getTraceId :: "(span_context \<Rightarrow> bool) \<Rightarrow> span_context option \<Rightarrow> string" where
  "getTraceId valid active = (case active of
       Some c \<Rightarrow> if valid c then sc_traceId c else ''noop'' | None \<Rightarrow> ''noop'')"

definition getSpanId :: "(span_context \<Rightarrow> bool) \<Rightarrow> span_context option \<Rightarrow> string" where
  "getSpanId valid active = (case active of
       Some c \<Rightarrow> if valid c then sc_spanId c else ''noop'' | None \<Rightarrow> ''noop'')"

record annotated = traced +
  active_span :: "nat option"
  span_attributes :: "(nat \<times> (string \<times> jsval) list) list"
  span_events :: "(nat \<times> string \<times> (string \<times> jsval) list) list"

definition setAttributes :: "(string \<times> jsval) list \<Rightarrow> ('a annotated_scheme, unit) io" where
  "setAttributes attributes = modify (\<lambda>m. case active_span m of
       None \<Rightarrow> m | Some n \<Rightarrow> m\<lparr>span_attributes := span_attributes m @ [(n, attributes)]\<rparr>)"

definition addEvent :: "string \<Rightarrow> (string \<times> jsval) list \<Rightarrow> ('a annotated_scheme, unit) io" where
  "addEvent name attributes = modify (\<lambda>m. case active_span m of
       None \<Rightarrow> m | Some n \<Rightarrow> m\<lparr>span_events := span_events m @ [(n, name, attributes)]\<rparr>)"

section \<open>The Pino logger\<close>

record pretty_transport =
  pt_target :: string
  pt_colorize :: bool
  pt_translateTime :: string
  pt_ignore :: string
  pt_messageFormat :: string
  pt_singleLine :: bool

text \<open>The serialisers are named by the member of \<open>pino.stdSerializers\<close> they are.\<close>

record pino_options =
  po_level :: string
  po_base :: "(string \<times> jsval) list"
  po_serializers :: "(string \<times> string) list"
  po_transport :: "pretty_transport option"

definition createPinoLogger :: "string \<Rightarrow> bool \<Rightarrow> (string \<times> jsval) list \<Rightarrow> pino_options" where
  "createPinoLogger logLevel pretty base =
     \<lparr>po_level = logLevel,
      po_base = spread [(''traceId'', nullish (get_prop ''traceId'' (JObj base)) (JStr ''noop''))] base,
      po_serializers = [(''err'', ''err''), (''error'', ''err''), (''req'', ''req''), (''res'', ''res'')],
      po_transport = (if pretty then Some \<lparr>pt_target = ''pino-pretty'', pt_colorize = True,
           pt_translateTime = ''SYS:yyyy-mm-dd HH:MM:ss'', pt_ignore = ''pid,hostname'',
           pt_messageFormat = ''{levelLabel} [{service}] [{correlationId}] {msg}'', pt_singleLine = False\<rparr>
         else None)\<rparr>"

text \<open>The mixin: what is added to every record from the span that is active when it is written.\<close>

definition mixin :: "(span_context \<Rightarrow> bool) \<Rightarrow> span_context option \<Rightarrow> (string \<times> jsval) list" where
  "mixin valid active = (case active of
       Some c \<Rightarrow> if valid c then [(''traceId'', JStr (sc_traceId c)), (''spanId'', JStr (sc_spanId c))]
                else [(''traceId'', JStr ''noop'')]
     | None \<Rightarrow> [(''traceId'', JStr ''noop'')])"

definition PinoLoggerService :: "(string \<Rightarrow> string option) \<Rightarrow> pino_options" where
  "PinoLoggerService config = createPinoLogger (or_else (config ''LOG_LEVEL'') ''info'')
     (config ''NODE_ENV'' \<noteq> Some ''production'')
     [(''service'', JStr (or_else (config ''SERVICE_NAME'') ''messaging-showcase'')), (''traceId'', JStr ''noop'')]"

section \<open>The Winston logger\<close>

datatype winston_format = JsonFormat | LineFormat

datatype winston_target = Console | RotateFile string string bool string string

record winston_transport =
  wt_target :: winston_target
  wt_level :: "string option"
  wt_format :: winston_format

record winston_options =
  wo_level :: string
  wo_transports :: "winston_transport list"
  wo_exitOnError :: bool

definition createWinstonLogger :: "string \<Rightarrow> bool \<Rightarrow> winston_options" where
  "createWinstonLogger logLevel isProduction =
     \<lparr>wo_level = logLevel,
      wo_transports =
       [\<lparr>wt_target = Console, wt_level = None, wt_format = (if isProduction then JsonFormat else LineFormat)\<rparr>,
        \<lparr>wt_target = RotateFile ''logs/application-%DATE%.log'' ''YYYY-MM-DD'' True ''20m'' ''14d'',
          wt_level = None, wt_format = JsonFormat\<rparr>,
        \<lparr>wt_target = RotateFile ''logs/error-%DATE%.log'' ''YYYY-MM-DD'' True ''20m'' ''14d'',
          wt_level = Some ''error'', wt_format = JsonFormat\<rparr>],
      wo_exitOnError = False\<rparr>"

text \<open>The line of the console: the function given to \<open>printf\<close>, on a record that may be anything.\<close>

definition isLogInfo :: "jsval \<Rightarrow> bool" where
  "isLogInfo info \<longleftrightarrow> as_string (get_prop ''level'' info) \<noteq> None \<and>
     as_string (get_prop ''message'' info) \<noteq> None \<and> as_string (get_prop ''timestamp'' info) \<noteq> None"

definition winston_line :: "jsval \<Rightarrow> string" where
  "winston_line info =
     (if \<not> isLogInfo info then or_else (as_string (get_prop ''message'' info)) ''Unknown message''
      else let text = (\<lambda>k. or_else (as_string (get_prop k info)) '''');
               ctx = (case as_string (get_prop ''context'' info) of Some c \<Rightarrow> ''['' @ c @ ''] '' | None \<Rightarrow> '''');
               cid = (case as_string (get_prop ''correlationId'' info) of
                        Some c \<Rightarrow> ''[CID: '' @ c @ ''] '' | None \<Rightarrow> '''')
           in text ''timestamp'' @ '' '' @ text ''level'' @ '': '' @ ctx @ cid @ text ''message'')"

record winston_entry =
  we_level :: string
  we_message :: string
  we_meta :: "(string \<times> jsval) list"

definition winston_log :: "string \<Rightarrow> string \<Rightarrow> jsval \<Rightarrow> jsval \<Rightarrow> winston_entry" where
  "winston_log level message ctx correlationId = \<lparr>we_level = level, we_message = message,
     we_meta = [(''context'', ctx), (''correlationId'', correlationId)]\<rparr>"

definition LoggerService_log :: "string \<Rightarrow> jsval \<Rightarrow> jsval \<Rightarrow> winston_entry" where
  "LoggerService_log = winston_log ''info''"

definition LoggerService_warn :: "string \<Rightarrow> jsval \<Rightarrow> jsval \<Rightarrow> winston_entry" where
  "LoggerService_warn = winston_log ''warn''"

definition LoggerService_debug :: "string \<Rightarrow> jsval \<Rightarrow> jsval \<Rightarrow> winston_entry" where
  "LoggerService_debug = winston_log ''debug''"

definition LoggerService_verbose :: "string \<Rightarrow> jsval \<Rightarrow> jsval \<Rightarrow> winston_entry" where
  "LoggerService_verbose = winston_log ''verbose''"

definition LoggerService_error :: "string \<Rightarrow> jsval \<Rightarrow> jsval \<Rightarrow> jsval \<Rightarrow> winston_entry" where
  "LoggerService_error message trace ctx correlationId = \<lparr>we_level = ''error'', we_message = message,
     we_meta = [(''trace'', trace), (''context'', ctx), (''correlationId'', correlationId)]\<rparr>"

section \<open>Facts\<close>

text \<open>
  Logs and traces can be joined: the trace and span a log line names are those the tracing service
  names, and outside any span both say so. The base fields of the service do not hide them.
\<close>

lemma logs_name_the_trace:
  "map_of (mixin valid active) ''traceId'' = Some (JStr (getTraceId valid active))"
  "active = Some c \<Longrightarrow> valid c \<Longrightarrow> map_of (mixin valid active) ''spanId'' = Some (JStr (getSpanId valid active))"
  by (auto simp: mixin_def getTraceId_def getSpanId_def split: option.split)

text \<open>Annotations go to the active span only, and to nowhere without one.\<close>

lemma annotations_of_active:
  "active_span (mem w) = None \<Longrightarrow> snd (addEvent name as w) = w \<and> snd (setAttributes as w) = w"
  "active_span (mem w) = Some n \<Longrightarrow>
     span_events (mem (snd (addEvent name as w))) = span_events (mem w) @ [(n, name, as)] \<and>
     span_attributes (mem (snd (setAttributes as w))) = span_attributes (mem w) @ [(n, as)]"
  by (simp_all add: addEvent_def setAttributes_def modify_def)

text \<open>A complete record is printed with its context and correlation id when they are strings.\<close>

lemma winston_line_complete:
  "winston_line (JObj [(''level'', JStr l), (''message'', JStr m), (''timestamp'', JStr t),
      (''context'', JStr c), (''correlationId'', JStr i)]) =
     t @ '' '' @ l @ '': ['' @ c @ ''] [CID: '' @ i @ ''] '' @ m"
  by (simp add: winston_line_def isLogInfo_def get_prop_def)

end
