(* ===== verification/Memory_Orders.thy ===== *)
theory Memory_Orders
  imports Tracing
begin

text \<open>
  What every run of a computation does to the memory, stated as an order: a calculus for properties such
  as \<open>whatever happens, the reports conform\<close>, one rule for each combinator of the effect layer.
\<close>

text \<open>
  \<open>keeps R m\<close>: every run of \<open>m\<close>, whatever is answered and however it ends, goes up in \<open>R\<close>. For a
  preorder this is closed under every combinator of the effect layer.
\<close>

definition keeps :: "('d \<Rightarrow> 'd \<Rightarrow> bool) \<Rightarrow> ('d, 'a) io \<Rightarrow> bool" where
  "keeps R m \<longleftrightarrow> (\<forall>w. R (mem w) (mem (snd (m w))))"

lemma keepsD: "keeps R m \<Longrightarrow> R (mem w) (mem (snd (m w)))"
  by (simp add: keeps_def)

named_theorems keeps_rules \<open>operations that go up in an order on the memory\<close>

locale memory_order =
  fixes R :: "'d \<Rightarrow> 'd \<Rightarrow> bool"
  assumes R_refl: "R a a" and R_trans: "R a b \<Longrightarrow> R b c \<Longrightarrow> R a c"
begin

lemma keeps_pure [keeps_rules]:
  "keeps R (ret x)" "keeps R (throw e)" "keeps R (gets f)" "keeps R now_ms" "keeps R randomUUID"
  "keeps R external" "keeps R captureTraceContextCarrier" "keeps R (injectTraceContext c hs)"
  by (simp_all add: keeps_def io_defs captureTraceContextCarrier_def injectTraceContext_def R_refl
      split: outcome.split)

lemma keeps_modify: "(\<And>m. R m (g m)) \<Longrightarrow> keeps R (modify g)"
  by (simp add: keeps_def modify_def)

lemma keeps_request: "(\<And>t m. R m (snd (f t m))) \<Longrightarrow> keeps R (request f)"
  by (auto simp: keeps_def request_def Let_def R_refl split: prod.split outcome.split)
    (metis snd_conv)+

lemma keeps_bind [keeps_rules]:
  assumes "keeps R m" "\<And>x. keeps R (f x)"
  shows "keeps R (bind m f)"
  unfolding keeps_def bind_def
  using keepsD [OF assms(1)] keepsD [OF assms(2)]
  by (auto split: prod.split sum.split intro: R_trans) (metis R_trans snd_conv)+

lemma keeps_andThen [keeps_rules]: "keeps R m \<Longrightarrow> keeps R n \<Longrightarrow> keeps R (andThen m n)"
  unfolding andThen_def by (rule keeps_bind)

lemma keeps_catching [keeps_rules]:
  assumes "keeps R m" "\<And>e. keeps R (h e)"
  shows "keeps R (catching m h)"
  unfolding keeps_def catching_def
  using keepsD [OF assms(1)] keepsD [OF assms(2)]
  by (auto split: prod.split sum.split) (metis R_trans snd_conv)+

lemma keeps_finally [keeps_rules]:
  assumes "keeps R m" "keeps R n"
  shows "keeps R (finally_do m n)"
  unfolding keeps_def finally_do_def
  using keepsD [OF assms(1)] keepsD [OF assms(2)]
  by (auto split: prod.split sum.split) (metis R_trans snd_conv)+

lemma keeps_after:
  "keeps R m \<Longrightarrow> R a (mem w) \<Longrightarrow> wp m (\<lambda>_ w'. R a (mem w')) (\<lambda>_ w'. R a (mem w')) w"
  unfolding wp_snd using R_trans keepsD by blast

lemma keeps_from_wp:
  "(\<And>w. wp m (\<lambda>_ w'. R (mem w) (mem w')) (\<lambda>_ w'. R (mem w) (mem w')) w) \<Longrightarrow> keeps R m"
  by (simp add: wp_snd keeps_def)

lemma keeps_when_do [keeps_rules]: "keeps R m \<Longrightarrow> keeps R (when_do b m)"
  by (simp add: when_do_def keeps_pure)

lemma keeps_for_each [keeps_rules]: "(\<And>x. keeps R (f x)) \<Longrightarrow> keeps R (for_each f xs)"
  by (induction xs) (simp_all add: keeps_pure keeps_andThen)

end

lemma keeps_branches [keeps_rules]:
  "(c \<Longrightarrow> keeps R m) \<Longrightarrow> (\<not> c \<Longrightarrow> keeps R n) \<Longrightarrow> keeps R (if c then m else n)"
  "keeps R m \<Longrightarrow> (\<And>x. keeps R (f x)) \<Longrightarrow> keeps R (case v of None \<Rightarrow> m | Some x \<Rightarrow> f x)"
  "(\<And>x. keeps R (g x)) \<Longrightarrow> (\<And>y. keeps R (h y)) \<Longrightarrow> keeps R (case s of Inl x \<Rightarrow> g x | Inr y \<Rightarrow> h y)"
  "(\<And>x y. keeps R (k x y)) \<Longrightarrow> keeps R (case p of (x, y) \<Rightarrow> k x y)"
  "keeps R (l u) \<Longrightarrow> keeps R (let x = u in l x)"
  by (auto split: option.split sum.split prod.split)

end
