(* ===== verification/Legacy_Outbox.thy ===== *)
theory Legacy_Outbox
  imports Outbox_Table
begin

text \<open>
  The outbox loop that the relay replaced, \<open>apps/messaging/src/outbox/outbox.service.ts\<close>. No module of
  the service provides it any more; it is modelled because it works on the same table. Its publish
  is a log line, so the only calls are the repository's: \<open>find\<close>, \<open>save\<close>, \<open>count\<close>.
\<close>

record legacy_mem =
  legacy_rows :: outbox_table
  legacy_seq :: int
  legacy_metrics :: "metric_event list"
  legacy_timers :: "(string \<times> int) list"

definition POLL_INTERVAL_MS :: int where
  "POLL_INTERVAL_MS = 5000"

definition GAUGE_REFRESH_INTERVAL_MS :: int where
  "GAUGE_REFRESH_INTERVAL_MS = 10000"

definition BATCH_SIZE :: nat where
  "BATCH_SIZE = 25"

text \<open>\<open>repo.save\<close> of an entity that was loaded: its row becomes the entity, or is inserted again.\<close>

definition save_row :: "outbox_row \<Rightarrow> outbox_table \<Rightarrow> outbox_table" where
  "save_row entry t = (if row_id entry \<in> row_id ` set t
     then update_where (\<lambda>r. row_id r = row_id entry) (\<lambda>_. entry) t else t @ [entry])"

definition legacy_save :: "outbox_row \<Rightarrow> (legacy_mem, unit) io" where
  "legacy_save entry = request (\<lambda>_ m. (Inr (), m\<lparr>legacy_rows := save_row entry (legacy_rows m)\<rparr>))"

definition legacy_record :: "string \<Rightarrow> jsval \<Rightarrow> string option \<Rightarrow> (legacy_mem, outbox_row) io" where
  "legacy_record eventType body correlationId = request (\<lambda>now m.
     let row = new_outbox_row now (legacy_seq m) eventType (json_of body) correlationId None None
     in (Inr row, m\<lparr>legacy_rows := legacy_rows m @ [row], legacy_seq := legacy_seq m + 1\<rparr>))"

definition find_pending :: "outbox_table \<Rightarrow> outbox_row list" where
  "find_pending t = take BATCH_SIZE (sort_key created_at (filter (\<lambda>r. status r = Pending) t))"

text \<open>
  One entry: the entity is changed before it is saved, and keeps the change when the save fails.
\<close>

definition publish_entry :: "outbox_row \<Rightarrow> (legacy_mem, unit) io" where
  "publish_entry entry = bind now_ms (\<lambda>now.
     let sent = entry\<lparr>status := Sent, sent_at := Some now\<rparr> in
     catching (legacy_save sent)
       (\<lambda>err. let counted = sent\<lparr>attempts := attempts sent + 1, last_error := Some (err_message err)\<rparr>
        in legacy_save (if 5 \<le> attempts counted then counted\<lparr>status := Failed\<rparr> else counted)))"

definition publishPendingBatch :: "(legacy_mem, unit) io" where
  "publishPendingBatch = bind (request (\<lambda>_ m. (Inr (find_pending (legacy_rows m)), m)))
     (for_each publish_entry)"

definition legacy_refreshGauge :: "(legacy_mem, unit) io" where
  "legacy_refreshGauge = catching
     (bind (request (\<lambda>_ m. (Inr (sql_count_pending (legacy_rows m)), m))) (\<lambda>pendingCount.
        modify (\<lambda>m. m\<lparr>legacy_metrics := legacy_metrics m @
          [SetGauge ''outbox_pending_events'' [(''service'', ''messaging'')] (int pendingCount)]\<rparr>)))
     (\<lambda>_. ret ())"

definition legacy_onModuleInit :: "(legacy_mem, unit) io" where
  "legacy_onModuleInit = andThen (modify (\<lambda>m. m\<lparr>legacy_timers :=
       [(''publish'', POLL_INTERVAL_MS), (''gauge'', GAUGE_REFRESH_INTERVAL_MS)]\<rparr>)) legacy_refreshGauge"

definition legacy_onModuleDestroy :: "(legacy_mem, unit) io" where
  "legacy_onModuleDestroy = modify (\<lambda>m. m\<lparr>legacy_timers := []\<rparr>)"

section \<open>Properties\<close>

text \<open>
  A failed save is recorded as a success: when the first save of an entry fails and the second one
  succeeds, the row says \<open>sent\<close> although it also says that an attempt failed, so no later batch takes
  it up again; only on the fifth attempt it says \<open>failed\<close>.
\<close>

theorem failed_save_marks_sent:
  assumes "outcomes w (calls w) = Fails err" and "outcomes w (Suc (calls w)) = Done"
    and "entry \<in> set (legacy_rows (mem w))" and "attempts entry < 4"
  shows "\<exists>w' row. publish_entry entry w = (Inr (), w') \<and> row \<in> set (legacy_rows (mem w')) \<and>
    row_id row = row_id entry \<and> status row = Sent \<and> attempts row = attempts entry + 1 \<and>
    last_error row = Some (err_message err)"
proof -
  let ?row = "entry\<lparr>status := Sent, sent_at := Some (clock w (calls w)), attempts := attempts entry + 1,
    last_error := Some (err_message err)\<rparr>"
  have "?row \<in> set (save_row ?row (legacy_rows (mem w)))"
    using assms(3) by (auto simp: save_row_def update_where_def image_iff)
  moreover have "publish_entry entry w = (Inr (), w\<lparr>calls := Suc (Suc (calls w)),
      mem := (mem w)\<lparr>legacy_rows := save_row ?row (legacy_rows (mem w))\<rparr>\<rparr>)"
    using assms by (simp add: publish_entry_def legacy_save_def io_defs Let_def)
  ultimately show ?thesis by - (rule exI, rule exI [of _ ?row], rule conjI, assumption, simp)
qed

end
