(* ===== verification/Metrics.thy ===== *)
theory Metrics
  imports Memory_Orders Delivery_Runs Gateway_Controller Dlq_Consumer Outbox_Relay Legacy_Outbox
begin

text \<open>
  The metrics registry, \<open>libs/common/src/metrics/metrics.service.ts\<close> and its endpoint, and what the
  services report to it. The default process metrics and the text format belong to prom-client.
  Buckets and durations are in milliseconds; the help texts are left out.
\<close>

section \<open>The registry\<close>

datatype metric_kind = CounterMetric | GaugeMetric | HistogramMetric "int list"

record metric_decl =
  md_kind :: metric_kind
  md_name :: string
  md_labelNames :: "string list"

definition registered_metrics :: "metric_decl list" where
  "registered_metrics =
    [\<lparr>md_kind = CounterMetric, md_name = ''messages_processed_total'',
       md_labelNames = [''service'', ''event_type'', ''outcome'']\<rparr>,
     \<lparr>md_kind = CounterMetric, md_name = ''messages_failed_total'',
       md_labelNames = [''service'', ''event_type'', ''error_class'']\<rparr>,
     \<lparr>md_kind = CounterMetric, md_name = ''dlq_messages_total'',
       md_labelNames = [''service'', ''error_class'', ''original_queue'']\<rparr>,
     \<lparr>md_kind = CounterMetric, md_name = ''retry_count_total'', md_labelNames = [''service'', ''attempt'']\<rparr>,
     \<lparr>md_kind = HistogramMetric [5, 10, 25, 50, 100, 250, 500, 1000, 2500, 5000, 10000],
       md_name = ''processing_duration_seconds'', md_labelNames = [''service'', ''event_type'', ''outcome'']\<rparr>,
     \<lparr>md_kind = GaugeMetric, md_name = ''outbox_pending_events'', md_labelNames = [''service'']\<rparr>,
     \<lparr>md_kind = CounterMetric, md_name = ''outbox_fenced_publishes_total'', md_labelNames = [''service'']\<rparr>,
     \<lparr>md_kind = HistogramMetric [5, 10, 25, 50, 100, 250, 500, 1000, 2500, 5000],
       md_name = ''http_request_duration_seconds'',
       md_labelNames = [''service'', ''method'', ''route'', ''status_code'']\<rparr>,
     \<lparr>md_kind = CounterMetric, md_name = ''http_requests_total'',
       md_labelNames = [''service'', ''method'', ''route'', ''status_code'']\<rparr>]"

definition default_labels :: "(string \<Rightarrow> string option) \<Rightarrow> labels" where
  "default_labels env = [(''service'', or_else (env ''SERVICE_NAME'') ''unknown'')]"

text \<open>\<open>timeAsync\<close>: the operation is timed whether it succeeds or fails, with the labels given.\<close>

definition observe_since :: "labels \<Rightarrow> int \<Rightarrow> (('db, 'a) service_mem_scheme, unit) io" where
  "observe_since ls started = bind now_ms (\<lambda>now.
     count_metric (Observe ''processing_duration_seconds'' ls (now - started)))"

definition timeAsync :: "labels \<Rightarrow> (('db, 'a) service_mem_scheme, 'b) io \<Rightarrow>
    (('db, 'a) service_mem_scheme, 'b) io" where
  "timeAsync ls operation = bind now_ms (\<lambda>started. catching
     (bind operation (\<lambda>result. andThen (observe_since ls started) (ret result)))
     (\<lambda>err. andThen (observe_since ls started) (throw err)))"

text \<open>The endpoint: the headers it sets and the text of the registry, or the error that rendering ends with.\<close>

definition getMetrics :: "string \<Rightarrow> jsval + string \<Rightarrow> jsval + (string \<times> string) list \<times> string" where
  "getMetrics contentType text = (case text of
       Inl e \<Rightarrow> Inl e
     | Inr body \<Rightarrow> Inr ([(''Content-Type'', contentType), (''Cache-Control'', ''no-cache'')], body))"

section \<open>Conforming reports\<close>

text \<open>
  A report conforms when its metric is registered as what it is used as and the report gives a value
  for each label name of the metric and for no other: prom-client throws on any other label. The
  values of the labels the services choose themselves come from a fixed catalogue.
\<close>

fun report_labels :: "metric_event \<Rightarrow> labels" where
  "report_labels (Inc _ ls) = ls"
| "report_labels (SetGauge _ ls _) = ls"
| "report_labels (Observe _ ls _) = ls"

fun declared_by :: "metric_event \<Rightarrow> metric_decl \<Rightarrow> bool" where
  "declared_by (Inc n ls) d \<longleftrightarrow> md_name d = n \<and> md_kind d = CounterMetric"
| "declared_by (SetGauge n ls v) d \<longleftrightarrow> md_name d = n \<and> md_kind d = GaugeMetric"
| "declared_by (Observe n ls v) d \<longleftrightarrow> md_name d = n \<and> (case md_kind d of HistogramMetric _ \<Rightarrow> True | _ \<Rightarrow> False)"

fun report_name :: "metric_event \<Rightarrow> string" where
  "report_name (Inc n _) = n"
| "report_name (SetGauge n _ _) = n"
| "report_name (Observe n _ _) = n"

definition label_catalogue :: "(string \<times> string list) list" where
  "label_catalogue =
    [(''service'', [''gateway'', ''messaging'']),
     (''event_type'', [''CreateMessageEvent.v1'', ''CreateMessageEvent.v2'', ''test-rabbit'']),
     (''error_class'', [''VALIDATION'', ''TRANSIENT'', ''PERMANENT'']),
     (''outcome'', [''success'', ''duplicate'', ''accepted'', ''rejected'', ''retry'', ''dlq'', ''failure''])]"

text \<open>The labels whose values come from the headers of a message.\<close>

definition open_labels :: "(string \<times> string) list" where
  "open_labels = [(''dlq_messages_total'', ''error_class''), (''dlq_messages_total'', ''original_queue''),
     (''retry_count_total'', ''attempt'')]"

definition catalogued :: "string \<Rightarrow> string \<times> string \<Rightarrow> bool" where
  "catalogued n l \<longleftrightarrow> (n, fst l) \<in> set open_labels \<or>
     (case map_of label_catalogue (fst l) of None \<Rightarrow> False | Some vs \<Rightarrow> snd l \<in> set vs)"

definition conforms :: "metric_event \<Rightarrow> bool" where
  "conforms ev \<longleftrightarrow> list_all (catalogued (report_name ev)) (report_labels ev) \<and>
     list_ex (\<lambda>d. declared_by ev d \<and> map fst (report_labels ev) = md_labelNames d) registered_metrics"

lemmas conforms_defs = conforms_def registered_metrics_def catalogued_def open_labels_def label_catalogue_def

lemma service_reports [simp]:
  "conforms (processed_metric ''messaging'' (event_name ty) ''success'')"
  "conforms (processed_metric ''messaging'' (event_name ty) ''duplicate'')"
  "conforms (processed_metric ''gateway'' (event_name ty) ''accepted'')"
  "conforms (failed_metric ''messaging'' (event_name ty) c)"
  "conforms (failed_metric ''gateway'' (event_name ty) c)"
  "conforms (Inc ''retry_count_total'' [(''service'', ''messaging''), (''attempt'', n)])"
  "conforms (dlq_metric headers)"
  by (cases ty; cases c; simp add: conforms_defs processed_metric_def failed_metric_def dlq_metric_def
      CreateMessageEvent_def CreateMessageEventNameV2_def)+

lemma test_reports [simp]:
  "conforms (processed_metric ''messaging'' ''test-rabbit'' ''success'')"
  "conforms (failed_metric ''messaging'' ''test-rabbit'' PERMANENT)"
  "result \<in> {''success'', ''failure''} \<Longrightarrow> conforms (Observe ''processing_duration_seconds''
     [(''service'', ''messaging''), (''event_type'', ''test-rabbit''), (''outcome'', result)] ms)"
  by (auto simp: conforms_defs processed_metric_def failed_metric_def)

lemma timer_reports [simp]:
  "service \<in> {''gateway'', ''messaging''} \<Longrightarrow>
   result \<in> {''success'', ''duplicate'', ''accepted'', ''rejected'', ''retry'', ''dlq'', ''failure''} \<Longrightarrow>
   conforms (Observe ''processing_duration_seconds''
     [(''service'', service), (''event_type'', event_name ty), (''outcome'', result)] ms)"
  by (cases ty) (auto simp: conforms_defs CreateMessageEvent_def CreateMessageEventNameV2_def)

definition reports_conform :: "metric_event list \<Rightarrow> metric_event list \<Rightarrow> bool" where
  "reports_conform before after \<longleftrightarrow> (\<exists>new. after = before @ new \<and> list_all conforms new)"

section \<open>Orders on a service's memory\<close>

text \<open>An order that does not look at the broker client.\<close>

locale client_order = memory_order R
  for R :: "'a amqp_client_scheme \<Rightarrow> 'a amqp_client_scheme \<Rightarrow> bool" +
  assumes above_only: "amqp_client.more m' = amqp_client.more m \<Longrightarrow> R m m'"
begin

lemma keeps_client [keeps_rules]: "keeps R getChannel" "keeps R (ch_publish ch msg)"
  "keeps R (ch_waitForConfirms ch)"
  unfolding getChannel_def connectAmqp_def amqp_connect_def settle_def await_def ch_publish_def
    ch_waitForConfirms_def
  by (intro keeps_rules keeps_modify keeps_request; simp add: above_only split: option.split)+

end

text \<open>
  An order that only looks at the committed database and the reports: the broker client, the tracer,
  settlements and open transactions do not matter to it.
\<close>

lemma same_above_client:
  fixes m m' :: "('db, 'a) service_mem_scheme"
  assumes "amqp_client.more m' = amqp_client.more m"
  shows "svc_metrics m' = svc_metrics m" "committed m' = committed m"
  using assms by (cases m; cases m'; simp)+

locale service_order = memory_order R
  for R :: "('db, 'a) service_mem_scheme \<Rightarrow> ('db, 'a) service_mem_scheme \<Rightarrow> bool" +
  assumes same: "svc_metrics m' = svc_metrics m \<Longrightarrow> committed m' = committed m \<Longrightarrow> R m m'"

sublocale service_order \<subseteq> client_order R
  by unfold_locales (auto intro: same dest: same_above_client)

context service_order
begin

lemma keeps_lc_publish [keeps_rules]: "keeps R (lc_publish st ty i c errs)"
  unfolding lc_publish_def ensureChannel_def lc_connect_def
  by (intro keeps_rules keeps_modify keeps_request; simp add: same)

lemma keeps_open_tx [keeps_rules]: "keeps R begin_tx" "keeps R rollback_tx" "keeps R release_tx"
  unfolding begin_tx_def rollback_tx_def release_tx_def
  by (intro keeps_rules keeps_modify keeps_request; simp add: same)+

end


lemma db_frame_metrics:
  fixes w w' :: "'db service_mem world"
  assumes "db_frame w w'"
  shows "svc_metrics (mem w') = svc_metrics (mem w)"
proof -
  let ?m = "(mem w')\<lparr>committed := committed (mem w), open_tx := open_tx (mem w), seqs := seqs (mem w)\<rparr>"
  have "?m = mem w" using assms by (simp add: db_frame_def)
  then have "svc_metrics ?m = svc_metrics (mem w)" by simp
  then show ?thesis by simp
qed

text \<open>
  The same for the messaging service, where the order also has to accept what the consumer does to the
  database and what it reports, with the success report only after an event was written.
\<close>

definition success_report :: "metric_event \<Rightarrow> bool" where
  "success_report ev \<longleftrightarrow> ev \<in> (\<lambda>ty. processed_metric ''messaging'' (event_name ty) ''success'') ` set enum_class.enum"

lemma success_report_iff:
  "success_report ev \<longleftrightarrow> (\<exists>ty. ev = processed_metric ''messaging'' (event_name ty) ''success'')"
  by (simp add: success_report_def enum_UNIV image_iff)

lemma other_reports [simp]:
  "success_report (processed_metric ''messaging'' (event_name ty) ''success'')"
  "\<not> success_report (processed_metric ''messaging'' name ''duplicate'')"
  "\<not> success_report (failed_metric service name c)" "\<not> success_report (Observe n ls v)"
  "\<not> success_report (Inc ''retry_count_total'' ls)"
  "\<not> success_report (processed_metric ''messaging'' ''test-rabbit'' ''success'')"
proof -
  have "''test-rabbit'' \<noteq> event_name ty" for ty
    by (cases ty) (simp_all add: CreateMessageEvent_def CreateMessageEventNameV2_def)
  then show "\<not> success_report (processed_metric ''messaging'' ''test-rabbit'' ''success'')"
    by (auto simp: success_report_iff processed_metric_def)
qed (auto simp: success_report_iff processed_metric_def failed_metric_def)

locale event_order = service_order R
  for R :: "messaging_mem \<Rightarrow> messaging_mem \<Rightarrow> bool" +
  assumes counts: "conforms ev \<Longrightarrow> \<not> success_report ev \<Longrightarrow> R m (m\<lparr>svc_metrics := svc_metrics m @ [ev]\<rparr>)"
    and attempts: "svc_metrics m' = svc_metrics m \<Longrightarrow>
      committed m' = (committed m)\<lparr>event_attempts := as\<rparr> \<Longrightarrow> R m m'"
    and writes: "written_once s b i t c (committed m) row (committed m') \<Longrightarrow>
      svc_metrics m' = svc_metrics m \<or> (\<exists>ev. success_report ev \<and> svc_metrics m' = svc_metrics m @ [ev]) \<Longrightarrow> R m m'"
begin

lemma keeps_count: "conforms ev \<Longrightarrow> \<not> success_report ev \<Longrightarrow> keeps R (count_metric ev)"
  unfolding count_metric_def by (rule keeps_modify) (rule counts)

lemma keeps_end_timer: "service \<in> {''gateway'', ''messaging''} \<Longrightarrow>
   result \<in> {''success'', ''duplicate'', ''accepted'', ''rejected'', ''retry'', ''dlq'', ''failure''} \<Longrightarrow>
   keeps R (end_timer service t0 (event_name ty) result)"
  unfolding end_timer_def
  by (intro keeps_rules keeps_count timer_reports) simp_all

lemma keeps_test_timer: "result \<in> {''success'', ''failure''} \<Longrightarrow>
   keeps R (end_timer ''messaging'' t0 ''test-rabbit'' result)"
  unfolding end_timer_def by (intro keeps_rules keeps_count test_reports) simp_all

lemma keeps_settle [keeps_rules]: "keeps R (channel_ack d)" "keeps R (channel_nack d b)"
  unfolding channel_ack_def channel_nack_def by (intro keeps_rules keeps_modify; simp add: same)+

lemma keeps_attempts [keeps_rules]: "keeps R (recordAttempt e)" "keeps R (clearAttempts e)"
  unfolding recordAttempt_def clearAttempts_def autocommit_def
  by (rule keeps_request; auto split: prod.split intro: attempts)+

lemma keeps_publishToRetry [keeps_rules]: "keeps R (publishToRetry body hs n c)"
  unfolding publishToRetry_def by (intro keeps_rules)

lemma idempotent_order:
  "wp (handleMessageCreationIdempotent s b i t c)
    (\<lambda>x w'. svc_metrics (mem w') = svc_metrics (mem w) \<and> R (mem w) (mem w') \<and>
       (\<forall>row. x = Some row \<longrightarrow> written_once s b i t c (committed (mem w)) row (committed (mem w'))))
    (\<lambda>_ w'. R (mem w) (mem w')) w"
proof -
  have up: "svc_metrics (mem w') = svc_metrics (mem w) \<and> R (mem w) (mem w')"
    if "db_frame w w'" "idempotent_post s b i t c w r (committed (mem w'))" for r w'
    using idempotent_post_cases [OF that(2)] db_frame_metrics [OF that(1)] by (auto intro: same writes)
  show ?thesis
  proof (rule wp_mono [OF wp_handleMessageCreationIdempotent])
    fix x w' assume "db_frame w w' \<and> idempotent_post s b i t c w (Some x) (committed (mem w'))"
    then show "svc_metrics (mem w') = svc_metrics (mem w) \<and> R (mem w) (mem w') \<and>
         (\<forall>row. x = Some row \<longrightarrow> written_once s b i t c (committed (mem w)) row (committed (mem w')))"
      using up [of w' "Some x"] by (auto simp: idempotent_post_def)
  qed (use up in blast)
qed

lemma keeps_process_event [keeps_rules]: "keeps R (process_event (event_name ty) t0 ev d)"
proof (rule keeps_from_wp)
  fix w :: "messaging_mem world"
  let ?Q = "\<lambda>_ w'. R (mem w) (mem w')"
  show "wp (process_event (event_name ty) t0 ev d) ?Q ?Q w"
    unfolding process_event_def Let_def wp_bind
  proof (rule wp_mono [OF idempotent_order])
    fix x and w1 :: "messaging_mem world"
    let ?name = "event_name ty" and ?i = "event_string ''eventId'' ev"
      and ?c = "event_string ''correlationId'' ev"
    assume 1: "svc_metrics (mem w1) = svc_metrics (mem w) \<and> R (mem w) (mem w1) \<and> (\<forall>row. x = Some row \<longrightarrow>
      written_once (payload_string ''subject'' ev) (payload_string ''content'' ev) ?i ?name (Some ?c)
        (committed (mem w)) row (committed (mem w1)))"
    show "wp (case x of None \<Rightarrow> andThen (count_metric (processed_metric ''messaging'' ?name ''duplicate''))
              (andThen (end_timer ''messaging'' t0 ?name ''duplicate'')
                (andThen (clearAttempts ?i) (andThen (channel_ack d) (ret NullResult))))
        | Some row \<Rightarrow> andThen (count_metric (processed_metric ''messaging'' ?name ''success''))
              (andThen (end_timer ''messaging'' t0 ?name ''success'')
                (andThen (lc_publish Persisted ?name ?i ?c [])
                  (andThen (clearAttempts ?i)
                    (andThen (channel_ack d) (ret (PersistedMessage row))))))) ?Q ?Q w1"
    proof (cases x)
      case None
      show ?thesis
        unfolding None option.case
        by (intro keeps_after keeps_rules keeps_count keeps_end_timer service_reports) (use 1 in simp_all)
    next
      case (Some row)
      have "R (mem w) ((mem w1)\<lparr>svc_metrics := svc_metrics (mem w1) @
          [processed_metric ''messaging'' ?name ''success'']\<rparr>)"
        using 1 Some by (intro writes) auto
      then show ?thesis
        unfolding Some option.case wp_andThen [of "count_metric _"] wp_count_metric
        by (intro keeps_after keeps_rules keeps_end_timer) simp_all
    qed
  qed simp
qed

lemma keeps_lift_sum [keeps_rules]: "keeps R (lift_sum r)"
  unfolding lift_sum_def by (intro keeps_rules)

lemma keeps_handle_failure [keeps_rules]: "keeps R (handle_failure Z (event_name ty) t0 ev n d err)"
  unfolding handle_failure_def by (intro keeps_rules keeps_count keeps_end_timer) simp_all

lemma keeps_handle_valid [keeps_rules]: "keeps R (handle_valid Z (event_name ty) t0 ev d)"
  unfolding handle_valid_def by (intro keeps_rules)

lemma keeps_reject_invalid [keeps_rules]: "keeps R (reject_invalid (event_name ty) data errs d)"
  unfolding reject_invalid_def by (intro keeps_rules keeps_count) simp_all

lemma keeps_handleMessage: "keeps R (handleMessage Z data d)"
  unfolding handleMessage_def by (intro keeps_rules)

end

text \<open>The legacy handler writes messages without an event.\<close>

locale messaging_order = event_order R
  for R :: "messaging_mem \<Rightarrow> messaging_mem \<Rightarrow> bool" +
  assumes creates: "created_once s c (committed m) row (committed m') \<Longrightarrow> svc_metrics m' = svc_metrics m \<Longrightarrow> R m m'"
begin

lemma keeps_creation [keeps_rules]: "keeps R (handleMessageCreation s b c)"
proof (rule keeps_from_wp)
  fix w :: "messaging_mem world"
  show "wp (handleMessageCreation s b c) (\<lambda>_ w'. R (mem w) (mem w')) (\<lambda>_ w'. R (mem w) (mem w')) w"
    by (rule wp_mono [OF wp_handleMessageCreation]) (auto intro: same creates dest: db_frame_metrics)
qed

lemma keeps_handleTestRabbit: "keeps R (handleTestRabbit s b c d)"
  unfolding handleTestRabbit_def by (intro keeps_rules keeps_count keeps_test_timer) simp_all

end

section \<open>The orders of the services\<close>

lemma reports_conform_refl [simp]: "reports_conform xs xs"
  by (simp add: reports_conform_def)

lemma reports_conform_trans: "reports_conform a b \<Longrightarrow> reports_conform b c \<Longrightarrow> reports_conform a c"
  by (auto simp: reports_conform_def)

lemma reports_conform_snoc [simp]: "conforms ev \<Longrightarrow> reports_conform xs (xs @ [ev])"
  by (simp add: reports_conform_def)

lemma success_conforms: "success_report ev \<Longrightarrow> conforms ev"
  by (auto simp: success_report_iff)

interpretation consumer_reports: messaging_order "\<lambda>a b. reports_conform (svc_metrics a) (svc_metrics b)"
  by unfold_locales (auto intro: reports_conform_trans dest: success_conforms)

abbreviation gateway_reporting :: "gateway_mem \<Rightarrow> gateway_mem \<Rightarrow> bool" where
  "gateway_reporting a b \<equiv> reports_conform (svc_metrics a) (svc_metrics b)"

interpretation gateway_reports: service_order gateway_reporting
  by unfold_locales (auto intro: reports_conform_trans)

lemma same_relay_reports:
  "amqp_client.more m' = amqp_client.more m \<Longrightarrow> metrics m' = metrics (m :: relay_mem)"
  by (cases m; cases m'; simp)

interpretation relay_reports: client_order "\<lambda>a b :: relay_mem. reports_conform (metrics a) (metrics b)"
  by unfold_locales (auto intro: reports_conform_trans dest: same_relay_reports)

interpretation dlq_reports: memory_order "\<lambda>a b. reports_conform (dlq_metrics a) (dlq_metrics b)"
  by unfold_locales (auto intro: reports_conform_trans)

interpretation legacy_reports: memory_order "\<lambda>a b. reports_conform (legacy_metrics a) (legacy_metrics b)"
  by unfold_locales (auto intro: reports_conform_trans)

text \<open>Messages may outrun success reports, never the other way round.\<close>

definition success_count :: "messaging_mem \<Rightarrow> int" where
  "success_count m = int (length (filter success_report (svc_metrics m)))"

definition message_count :: "messaging_mem \<Rightarrow> int" where
  "message_count m = int (length (messages (committed m)))"

interpretation honest_success: messaging_order
  "\<lambda>a b. success_count b - success_count a \<le> message_count b - message_count a"
  by unfold_locales (auto simp: success_count_def message_count_def written_once_def created_once_def)


section \<open>What the other services report\<close>

lemma keeps_gateway_record [keeps_rules]:
  "keeps gateway_reporting (gateway_record ev)"
proof (rule gateway_reports.keeps_from_wp)
  fix w :: "gateway_mem world"
  let ?Q = "\<lambda>_ w'. reports_conform (svc_metrics (mem w)) (svc_metrics (mem w'))"
  show "wp (gateway_record ev) ?Q ?Q w"
    by (rule wp_mono [OF wp_gateway_record]) (auto dest: db_frame_metrics)
qed

lemma keeps_gateway_count:
  "conforms ev \<Longrightarrow> keeps gateway_reporting (count_metric ev)"
  unfolding count_metric_def by (rule gateway_reports.keeps_modify) simp

lemma keeps_gateway_timer:
  "result \<in> {''accepted'', ''rejected'', ''failure''} \<Longrightarrow>
   keeps gateway_reporting
     (end_timer ''gateway'' t0 (event_name ty) result)"
  unfolding end_timer_def
  by (intro gateway_reports.keeps_bind keeps_gateway_count gateway_reports.keeps_pure timer_reports) auto

lemma keeps_emit_event:
  "keeps gateway_reporting (emit_event Z ty c t0 ev)"
  unfolding emit_event_def
  by (intro keeps_rules keeps_gateway_count keeps_gateway_timer) simp_all

abbreviation relay_reporting :: "relay_mem \<Rightarrow> relay_mem \<Rightarrow> bool" where
  "relay_reporting a b \<equiv> reports_conform (metrics a) (metrics b)"

lemma keeps_report: "conforms ev \<Longrightarrow> keeps relay_reporting (report ev)"
  unfolding report_def by (rule relay_reports.keeps_modify) simp

lemma relay_events [simp]:
  "service_label P \<in> {''gateway'', ''messaging''} \<Longrightarrow>
     conforms (Inc ''outbox_fenced_publishes_total'' [(''service'', service_label P)])"
  "service_label P \<in> {''gateway'', ''messaging''} \<Longrightarrow>
     conforms (SetGauge ''outbox_pending_events'' [(''service'', service_label P)] n)"
  by (auto simp: conforms_defs)

lemma keeps_relay_statements [keeps_rules]:
  assumes "service_label P \<in> {''gateway'', ''messaging''}"
  shows "keeps relay_reporting (claimBatch P)" "keeps relay_reporting (markSent i v)"
    "keeps relay_reporting (markFailedAttempt P row err)" "keeps relay_reporting (refreshPendingGauge P)"
    "keeps relay_reporting (reapStaleLocks P)"
  unfolding claimBatch_def markSent_def markFailedAttempt_def refreshPendingGauge_def reapStaleLocks_def
  by (intro keeps_rules relay_reports.keeps_request keeps_report relay_events assms;
      simp add: Let_def split: prod.split)+

lemma keeps_publishOne:
  "service_label P \<in> {''gateway'', ''messaging''} \<Longrightarrow> keeps relay_reporting (publishOne P row)"
  unfolding publishOne_def publishWithRestoredTrace_def
  by (intro keeps_rules keeps_report relay_events)

lemma keeps_publish_item:
  assumes "service_label P \<in> {''gateway'', ''messaging''}"
  shows "keeps relay_reporting (publish_item P i)"
proof -
  have "keeps relay_reporting publish_no_row"
    unfolding publish_no_row_def by (intro keeps_rules relay_reports.keeps_request) simp
  then show ?thesis using keeps_publishOne [OF assms] by (cases i) simp_all
qed

lemma keeps_runRelayTick:
  "service_label P \<in> {''gateway'', ''messaging''} \<Longrightarrow> keeps relay_reporting (runRelayTick P)"
  unfolding runRelayTick_def by (intro keeps_rules keeps_publish_item)

lemma keeps_dlq: "keeps (\<lambda>a b. reports_conform (dlq_metrics a) (dlq_metrics b)) (handleDlqMessage parse msg)"
  unfolding handleDlqMessage_def
  by (intro keeps_rules dlq_reports.keeps_modify) simp_all

lemma keeps_legacy_gauge:
  "keeps (\<lambda>a b. reports_conform (legacy_metrics a) (legacy_metrics b)) legacy_refreshGauge"
  unfolding legacy_refreshGauge_def
  by (intro keeps_rules legacy_reports.keeps_modify legacy_reports.keeps_request) (simp_all add: conforms_defs)

section \<open>Properties\<close>

text \<open>Timing an operation observes once, at its end, and hands on its result or error.\<close>

lemma timeAsync_observes_once:
  assumes "operation w = (r, w')"
  shows "timeAsync ls operation w = (r, w'\<lparr>mem := (mem w')\<lparr>svc_metrics := svc_metrics (mem w') @
    [Observe ''processing_duration_seconds'' ls (clock w' (calls w') - clock w (calls w))]\<rparr>\<rparr>)"
  using assms
  by (cases r) (simp_all add: timeAsync_def observe_since_def count_metric_def io_defs)

text \<open>
  C22: Every report is one the registry accepts. Whatever is delivered, requested or claimed and whatever
  the database and the broker answer, the handlers, endpoints, relays and consumers of both services only
  ever add reports whose metric is registered with their kind, that label it with exactly the registered
  label names, and whose labels take values from a fixed catalogue, the three labels that repeat message
  headers apart.
\<close>

theorem metrics_conform:
  "reports_conform (svc_metrics (mem w)) (svc_metrics (mem (snd (handleMessage Z data d w)))) \<and>
   reports_conform (svc_metrics (mem w)) (svc_metrics (mem (snd (handleTestRabbit s b c d w)))) \<and>
   reports_conform (svc_metrics (mem g)) (svc_metrics (mem (snd (sendTestMessage Z headers g)))) \<and>
   reports_conform (svc_metrics (mem g)) (svc_metrics (mem (snd (sendTestMessageV2 Z headers g)))) \<and>
   reports_conform (metrics (mem v)) (metrics (mem (snd (runRelayTick messaging_relay v)))) \<and>
   reports_conform (metrics (mem v)) (metrics (mem (snd (gw_runRelayTick v)))) \<and>
   reports_conform (metrics (mem v)) (metrics (mem (snd (refreshPendingGauge messaging_relay v)))) \<and>
   reports_conform (metrics (mem v)) (metrics (mem (snd (gw_refreshPendingGauge v)))) \<and>
   reports_conform (dlq_metrics (mem u)) (dlq_metrics (mem (snd (handleDlqMessage parse msg u)))) \<and>
   reports_conform (legacy_metrics (mem l)) (legacy_metrics (mem (snd (legacy_refreshGauge l))))"
proof (intro conjI)
  show "reports_conform (svc_metrics (mem g)) (svc_metrics (mem (snd (sendTestMessage Z headers g))))"
    "reports_conform (svc_metrics (mem g)) (svc_metrics (mem (snd (sendTestMessageV2 Z headers g))))"
    unfolding sendTestMessage_def sendTestMessageV2_def buildCreateMessageEventV1_def
      buildCreateMessageEventV2_def lift_sum_def
    by (rule keepsD [where R = gateway_reporting], intro keeps_rules keeps_emit_event)+
qed (rule consumer_reports.keeps_handleMessage [THEN keepsD] consumer_reports.keeps_handleTestRabbit [THEN keepsD]
    keepsD [OF keeps_runRelayTick] keepsD [OF keeps_relay_statements(4)] keeps_dlq [THEN keepsD]
    keeps_legacy_gauge [THEN keepsD] |
    simp add: messaging_relay_def gateway_relay_def gw_runRelayTick_def gw_refreshPendingGauge_def)+

text \<open>
  C21: The success counter never overstates. Over any run of deliveries, with whatever failures, the
  consumer's success counter of the contract events grows by no more than the message table: a success
  is counted only after the transaction that wrote its message was committed.
\<close>

theorem successes_were_persisted:
  "success_count (mem (deliver_all Z as w)) - success_count (mem w)
     \<le> message_count (mem (deliver_all Z as w)) - message_count (mem w)"
proof (induction as arbitrary: w)
  case (Cons a as)
  show ?case
    using Cons [of "deliver Z a w"] honest_success.keeps_handleMessage [of Z "fst a" "snd a", THEN keepsD, of w]
    by (simp add: deliver_def)
qed simp

end
