(* ===== verification/Consumer_System.thy ===== *)
theory Consumer_System
  imports Outbox_Tx
begin

text \<open>
  The consumers of the work queue, interleaved. A consumer has up to ten deliveries at once
  (\<open>prefetchCount\<close> of \<open>apps/messaging/src/main.ts\<close>), several processes consume one queue, and a delivery
  whose acknowledgement was lost comes again while the first run may still be going: the runs of
  \<open>runIdempotentWithOutboxEvents\<close> (\<open>apps/messaging/src/outbox/outbox-transaction.service.ts\<close>) share
  one database. Each step is one statement of one run. The unique index on the event id works as in
  PostgreSQL: the insert of an id that is committed fails, the insert of an id that an open transaction
  has inserted waits for that transaction.
\<close>

section \<open>Runs and their steps\<close>

record command =
  cmd_subject :: "string option"
  cmd_body :: "string option"
  cmd_eventId :: string
  cmd_eventType :: string
  cmd_corr :: "string option"

text \<open>How far a run is: its transaction begun, the three writes made, the transaction over.\<close>

datatype stage = Began | Inserted | Saved | Recorded | Settling

record consumer_run =
  run_cmd :: command
  run_stage :: stage
  run_writes :: service_tables

record consumer_system =
  cdb :: service_tables
  runs :: "nat \<rightharpoonup> consumer_run"
  acknowledged :: "string set"

definition add_writes :: "service_tables \<Rightarrow> service_tables \<Rightarrow> service_tables" where
  "add_writes d x = d\<lparr>processed_events := processed_events d @ processed_events x,
     messages := messages d @ messages x, outbox_events := outbox_events d @ outbox_events x\<rparr>"

text \<open>The event ids that open transactions of other runs have inserted.\<close>

definition locked_ids :: "nat \<Rightarrow> consumer_system \<Rightarrow> string set" where
  "locked_ids i s = {e. \<exists>j r. j \<noteq> i \<and> runs s j = Some r \<and> e \<in> processed_ids (run_writes r)}"

definition set_run :: "nat \<Rightarrow> consumer_run \<Rightarrow> consumer_system \<Rightarrow> consumer_system" where
  "set_run i r s = s\<lparr>runs := (runs s)(i \<mapsto> r)\<rparr>"

definition drop_run :: "nat \<Rightarrow> consumer_system \<Rightarrow> consumer_system" where
  "drop_run i s = s\<lparr>runs := (runs s)(i := None)\<rparr>"

definition new_run :: "command \<Rightarrow> consumer_run" where
  "new_run c = \<lparr>run_cmd = c, run_stage = Began, run_writes = no_tables\<rparr>"

text \<open>
  \<open>abandoned\<close> is a rollback, whatever its cause, or the end of the process; \<open>commit_answer_lost\<close> a commit
  that took effect although the run sees an error; \<open>relayed\<close> what relays do to the outbox meanwhile.
\<close>

inductive consumer_step :: "consumer_system \<Rightarrow> consumer_system \<Rightarrow> bool" where
  started: "runs s i = None \<Longrightarrow> consumer_step s (set_run i (new_run c) s)"
| inserted: "runs s i = Some r \<Longrightarrow> run_stage r = Began \<Longrightarrow>
    cmd_eventId (run_cmd r) \<notin> processed_ids (cdb s) \<Longrightarrow> cmd_eventId (run_cmd r) \<notin> locked_ids i s \<Longrightarrow>
    pe_eventId p = cmd_eventId (run_cmd r) \<Longrightarrow> pe_eventType p = cmd_eventType (run_cmd r) \<Longrightarrow>
    pe_correlationId p = cmd_corr (run_cmd r) \<Longrightarrow>
    consumer_step s (set_run i (r\<lparr>run_stage := Inserted,
      run_writes := (run_writes r)\<lparr>processed_events := [p]\<rparr>\<rparr>) s)"
| duplicate: "runs s i = Some r \<Longrightarrow> run_stage r = Began \<Longrightarrow>
    cmd_eventId (run_cmd r) \<in> processed_ids (cdb s) \<Longrightarrow>
    consumer_step s (set_run i (r\<lparr>run_stage := Settling\<rparr>) s)"
| saved: "runs s i = Some r \<Longrightarrow> run_stage r = Inserted \<Longrightarrow>
    msg_title m = or_else (cmd_subject (run_cmd r)) ''Untitled'' \<Longrightarrow>
    msg_content m = or_else (cmd_body (run_cmd r)) ''No content'' \<Longrightarrow>
    consumer_step s (set_run i (r\<lparr>run_stage := Saved, run_writes := (run_writes r)\<lparr>messages := [m]\<rparr>\<rparr>) s)"
| recorded: "runs s i = Some r \<Longrightarrow> run_stage r = Saved \<Longrightarrow>
    outbox_row_for (message_persisted_input (cmd_subject (run_cmd r)) (cmd_corr (run_cmd r))) row \<Longrightarrow>
    consumer_step s (set_run i (r\<lparr>run_stage := Recorded,
      run_writes := (run_writes r)\<lparr>outbox_events := [row]\<rparr>\<rparr>) s)"
| committed_run: "runs s i = Some r \<Longrightarrow> run_stage r = Recorded \<Longrightarrow>
    consumer_step s (set_run i (r\<lparr>run_stage := Settling, run_writes := no_tables\<rparr>)
      (s\<lparr>cdb := add_writes (cdb s) (run_writes r)\<rparr>))"
| commit_answer_lost: "runs s i = Some r \<Longrightarrow> run_stage r = Recorded \<Longrightarrow>
    consumer_step s (drop_run i (s\<lparr>cdb := add_writes (cdb s) (run_writes r)\<rparr>))"
| abandoned: "consumer_step s (drop_run i s)"
| acknowledged_run: "runs s i = Some r \<Longrightarrow> run_stage r = Settling \<Longrightarrow>
    consumer_step s (drop_run i (s\<lparr>acknowledged := insert (cmd_eventId (run_cmd r)) (acknowledged s)\<rparr>))"
| relayed: "map correlation_id t = map correlation_id (outbox_events (cdb s)) \<Longrightarrow>
    consumer_step s (s\<lparr>cdb := (cdb s)\<lparr>outbox_events := t\<rparr>\<rparr>)"

inductive_cases consumer_stepE: "consumer_step s s'"

lemma run_sel [simp]:
  "cdb (set_run i r s) = cdb s" "acknowledged (set_run i r s) = acknowledged s"
  "runs (set_run i r s) = (runs s)(i \<mapsto> r)" "cdb (drop_run i s) = cdb s"
  "acknowledged (drop_run i s) = acknowledged s" "runs (drop_run i s) = (runs s)(i := None)"
  by (simp_all add: set_run_def drop_run_def)

lemma new_run_sel [simp]:
  "run_cmd (new_run c) = c" "run_stage (new_run c) = Began" "run_writes (new_run c) = no_tables"
  by (simp_all add: new_run_def)

lemma no_tables_sel [simp]:
  "processed_events no_tables = []" "messages no_tables = []" "outbox_events no_tables = []"
  by (simp_all add: no_tables_def)

lemma add_writes_sel [simp]:
  "processed_events (add_writes d x) = processed_events d @ processed_events x"
  "messages (add_writes d x) = messages d @ messages x"
  "outbox_events (add_writes d x) = outbox_events d @ outbox_events x"
  by (simp_all add: add_writes_def)

section \<open>The invariant\<close>

text \<open>What the writes of a run are at each stage.\<close>

definition writes_of :: "consumer_run \<Rightarrow> bool" where
  "writes_of r \<longleftrightarrow> (let x = run_writes r; c = run_cmd r in
     (if run_stage r \<in> {Began, Settling} then processed_events x = []
      else \<exists>p. processed_events x = [p] \<and> pe_eventId p = cmd_eventId c \<and> pe_correlationId p = cmd_corr c) \<and>
     length (messages x) = (if run_stage r \<in> {Saved, Recorded} then 1 else 0) \<and>
     map correlation_id (outbox_events x) = (if run_stage r = Recorded then [cmd_corr c] else []))"

text \<open>
  Committed events have one effect each; what open transactions have inserted is new and inserted by
  one of them only; what is about to be acknowledged, and what has been, is committed.
\<close>

definition consumer_inv :: "consumer_system \<Rightarrow> bool" where
  "consumer_inv s \<longleftrightarrow> once_per_event (cdb s) \<and>
     (\<forall>i r. runs s i = Some r \<longrightarrow> writes_of r \<and>
        processed_ids (run_writes r) \<inter> (processed_ids (cdb s) \<union> locked_ids i s) = {} \<and>
        (run_stage r = Settling \<longrightarrow> cmd_eventId (run_cmd r) \<in> processed_ids (cdb s))) \<and>
     acknowledged s \<subseteq> processed_ids (cdb s)"

lemma consumer_invD:
  assumes "consumer_inv s" "runs s i = Some r"
  shows "writes_of r" "processed_ids (run_writes r) \<inter> processed_ids (cdb s) = {}"
    "run_stage r = Settling \<Longrightarrow> cmd_eventId (run_cmd r) \<in> processed_ids (cdb s)"
    "j \<noteq> i \<Longrightarrow> runs s j = Some r' \<Longrightarrow> processed_ids (run_writes r) \<inter> processed_ids (run_writes r') = {}"
  using assms unfolding consumer_inv_def locked_ids_def by blast+

lemma consumer_invI:
  assumes "once_per_event (cdb s)" "acknowledged s \<subseteq> processed_ids (cdb s)"
    and "\<And>i r. runs s i = Some r \<Longrightarrow> writes_of r \<and> processed_ids (run_writes r) \<inter> processed_ids (cdb s) = {} \<and>
        (run_stage r = Settling \<longrightarrow> cmd_eventId (run_cmd r) \<in> processed_ids (cdb s))"
    and "\<And>i r j r'. runs s i = Some r \<Longrightarrow> runs s j = Some r' \<Longrightarrow> j \<noteq> i \<Longrightarrow>
        processed_ids (run_writes r) \<inter> processed_ids (run_writes r') = {}"
  shows "consumer_inv s"
  using assms unfolding consumer_inv_def locked_ids_def by blast

lemma consumer_inv_parts:
  "consumer_inv s \<Longrightarrow> once_per_event (cdb s) \<and> acknowledged s \<subseteq> processed_ids (cdb s)"
  by (simp add: consumer_inv_def)

lemma processed_ids_no_tables [simp]: "processed_ids no_tables = {}"
  by (simp add: processed_ids_def)

lemma processed_ids_add [simp]: "processed_ids (add_writes d x) = processed_ids d \<union> processed_ids x"
  by (auto simp: processed_ids_def)

lemma processed_ids_outbox [simp]: "processed_ids (d\<lparr>outbox_events := t\<rparr>) = processed_ids d"
  by (simp add: processed_ids_def)

lemma consumer_inv_drop: "consumer_inv s \<Longrightarrow> consumer_inv (drop_run i s)"
  by (rule consumer_invI)
    (auto simp: consumer_inv_parts dest: consumer_invD split: if_splits)

lemma consumer_inv_set:
  assumes "consumer_inv s" "writes_of r"
    and "processed_ids (run_writes r) \<inter> (processed_ids (cdb s) \<union> locked_ids i s) = {}"
    and "run_stage r = Settling \<Longrightarrow> cmd_eventId (run_cmd r) \<in> processed_ids (cdb s)"
  shows "consumer_inv (set_run i r s)"
proof (rule consumer_invI)
  fix j q k q'
  assume "runs (set_run i r s) j = Some q" "runs (set_run i r s) k = Some q'" "k \<noteq> j"
  moreover have "processed_ids (run_writes r) \<inter> processed_ids (run_writes q) = {}"
    if "runs s j = Some q" "j \<noteq> i" for j q
    using assms(3) that unfolding locked_ids_def by blast
  ultimately show "processed_ids (run_writes q) \<inter> processed_ids (run_writes q') = {}"
    using consumer_invD(4) [OF assms(1)] by (auto split: if_splits)
qed (use assms consumer_inv_parts [OF assms(1)] in \<open>auto dest: consumer_invD split: if_splits\<close>)

lemma consumer_inv_keep:
  assumes "consumer_inv s" "runs s i = Some r" "writes_of q" "run_stage q \<noteq> Settling"
    and "processed_events (run_writes q) = processed_events (run_writes r)"
  shows "consumer_inv (set_run i q s)"
proof (rule consumer_inv_set)
  show "processed_ids (run_writes q) \<inter> (processed_ids (cdb s) \<union> locked_ids i s) = {}"
    using assms(1,2,5) unfolding consumer_inv_def by (auto simp: processed_ids_def)
qed (use assms in auto)

text \<open>A commit adds one processed row of a new event, one message and one outbox row.\<close>

lemma once_per_event_commit:
  assumes "once_per_event d" "writes_of r" "run_stage r = Recorded"
    and "processed_ids (run_writes r) \<inter> processed_ids d = {}"
  shows "once_per_event (add_writes d (run_writes r))"
  using assms by (auto simp: once_per_event_def writes_of_def processed_ids_def Let_def)

lemma consumer_inv_commit:
  assumes inv: "consumer_inv s" and r: "runs s i = Some r" "run_stage r = Recorded"
  shows "consumer_inv (drop_run i (s\<lparr>cdb := add_writes (cdb s) (run_writes r)\<rparr>))"
proof (rule consumer_invI)
  show "once_per_event (cdb (drop_run i (s\<lparr>cdb := add_writes (cdb s) (run_writes r)\<rparr>)))"
    using once_per_event_commit consumer_inv_parts [OF inv] consumer_invD [OF inv r(1)] r(2) by simp
next
  fix j q assume "runs (drop_run i (s\<lparr>cdb := add_writes (cdb s) (run_writes r)\<rparr>)) j = Some q"
  then have q: "j \<noteq> i" "runs s j = Some q" by (simp_all split: if_splits)
  show "writes_of q \<and> processed_ids (run_writes q) \<inter>
      processed_ids (cdb (drop_run i (s\<lparr>cdb := add_writes (cdb s) (run_writes r)\<rparr>))) = {} \<and>
      (run_stage q = Settling \<longrightarrow> cmd_eventId (run_cmd q) \<in>
        processed_ids (cdb (drop_run i (s\<lparr>cdb := add_writes (cdb s) (run_writes r)\<rparr>))))"
    using consumer_invD(1-3) [OF inv q(2)] consumer_invD(4) [OF inv r(1) q] by auto
next
  fix j q k q'
  assume "runs (drop_run i (s\<lparr>cdb := add_writes (cdb s) (run_writes r)\<rparr>)) j = Some q" "k \<noteq> j"
    "runs (drop_run i (s\<lparr>cdb := add_writes (cdb s) (run_writes r)\<rparr>)) k = Some q'"
  then show "processed_ids (run_writes q) \<inter> processed_ids (run_writes q') = {}"
    using consumer_invD(4) [OF inv, of j q k q'] by (simp split: if_splits)
qed (use consumer_inv_parts [OF inv] in auto)

lemma recorded_writes:
  "writes_of r \<Longrightarrow> run_stage r = Recorded \<Longrightarrow> processed_ids (run_writes r) = {cmd_eventId (run_cmd r)}"
  by (auto simp: writes_of_def processed_ids_def Let_def)

lemma consumer_inv_step: "consumer_step s s' \<Longrightarrow> consumer_inv s \<Longrightarrow> consumer_inv s'"
proof (induction rule: consumer_step.induct)
  case (started s i c)
  then show ?case by (intro consumer_inv_set) (auto simp: writes_of_def Let_def)
next
  case (inserted s i r p)
  then show ?case
    by (intro consumer_inv_set) (auto simp: writes_of_def processed_ids_def Let_def dest: consumer_invD(1))
next
  case (duplicate s i r)
  then show ?case
    by (intro consumer_inv_set) (auto simp: writes_of_def processed_ids_def Let_def dest: consumer_invD(1))
next
  case (saved s i r m)
  then show ?case
    using consumer_invD(1) [OF saved(5,1)]
    by (intro consumer_inv_keep [where r = r]) (auto simp: writes_of_def Let_def)
next
  case (recorded s i r row)
  then show ?case
    using consumer_invD(1) [OF recorded(4,1)]
    by (intro consumer_inv_keep [where r = r])
      (auto simp: writes_of_def Let_def outbox_row_for_def message_persisted_input_def)
next
  case (committed_run s i r)
  let ?s = "drop_run i (s\<lparr>cdb := add_writes (cdb s) (run_writes r)\<rparr>)"
  let ?r = "r\<lparr>run_stage := Settling, run_writes := no_tables\<rparr>"
  have "consumer_inv (set_run i ?r ?s)"
    using committed_run recorded_writes [OF consumer_invD(1)]
    by (intro consumer_inv_set consumer_inv_commit) (auto simp: writes_of_def Let_def)
  then show ?case by (simp add: set_run_def drop_run_def)
next
  case (commit_answer_lost s i r)
  then show ?case by (intro consumer_inv_commit)
next
  case (abandoned s i)
  then show ?case by (rule consumer_inv_drop)
next
  case (acknowledged_run s i r)
  then have "consumer_inv (s\<lparr>acknowledged := insert (cmd_eventId (run_cmd r)) (acknowledged s)\<rparr>)"
    using consumer_invD(3) [OF acknowledged_run(3,1)]
    by (intro consumer_invI) (auto simp: consumer_inv_parts dest: consumer_invD)
  then show ?case by (rule consumer_inv_drop)
next
  case (relayed t s)
  then show ?case
    by (simp add: consumer_inv_def locked_ids_def once_per_event_def)
qed

interpretation consumers: step_system consumer_step consumer_inv
  by unfold_locales (rule consumer_inv_step)

section \<open>The sequential handler is a schedule of steps\<close>

lemma run_updates [simp]:
  "set_run i q (set_run i r s) = set_run i q s" "drop_run i (set_run i r s) = drop_run i s"
  "locked_ids i (set_run i r s) = locked_ids i s" "locked_ids i (s\<lparr>cdb := d\<rparr>) = locked_ids i s"
  "(set_run i r s)\<lparr>cdb := d\<rparr> = set_run i r (s\<lparr>cdb := d\<rparr>)"
  by (auto simp: set_run_def drop_run_def locked_ids_def)

text \<open>A run over an event that nobody has inserted gets to its commit.\<close>

definition settled_run :: "command \<Rightarrow> consumer_run" where
  "settled_run c = \<lparr>run_cmd = c, run_stage = Settling, run_writes = no_tables\<rparr>"

definition run_at :: "command \<Rightarrow> stage \<Rightarrow> service_tables \<Rightarrow> consumer_run" where
  "run_at c st x = \<lparr>run_cmd = c, run_stage = st, run_writes = x\<rparr>"

lemma run_at_sel [simp]:
  "run_cmd (run_at c st x) = c" "run_stage (run_at c st x) = st" "run_writes (run_at c st x) = x"
  "(run_at c st x)\<lparr>run_writes := x'\<rparr> = run_at c st x'"
  "(run_at c st x)\<lparr>run_stage := st'\<rparr> = run_at c st' x"
  "new_run c = run_at c Began no_tables" "settled_run c = run_at c Settling no_tables"
  by (simp_all add: run_at_def new_run_def settled_run_def)

lemmas step_after = rtranclp.rtrancl_into_rtrancl [of consumer_step]

lemma fresh_run_recorded:
  assumes "runs s i = None" "cmd_eventId c \<notin> locked_ids i s"
    and "written_once (cmd_subject c) (cmd_body c) (cmd_eventId c) (cmd_eventType c) (cmd_corr c) (cdb s) m d"
  obtains x where "consumer_step\<^sup>*\<^sup>* s (set_run i (run_at c Recorded x) s)" "d = add_writes (cdb s) x"
proof -
  obtain p row where p: "cmd_eventId c \<notin> processed_ids (cdb s)" "pe_eventId p = cmd_eventId c"
      "pe_eventType p = cmd_eventType c" "pe_correlationId p = cmd_corr c"
    and m: "msg_title m = or_else (cmd_subject c) ''Untitled''"
      "msg_content m = or_else (cmd_body c) ''No content''"
    and row: "outbox_row_for (message_persisted_input (cmd_subject c) (cmd_corr c)) row"
    and d: "d = (cdb s)\<lparr>processed_events := processed_events (cdb s) @ [p],
      messages := messages (cdb s) @ [m], outbox_events := outbox_events (cdb s) @ [row]\<rparr>"
    using assms(3) unfolding written_once_def by blast
  let ?x1 = "no_tables\<lparr>processed_events := [p]\<rparr>" let ?x2 = "?x1\<lparr>messages := [m]\<rparr>"
  let ?x3 = "?x2\<lparr>outbox_events := [row]\<rparr>"
  have steps: "consumer_step s (set_run i (run_at c Began no_tables) s)"
    using started [OF assms(1), of c] by simp
  have steps2: "consumer_step (set_run i (run_at c Began no_tables) s) (set_run i (run_at c Inserted ?x1) s)"
    using inserted [of "set_run i (run_at c Began no_tables) s" i "run_at c Began no_tables" p] p assms(2) by simp
  have steps3: "consumer_step (set_run i (run_at c Inserted ?x1) s) (set_run i (run_at c Saved ?x2) s)"
    using saved [of "set_run i (run_at c Inserted ?x1) s" i "run_at c Inserted ?x1" m] m by simp
  have steps4: "consumer_step (set_run i (run_at c Saved ?x2) s) (set_run i (run_at c Recorded ?x3) s)"
    using recorded [of "set_run i (run_at c Saved ?x2) s" i "run_at c Saved ?x2" row] row by simp
  have "consumer_step\<^sup>*\<^sup>* s (set_run i (run_at c Recorded ?x3) s)"
    by (intro step_after [OF _ steps4] step_after [OF _ steps3] step_after [OF _ steps2]
        r_into_rtranclp steps)
  then show ?thesis by (rule that) (simp add: d add_writes_def)
qed

lemma fresh_run_committed:
  assumes "runs s i = None" "cmd_eventId c \<notin> locked_ids i s"
    and "written_once (cmd_subject c) (cmd_body c) (cmd_eventId c) (cmd_eventType c) (cmd_corr c) (cdb s) m d"
  shows "consumer_step\<^sup>*\<^sup>* s (set_run i (settled_run c) (s\<lparr>cdb := d\<rparr>))"
    and "consumer_step\<^sup>*\<^sup>* s (drop_run i (s\<lparr>cdb := d\<rparr>))"
proof -
  obtain x where x: "consumer_step\<^sup>*\<^sup>* s (set_run i (run_at c Recorded x) s)" "d = add_writes (cdb s) x"
    by (rule fresh_run_recorded [OF assms])
  show "consumer_step\<^sup>*\<^sup>* s (set_run i (settled_run c) (s\<lparr>cdb := d\<rparr>))"
    using committed_run [of "set_run i (run_at c Recorded x) s" i "run_at c Recorded x"] x
    by (simp add: step_after)
  show "consumer_step\<^sup>*\<^sup>* s (drop_run i (s\<lparr>cdb := d\<rparr>))"
    using commit_answer_lost [of "set_run i (run_at c Recorded x) s" i "run_at c Recorded x"] x
    by (simp add: step_after)
qed

text \<open>
  C15: The idempotent handler, run to its end while no open transaction has inserted its event, is a
  schedule of the steps of one consumer run. If it returns, the run is about to be acknowledged; if it
  throws, the run is gone; and the committed database of the schedule is the one the handler leaves.
\<close>

theorem handler_refines_consumer:
  assumes "\<not> unique_noise w" "cdb s = committed (mem w)" "runs s i = None"
    and "cmd_eventId c \<notin> locked_ids i s"
  shows "let (r, w') = handleMessageCreationIdempotent (cmd_subject c) (cmd_body c) (cmd_eventId c)
           (cmd_eventType c) (cmd_corr c) w
         in consumer_step\<^sup>*\<^sup>* s (s\<lparr>cdb := committed (mem w'),
              runs := case r of Inr _ \<Rightarrow> (runs s)(i \<mapsto> settled_run c) | Inl _ \<Rightarrow> runs s\<rparr>)"
proof -
  let ?h = "handleMessageCreationIdempotent (cmd_subject c) (cmd_body c) (cmd_eventId c)
      (cmd_eventType c) (cmd_corr c)"
  let ?post = "idempotent_post (cmd_subject c) (cmd_body c) (cmd_eventId c) (cmd_eventType c) (cmd_corr c) w"
  obtain r w' where run: "?h w = (r, w')" by fastforce
  note all = wp_handleMessageCreationIdempotent [of "cmd_subject c" "cmd_body c" "cmd_eventId c" "cmd_eventType c" "cmd_corr c" w]
  note ok = fresh_run_committed [OF assms(3,4)]
  have [simp]: "s\<lparr>cdb := committed (mem w), runs := R\<rparr> = s\<lparr>runs := R\<rparr>" for R
    using assms(2) by simp
  show ?thesis
  proof (cases r)
    case (Inl e)
    with wp_error [OF all run [unfolded Inl]] have "?post None (committed (mem w'))" by simp
    then consider "committed (mem w') = cdb s"
      | m where "written_once (cmd_subject c) (cmd_body c) (cmd_eventId c) (cmd_eventType c)
          (cmd_corr c) (cdb s) m (committed (mem w'))"
      by (auto simp: idempotent_post_def assms(2))
    then show ?thesis
      by cases (use ok(2) in \<open>simp_all add: run Inl drop_run_def assms(3) fun_upd_idem\<close>)
  next
    case (Inr x)
    have post: "?post (Some x) (committed (mem w'))"
      using wp_result [OF all run [unfolded Inr]] by simp
    show ?thesis
    proof (cases x)
      case None
      then have old: "committed (mem w') = cdb s" "cmd_eventId c \<in> processed_ids (cdb s)"
        using post assms(1,2) by (auto simp: idempotent_post_def)
      have "consumer_step s (set_run i (run_at c Began no_tables) s)"
        using started [OF assms(3), of c] by simp
      moreover have "consumer_step (set_run i (run_at c Began no_tables) s) (set_run i (settled_run c) s)"
        using duplicate [of "set_run i (run_at c Began no_tables) s" i "run_at c Began no_tables"] old(2) by simp
      ultimately show ?thesis
        using old(1) by (simp add: run Inr set_run_def)
    next
      case (Some m)
      then show ?thesis
        using post ok(1) assms(2) by (simp add: run Inr set_run_def idempotent_post_def)
    qed
  qed
qed


section \<open>What holds of every schedule\<close>

definition consumer_start :: "consumer_system \<Rightarrow> bool" where
  "consumer_start s \<longleftrightarrow> once_per_event (cdb s) \<and> runs s = Map.empty \<and> acknowledged s = {}"

lemma consumer_inv_run: "consumer_start s0 \<Longrightarrow> consumer_step\<^sup>*\<^sup>* s0 s \<Longrightarrow> consumer_inv s"
  by (erule consumers.schedule_keeps) (simp add: consumer_start_def consumer_inv_def)

text \<open>A run whose insert waits for the transaction of another run.\<close>

definition waits_for :: "consumer_system \<Rightarrow> nat \<Rightarrow> nat \<Rightarrow> bool" where
  "waits_for s i j \<longleftrightarrow> j \<noteq> i \<and> (case (runs s i, runs s j) of
     (Some r, Some r') \<Rightarrow> run_stage r = Began \<and> cmd_eventId (run_cmd r) \<in> processed_ids (run_writes r')
   | _ \<Rightarrow> False)"

definition holds_id :: "consumer_system \<Rightarrow> string \<Rightarrow> nat \<Rightarrow> bool" where
  "holds_id s e i \<longleftrightarrow> (case runs s i of Some r \<Rightarrow> e \<in> processed_ids (run_writes r) | None \<Rightarrow> False)"

definition finishes :: "nat \<Rightarrow> command \<Rightarrow> consumer_system \<Rightarrow> bool" where
  "finishes j c s \<longleftrightarrow> (\<exists>s'. consumer_step\<^sup>*\<^sup>* s s' \<and> runs s' = (runs s)(j \<mapsto> settled_run c) \<and>
     cmd_eventId c \<in> processed_ids (cdb s'))"

lemma finishes_step:
  assumes "consumer_step s (set_run j q s)" "finishes j c (set_run j q s)"
  shows "finishes j c s"
proof -
  obtain s' where s': "consumer_step\<^sup>*\<^sup>* (set_run j q s) s'" "runs s' = (runs s)(j \<mapsto> settled_run c)"
    "cmd_eventId c \<in> processed_ids (cdb s')"
    using assms(2) unfolding finishes_def by auto
  with converse_rtranclp_into_rtranclp [OF assms(1) s'(1)] show ?thesis
    unfolding finishes_def by blast
qed

lemma settled_eq: "r\<lparr>run_stage := Settling, run_writes := no_tables\<rparr> = settled_run (run_cmd r)"
  by (simp add: settled_run_def)

lemma recorded_finishes:
  assumes "consumer_inv s" "runs s j = Some r" "run_stage r = Recorded"
  shows "finishes j (run_cmd r) s"
proof -
  have "processed_ids (run_writes r) = {cmd_eventId (run_cmd r)}"
    using recorded_writes consumer_invD(1) [OF assms(1,2)] assms(3) by blast
  then show ?thesis
    using committed_run [OF assms(2,3)] unfolding finishes_def settled_eq
    by (intro exI [of _ "set_run j (settled_run (run_cmd r)) (s\<lparr>cdb := add_writes (cdb s) (run_writes r)\<rparr>)"])
      (simp del: run_at_sel(6,7) add: r_into_rtranclp)
qed

lemma saved_finishes:
  assumes "consumer_inv s" "runs s j = Some r" "run_stage r = Saved"
  shows "finishes j (run_cmd r) s"
proof -
  note st = recorded [OF assms(2,3) outbox_row_forI, of undefined undefined undefined undefined undefined]
  show ?thesis
    by (rule finishes_step [OF st])
      (use recorded_finishes [OF consumer_inv_step [OF st assms(1)], of j] in simp)
qed

lemma inserted_finishes:
  assumes "consumer_inv s" "runs s j = Some r" "run_stage r = Inserted"
  shows "finishes j (run_cmd r) s"
proof -
  let ?m = "undefined\<lparr>msg_title := or_else (cmd_subject (run_cmd r)) ''Untitled'',
    msg_content := or_else (cmd_body (run_cmd r)) ''No content''\<rparr>"
  have st: "consumer_step s (set_run j (r\<lparr>run_stage := Saved,
      run_writes := (run_writes r)\<lparr>messages := [?m]\<rparr>\<rparr>) s)"
    by (rule saved [OF assms(2,3)]) simp_all
  show ?thesis
    by (rule finishes_step [OF st]) (use saved_finishes [OF consumer_inv_step [OF st assms(1)], of j] in simp)
qed

text \<open>
  C6: Redeliveries and concurrent deliveries do not duplicate an effect: from a database with one
  effect for each event, in every schedule of any number of runs, rollbacks, lost commit answers and
  ends of processes included, the committed database has exactly one processed row, one message and
  one outbox event for each processed event; an event acknowledged as handled is committed; and two
  open transactions never hold the same event id.
\<close>

theorem concurrent_exactly_once:
  assumes "consumer_start s0" "consumer_step\<^sup>*\<^sup>* s0 s"
  shows "once_per_event (cdb s) \<and> acknowledged s \<subseteq> processed_ids (cdb s) \<and>
    (\<forall>e i j. holds_id s e i \<and> holds_id s e j \<longrightarrow> i = j)"
proof -
  note inv = consumer_inv_run [OF assms]
  show ?thesis
    using consumer_inv_parts [OF inv] consumer_invD(4) [OF inv]
    by (auto simp: holds_id_def disjoint_iff split: option.splits) metis
qed

text \<open>
  C17: A run waits only for one that does not wait: in every schedule the run that holds the event id
  has its statements enabled up to its commit, after which the insert of the waiting run answers that
  the event is a duplicate. No schedule deadlocks.
\<close>

theorem waiting_run_answers:
  assumes "consumer_start s0" "consumer_step\<^sup>*\<^sup>* s0 s" "waits_for s i j" "runs s i = Some r"
  shows "(\<forall>k. \<not> waits_for s j k) \<and>
    (\<exists>s' c. consumer_step\<^sup>*\<^sup>* s s' \<and> runs s' = (runs s)(j \<mapsto> settled_run c) \<and>
       consumer_step s' (set_run i (r\<lparr>run_stage := Settling\<rparr>) s'))"
proof -
  note inv = consumer_inv_run [OF assms(1,2)]
  obtain q where q: "runs s j = Some q" "j \<noteq> i" and held: "cmd_eventId (run_cmd r) \<in> processed_ids (run_writes q)"
    and began: "run_stage r = Began"
    using assms(3,4) by (auto simp: waits_for_def split: option.splits)
  have open_tx: "run_stage q \<notin> {Began, Settling}" and same: "cmd_eventId (run_cmd q) = cmd_eventId (run_cmd r)"
    using consumer_invD(1) [OF inv q(1)] held
    by (auto simp: writes_of_def processed_ids_def Let_def split: if_splits)
  then have "finishes j (run_cmd q) s"
    using inserted_finishes [OF inv q(1)] saved_finishes [OF inv q(1)] recorded_finishes [OF inv q(1)]
    by (cases "run_stage q") simp_all
  then obtain s' where s': "consumer_step\<^sup>*\<^sup>* s s'" "runs s' = (runs s)(j \<mapsto> settled_run (run_cmd q))"
    "cmd_eventId (run_cmd r) \<in> processed_ids (cdb s')"
    unfolding finishes_def same by blast
  have "consumer_step s' (set_run i (r\<lparr>run_stage := Settling\<rparr>) s')"
    using s' q(2) assms(4) began by (intro duplicate) simp_all
  with s' have "\<exists>s' c. consumer_step\<^sup>*\<^sup>* s s' \<and> runs s' = (runs s)(j \<mapsto> settled_run c) \<and>
      consumer_step s' (set_run i (r\<lparr>run_stage := Settling\<rparr>) s')" by blast
  moreover have "\<not> waits_for s j k" for k
    using open_tx q(1) by (auto simp: waits_for_def split: option.splits)
  ultimately show ?thesis by blast
qed


section \<open>One event, two runs at once\<close>

definition a_command :: command where
  "a_command = \<lparr>cmd_subject = None, cmd_body = None, cmd_eventId = ''e-1'',
     cmd_eventType = ''CreateMessage.v1'', cmd_corr = Some ''c-1''\<rparr>"

definition a_processed :: processed_row where
  "a_processed = \<lparr>pe_id = 1, pe_eventId = ''e-1'', pe_eventType = ''CreateMessage.v1'',
     pe_correlationId = Some ''c-1'', pe_result = JUndef, pe_processedAt = 0\<rparr>"

definition idle_system :: consumer_system where
  "idle_system = \<lparr>cdb = no_tables, runs = Map.empty, acknowledged = {}\<rparr>"

definition two_runs :: consumer_system where
  "two_runs = set_run 0 (run_at a_command Inserted (no_tables\<lparr>processed_events := [a_processed]\<rparr>))
     (set_run 1 (run_at a_command Began no_tables) idle_system)"

lemma idle_sel [simp]:
  "cdb idle_system = no_tables" "runs idle_system = Map.empty" "acknowledged idle_system = {}"
  by (simp_all add: idle_system_def)

lemma idle_start: "consumer_start idle_system"
  by (simp add: consumer_start_def once_per_event_def)

lemma two_runs_reachable: "consumer_step\<^sup>*\<^sup>* idle_system two_runs"
proof -
  let ?one = "set_run 1 (run_at a_command Began no_tables) idle_system"
  let ?two = "set_run 0 (run_at a_command Began no_tables) ?one"
  have one: "consumer_step idle_system ?one"
    using started [of idle_system 1 a_command] by simp
  have two: "consumer_step ?one ?two"
    using started [of ?one 0 a_command] by simp
  have "consumer_step ?two two_runs"
    using inserted [of ?two 0 "run_at a_command Began no_tables" a_processed]
    by (simp add: two_runs_def a_command_def a_processed_def locked_ids_def processed_ids_def)
  with one two show ?thesis by (meson rtranclp.rtrancl_into_rtrancl rtranclp.rtrancl_refl)
qed

theorem concurrent_exactly_once_witness:
  "once_per_event (cdb two_runs) \<and> acknowledged two_runs \<subseteq> processed_ids (cdb two_runs) \<and>
     holds_id two_runs ''e-1'' 0 \<and> \<not> holds_id two_runs ''e-1'' 1"
  using concurrent_exactly_once [OF idle_start two_runs_reachable]
  by (simp add: two_runs_def holds_id_def a_processed_def processed_ids_def)

theorem waiting_run_answers_witness:
  "waits_for two_runs 1 0 \<and> (\<forall>k. \<not> waits_for two_runs 0 k)"
proof -
  have "waits_for two_runs 1 0" and "runs two_runs 1 = Some (run_at a_command Began no_tables)"
    by (simp_all add: waits_for_def two_runs_def a_command_def a_processed_def processed_ids_def)
  with waiting_run_answers [OF idle_start two_runs_reachable this] show ?thesis by blast
qed


theorem handler_refines_consumer_witness:
  "let (r, w') = handleMessageCreationIdempotent None None ''e-1'' ''CreateMessage.v1'' (Some ''c-1'')
       (start_world (new_service no_tables))
     in consumer_step\<^sup>*\<^sup>* idle_system (idle_system\<lparr>cdb := committed (mem w'),
          runs := case r of Inr _ \<Rightarrow> (runs idle_system)(0 \<mapsto> settled_run a_command) | Inl _ \<Rightarrow> runs idle_system\<rparr>)"
  using handler_refines_consumer [of "start_world (new_service no_tables)" idle_system 0 a_command]
  by (simp add: new_service_def unique_noise_def outside_errors_def locked_ids_def a_command_def)

end
