(* ===== verification/Patterns.thy ===== *)
theory Patterns
  imports Contracts
begin

text \<open>
  Which handler of the messaging service a message reaches: the controllers register their methods for
  patterns (\<open>apps/messaging/src/messaging.controller.ts\<close>, \<open>apps/messaging/src/messages/messages.controller.ts\<close>);
  the RMQ transport of the framework reads the pattern and the data of a message from its body.
\<close>

section \<open>Patterns\<close>

datatype handler = HandleTestRabbit | HandleMessage | CreateMsg | FindAllMsgs | FindOneMsg | UpdateMsg | RemoveMsg

text \<open>The decorators, in the order of the classes; an array registers its method for each of its members.\<close>

definition messaging_patterns :: "(string \<times> handler) list" where
  "messaging_patterns = [(''test-rabbit'', HandleTestRabbit)] @
     map (\<lambda>p. (p, HandleMessage)) [CreateMessageEvent, CreateMessageEventNameV2]"

definition messages_patterns :: "(string \<times> handler) list" where
  "messages_patterns = [(''messages.create'', CreateMsg), (''findAllMessages'', FindAllMsgs),
     (''findOneMessage'', FindOneMsg), (''updateMessage'', UpdateMsg), (''removeMessage'', RemoveMsg)]"

definition registered_handlers :: "string \<Rightarrow> handler option" where
  "registered_handlers = map_of (messaging_patterns @ messages_patterns)"

text \<open>
  The transport, a parameter: from a body, the handler and the data it is called with. As documented, a
  handler is found by the member \<open>pattern\<close> of the body alone and gets its member \<open>data\<close>.
\<close>

type_synonym transport = "jsval \<Rightarrow> (handler \<times> jsval) option"

definition transport_documented :: "transport \<Rightarrow> bool" where
  "transport_documented tr \<longleftrightarrow> (\<forall>body h d. tr body = Some (h, d) \<longrightarrow>
     (\<exists>p. get_prop ''pattern'' body = JStr p \<and> registered_handlers p = Some h) \<and> d = get_prop ''data'' body)"

definition example_transport :: transport where
  "example_transport body = (case get_prop ''pattern'' body of
       JStr p \<Rightarrow> map_option (\<lambda>h. (h, get_prop ''data'' body)) (registered_handlers p)
     | _ \<Rightarrow> None)"

lemma example_transport_documented: "transport_documented example_transport"
  by (auto simp: transport_documented_def example_transport_def split: jsval.splits)

end
