(* ===== verification/Work_Queue.thy ===== *)
theory Work_Queue
  imports Delivery_Runs Dlq_Consumer Patterns
begin

text \<open>
  The consumer against its queues. The messaging service consumes the work queue with
  \<open>prefetchCount: 10\<close> and manual acknowledgement (\<open>apps/messaging/src/main.ts\<close>); what its handler
  (\<open>apps/messaging/src/messaging.controller.ts\<close>) does to a delivery moves a message between the work
  queue, the retry queue, whose messages expire back into the work queue, and the dead letter queue
  (\<open>libs/contracts/src/topology/topology.ts\<close>), which a consumer of its own empties
  (\<open>apps/messaging/src/reliability/dlq-consumer.service.ts\<close>). The broker keeps an unsettled message for the channel it
  was delivered on, and makes it ready again when that channel closes.
\<close>

section \<open>Queues\<close>

record queued =
  q_content :: string
  q_headers :: "(string \<times> jsval) list option"

text \<open>
  A delivered message is unsettled, and its handler has run or not. \<open>dlq\<close> is the dead letter queue, whose
  consumer has a memory of its own, and \<open>given_up\<close> what that consumer has acknowledged.
\<close>

record work_system =
  svc :: "messaging_mem world"
  ready :: "queued list"
  unacked :: "int \<rightharpoonup> queued \<times> bool"
  delayed :: "queued list"
  dlq :: "queued list"
  dlq_svc :: "dlq_mem world"
  given_up :: "queued list"
  offered :: "string set"

definition as_delivery :: "int \<Rightarrow> queued \<Rightarrow> delivery" where
  "as_delivery t m = \<lparr>deliveryTag = t, d_content = q_content m, d_headers = q_headers m\<rparr>"

text \<open>A dead letter as its consumer gets it; the broker has added to the headers.\<close>

definition as_dead :: "int \<Rightarrow> string \<Rightarrow> (string \<times> jsval) list option \<Rightarrow> queued \<Rightarrow> dlq_message" where
  "as_dead t key hs m = \<lparr>dm_tag = t, dm_content = q_content m, dm_routingKey = key, dm_headers = hs\<rparr>"

text \<open>The body of a message: its JSON, or its text; \<open>parse\<close> is \<open>JSON.parse\<close>, \<open>None\<close> when it throws.\<close>

definition body_of :: "(string \<Rightarrow> jsval option) \<Rightarrow> queued \<Rightarrow> jsval" where
  "body_of parse m = or_else (parse (q_content m)) (JStr (q_content m))"

text \<open>
  The event of a message: the one that \<open>handleMessage\<close> reads from the data it is called with, or, when the
  transport finds no handler, the one that the body names.
\<close>

definition carried :: "zod \<Rightarrow> transport \<Rightarrow> (string \<Rightarrow> jsval option) \<Rightarrow> queued \<Rightarrow> string option" where
  "carried Z tr parse m = (case tr (body_of parse m) of
       Some (h, data) \<Rightarrow> if h = HandleMessage
         then map_option (event_string ''eventId'') (accepted_event Z data (as_delivery 0 m)) else None
     | None \<Rightarrow> as_string (get_prop ''eventId'' (body_of parse m)))"

text \<open>A retry copy in the retry queue.\<close>

definition queued_copy :: "amqp_message \<Rightarrow> queued" where
  "queued_copy msg = \<lparr>q_content = (case m_body msg of JBuf c \<Rightarrow> c | _ \<Rightarrow> ''''), q_headers = Some (m_headers msg)\<rparr>"

definition new_published :: "messaging_mem world \<Rightarrow> messaging_mem world \<Rightarrow> (nat \<times> amqp_message) list" where
  "new_published w w' = drop (length (published (mem w))) (published (mem w'))"

definition new_settled :: "messaging_mem world \<Rightarrow> messaging_mem world \<Rightarrow> settlement list" where
  "new_settled w w' = drop (length (settled (mem w))) (settled (mem w'))"

text \<open>
  What a handled delivery does to the queues: \<open>copies\<close> is what the broker got of the copies published
  meanwhile, then the settlements count.
\<close>

fun settle_delivery :: "queued \<Rightarrow> settlement \<Rightarrow> work_system \<Rightarrow> work_system" where
  "settle_delivery m (Ack t) s = s\<lparr>unacked := (unacked s)(t := None)\<rparr>"
| "settle_delivery m (Nack t requeue) s = (let s' = s\<lparr>unacked := (unacked s)(t := None)\<rparr>
     in if requeue then s'\<lparr>ready := m # ready s\<rparr> else s'\<lparr>dlq := dlq s @ [m]\<rparr>)"

definition after_delivery :: "int \<Rightarrow> queued \<Rightarrow> messaging_mem world \<Rightarrow> (nat \<times> amqp_message) list \<Rightarrow> work_system \<Rightarrow> work_system" where
  "after_delivery t m w' copies s = fold (settle_delivery m) (new_settled (svc s) w')
     (s\<lparr>svc := w', delayed := delayed s @ map (queued_copy \<circ> snd) copies, unacked := (unacked s)(t \<mapsto> (m, True))\<rparr>)"

definition prefetchCount :: nat where
  "prefetchCount = 10"

text \<open>
  The steps. A copy that was published may or may not reach the broker; one that was confirmed did.
  \<open>handled\<close> is a delivery for which the transport \<open>tr\<close> finds \<open>handleMessage\<close>, \<open>unhandled\<close> one for which it finds
  no handler, so that it is rejected without requeueing, and \<open>other_handled\<close> one for another handler, which
  settles it or does not. \<open>dead_consumed\<close> is a run of the dead letter consumer: what it acknowledged is
  gone, also when the answer was lost. \<open>elsewhere\<close> is what other parts of the system do to the database
  and the clients meanwhile: processed events stay processed.
\<close>

inductive work_step :: "zod \<Rightarrow> transport \<Rightarrow> (string \<Rightarrow> jsval option) \<Rightarrow> work_system \<Rightarrow> work_system \<Rightarrow> bool"
    for Z tr parse where
  offer: "work_step Z tr parse s (s\<lparr>ready := ready s @ [m], offered := offered s \<union> set_option (carried Z tr parse m)\<rparr>)"
| deliver_next: "ready s = m # ms \<Longrightarrow> unacked s t = None \<Longrightarrow> card (dom (unacked s)) < prefetchCount \<Longrightarrow>
    work_step Z tr parse s (s\<lparr>ready := ms, unacked := (unacked s)(t \<mapsto> (m, False))\<rparr>)"
| handled: "unacked s t = Some (m, False) \<Longrightarrow> tr (body_of parse m) = Some (HandleMessage, data) \<Longrightarrow>
    w' = snd (handleMessage Z data (as_delivery t m) (svc s)) \<Longrightarrow>
    set copies \<subseteq> set (new_published (svc s) w') \<Longrightarrow>
    (\<And>p. p \<in> set (new_published (svc s) w') \<Longrightarrow> confirmed_since (svc s) w' p \<Longrightarrow> p \<in> set copies) \<Longrightarrow>
    work_step Z tr parse s (after_delivery t m w' copies s)"
| unhandled: "unacked s t = Some (m, False) \<Longrightarrow> tr (body_of parse m) = None \<Longrightarrow>
    work_step Z tr parse s (s\<lparr>unacked := (unacked s)(t := None), dlq := dlq s @ [m]\<rparr>)"
| other_handled: "unacked s t = Some (m, False) \<Longrightarrow> tr (body_of parse m) = Some (h, data) \<Longrightarrow> h \<noteq> HandleMessage \<Longrightarrow>
    u \<in> {None, Some (m, True)} \<Longrightarrow> work_step Z tr parse s (s\<lparr>unacked := (unacked s)(t := u)\<rparr>)"
| expired: "delayed s = xs @ m # ys \<Longrightarrow>
    work_step Z tr parse s (s\<lparr>delayed := xs @ ys, ready := ready s @ [m]\<rparr>)"
| channel_closed: "unacked s t = Some (m, ran_once) \<Longrightarrow>
    work_step Z tr parse s (s\<lparr>unacked := (unacked s)(t := None), ready := m # ready s\<rparr>)"
| dead_consumed: "dlq s = m # ms \<Longrightarrow>
    handleDlqMessage parse (Some (as_dead t key hs m)) (dlq_svc s) = (r, v') \<Longrightarrow> gone \<or> r \<noteq> Inr () \<Longrightarrow>
    work_step Z tr parse s (if gone then s\<lparr>dlq := ms, given_up := given_up s @ [m], dlq_svc := v'\<rparr>
       else s\<lparr>dlq_svc := v'\<rparr>)"
| elsewhere: "outcomes w' = outcomes (svc s) \<Longrightarrow> otel_inject w' = otel_inject (svc s) \<Longrightarrow>
    processed_ids (committed (mem (svc s))) \<subseteq> processed_ids (committed (mem w')) \<Longrightarrow>
    work_step Z tr parse s (s\<lparr>svc := w'\<rparr>)"

section \<open>No event is lost\<close>

definition held :: "work_system \<Rightarrow> queued set" where
  "held s = set (ready s) \<union> fst ` ran (unacked s) \<union> set (delayed s) \<union> set (dlq s)"

definition messages_of :: "work_system \<Rightarrow> queued set" where
  "messages_of s = held s \<union> set (given_up s)"

definition accounted_for :: "zod \<Rightarrow> transport \<Rightarrow> (string \<Rightarrow> jsval option) \<Rightarrow> work_system \<Rightarrow> string \<Rightarrow> bool" where
  "accounted_for Z tr parse s e \<longleftrightarrow> e \<in> processed_ids (committed (mem (svc s))) \<or>
     (\<exists>m \<in> messages_of s. carried Z tr parse m = Some e)"

text \<open>The dead letter consumer has written a log record of this message.\<close>

definition logged :: "(string \<Rightarrow> jsval option) \<Rightarrow> work_system \<Rightarrow> queued \<Rightarrow> bool" where
  "logged parse s m \<longleftrightarrow> (\<exists>t key hs. json_of (dlq_record parse (as_dead t key hs m)) \<in> set (dlq_log (mem (dlq_svc s))))"

definition plain_injector :: "messaging_mem world \<Rightarrow> bool" where
  "plain_injector w \<longleftrightarrow> SCHEMA_VERSION_HEADER \<notin> fst ` set (otel_inject w None)"

text \<open>The event depends on the content and the version header only.\<close>

lemma accepted_event_headers:
  assumes "map_of (headers_of d) SCHEMA_VERSION_HEADER = map_of (headers_of d') SCHEMA_VERSION_HEADER"
  shows "accepted_event Z data d = accepted_event Z data d'"
proof -
  have "delivery_type data d = delivery_type data d'"
    using assms by (simp add: delivery_type_def delivery_version_def readSchemaVersionHeader_def get_prop_def)
  then show ?thesis by (simp only: accepted_event_def)
qed

lemma carried_delivery:
  assumes "tr (body_of parse m) = Some (HandleMessage, data)"
  shows "carried Z tr parse m = map_option (event_string ''eventId'') (accepted_event Z data (as_delivery t m))"
  using accepted_event_headers [of "as_delivery 0 m" "as_delivery t m" Z data] assms
  by (simp add: carried_def as_delivery_def headers_of_def)

text \<open>A retry copy carries the event of the delivery.\<close>

lemma copy_carries:
  assumes "plain_injector w" "retry_scheduled (as_delivery t m) w w'" "tr (body_of parse m) = Some (HandleMessage, data)"
  obtains p where "p \<in> set (new_published w w')" "confirmed_since w w' p"
    "carried Z tr parse (queued_copy (snd p)) = carried Z tr parse m"
proof -
  obtain ch msg where p: "published (mem w') = published (mem w) @ [(ch, msg)]" "confirmed_since w w' (ch, msg)"
    "carries_headers (as_delivery t m) w msg" "m_body msg = JBuf (q_content m)"
    using assms(2) by (auto simp: retry_scheduled_def as_delivery_def)
  have "map_of (m_headers msg) SCHEMA_VERSION_HEADER = map_of (headers_of (as_delivery t m)) SCHEMA_VERSION_HEADER"
    using p(3) assms(1) by (simp add: carries_headers_def plain_injector_def SCHEMA_VERSION_HEADER_def)
  then have "accepted_event Z data (as_delivery 0 (queued_copy msg)) = accepted_event Z data (as_delivery 0 m)"
    by (intro accepted_event_headers) (simp add: as_delivery_def queued_copy_def headers_of_def)
  moreover have "body_of parse (queued_copy msg) = body_of parse m"
    by (simp add: body_of_def queued_copy_def p(4))
  ultimately have "carried Z tr parse (queued_copy msg) = carried Z tr parse m"
    using assms(3) by (simp add: carried_def)
  then show ?thesis using p by (intro that [of "(ch, msg)"]) (simp_all add: new_published_def)
qed


text \<open>A handler settles nothing, or its own delivery, once.\<close>

definition settles_own :: "int \<Rightarrow> messaging_mem world \<Rightarrow> messaging_mem world \<Rightarrow> bool" where
  "settles_own t w w' \<longleftrightarrow> new_settled w w' \<in> {[], [Ack t], [Nack t True], [Nack t False]}"

lemma deliver_settles:
  "settles_own (deliveryTag d) w (deliver Z (data, d) w)"
proof (cases "accepted_event Z data d")
  case (Some ev)
  then show ?thesis
    using delivered [of Z "(data, d)" ev w]
    by (auto simp: settles_own_def new_settled_def handled_def acked_def failure_settled_def unsettled_def
        split: if_splits)
next
  case None
  show ?thesis
  proof (cases "validateEvent Z (delivery_type data d) data")
    case (Inl errs)
    then have "deliver Z (data, d) w = snd (reject_invalid (event_name (delivery_type data d)) data errs d w)"
      by (simp add: deliver_def handleMessage_def Let_def bind_def now_ms_def)
    then show ?thesis
      using wp_reject_invalid [of "event_name (delivery_type data d)" data errs d w]
      by (auto simp: wp_def settles_own_def new_settled_def acked_def quiet_def split: prod.splits sum.splits)
  next
    case (Inr valid)
    with None have "deliver Z (data, d) w = w"
      by (auto simp: accepted_event_def deliver_def handleMessage_def Let_def bind_def now_ms_def
          lift_sum_def throw_def split: if_splits sum.splits)
    then show ?thesis by (simp add: settles_own_def new_settled_def)
  qed
qed

lemma deliver_keeps_processed:
  "processed_ids (committed (mem w)) \<subseteq> processed_ids (committed (mem (deliver Z a w)))"
  using delivered [of Z a _ w] not_delivered [of Z a w]
  by (cases "accepted_event Z (fst a) (snd a)") (auto simp: attempted_def ledgers_def)

text \<open>Where the messages are after a delivery.\<close>

lemma ran_upd_minus: "fst ` ran f - {m} \<subseteq> fst ` ran (f(t := None))" if "f t = Some (m, b)"
  using that by (force simp: ran_def)

lemma ran_upd_other: "fst ` ran f - {m} \<subseteq> fst ` ran (f(t \<mapsto> y))" if "f t = Some (m, b)"
proof -
  have "ran (f(t := None)) \<subseteq> ran (f(t \<mapsto> y))"
  proof
    fix x assume "x \<in> ran (f(t := None))"
    then obtain u where "(f(t := None)) u = Some x" by (auto simp: ran_def)
    then have "(f(t \<mapsto> y)) u = Some x" by (cases "u = t") auto
    then show "x \<in> ran (f(t \<mapsto> y))" by (rule ranI)
  qed
  then show ?thesis using ran_upd_minus [where f = f and t = t, OF that] by blast
qed

lemma messages_of_after:
  assumes "settles_own t (svc s) w'"
  shows "messages_of (after_delivery t m w' copies s) =
    set (ready s) \<union> set (delayed s) \<union> (set (dlq s) \<union> set (given_up s)) \<union> queued_copy ` snd ` set copies \<union>
    fst ` ran (if new_settled (svc s) w' = [] then (unacked s)(t \<mapsto> (m, True)) else (unacked s)(t := None)) \<union>
    (if new_settled (svc s) w' \<in> {[Nack t True], [Nack t False]} then {m} else {})"
proof -
  have copies: "set (map (queued_copy \<circ> snd) copies) = queued_copy ` snd ` set copies"
    by (simp add: image_comp)
  from assms consider "new_settled (svc s) w' = []" | "new_settled (svc s) w' = [Ack t]"
    | "new_settled (svc s) w' = [Nack t True]" | "new_settled (svc s) w' = [Nack t False]"
    by (auto simp: settles_own_def)
  then show ?thesis
    by cases (simp_all add: after_delivery_def messages_of_def held_def copies del: set_map, blast+)
qed

lemma messages_after:
  assumes "unacked s t = Some (m, b)" "settles_own t (svc s) w'"
  shows "messages_of s - {m} \<subseteq> messages_of (after_delivery t m w' copies s)"
    and "queued_copy ` snd ` set copies \<subseteq> messages_of (after_delivery t m w' copies s)"
    and "new_settled (svc s) w' \<noteq> [Ack t] \<Longrightarrow> m \<in> messages_of (after_delivery t m w' copies s)"
proof -
  let ?u = "if new_settled (svc s) w' = [] then (unacked s)(t \<mapsto> (m, True)) else (unacked s)(t := None)"
  have "fst ` ran (unacked s) \<subseteq> fst ` ran ((unacked s)(t \<mapsto> (m, True)))"
  proof
    fix x assume "x \<in> fst ` ran (unacked s)"
    then obtain u b' where u: "unacked s u = Some (x, b')" by (auto simp: ran_def)
    then have "\<exists>b''. ((unacked s)(t \<mapsto> (m, True))) u = Some (x, b'')"
      using assms(1) by (cases "u = t") auto
    then show "x \<in> fst ` ran ((unacked s)(t \<mapsto> (m, True)))"
      by (metis fst_conv image_eqI ranI)
  qed
  then have u: "fst ` ran (unacked s) - {m} \<subseteq> fst ` ran ?u"
    using ran_upd_minus [of "unacked s", OF assms(1)] by auto
  have shape: "R \<union> U \<union> L \<union> D \<union> G - {x} \<subseteq> R \<union> L \<union> (D \<union> G) \<union> C \<union> U' \<union> N" if "U - {x} \<subseteq> U'"
    for R U L D G C U' N and x :: queued
    using that by blast
  show "messages_of s - {m} \<subseteq> messages_of (after_delivery t m w' copies s)"
    unfolding messages_of_after [OF assms(2)] unfolding messages_of_def held_def by (rule shape [OF u])
  show "queued_copy ` snd ` set copies \<subseteq> messages_of (after_delivery t m w' copies s)"
    unfolding messages_of_after [OF assms(2)] by blast
  assume other: "new_settled (svc s) w' \<noteq> [Ack t]"
  show "m \<in> messages_of (after_delivery t m w' copies s)"
  proof (cases "new_settled (svc s) w' = []")
    case True
    have "m \<in> fst ` ran ((unacked s)(t \<mapsto> (m, True)))" by (metis fst_conv fun_upd_same image_eqI ranI)
    with True show ?thesis unfolding messages_of_after [OF assms(2)] by simp
  next
    case False
    with other assms(2) show ?thesis unfolding messages_of_after [OF assms(2)] settles_own_def by auto
  qed
qed

lemma after_delivery_sel:
  assumes "settles_own t (svc s) w'"
  shows "svc (after_delivery t m w' copies s) = w'" "offered (after_delivery t m w' copies s) = offered s"
    "dlq_svc (after_delivery t m w' copies s) = dlq_svc s" "given_up (after_delivery t m w' copies s) = given_up s"
    "dom (unacked (after_delivery t m w' copies s)) \<subseteq> insert t (dom (unacked s))"
  using assms by (auto simp: settles_own_def after_delivery_def Let_def split: if_splits)

lemma handled_keeps:
  assumes inj: "plain_injector (svc s)" and noise: "\<not> unique_noise (svc s)"
    and m: "unacked s t = Some (m, False)" "tr (body_of parse m) = Some (HandleMessage, data)"
    and w': "w' = deliver Z (data, as_delivery t m) (svc s)"
    and copies: "\<And>p. p \<in> set (new_published (svc s) w') \<Longrightarrow> confirmed_since (svc s) w' p \<Longrightarrow> p \<in> set copies"
    and e: "accounted_for Z tr parse s e"
  shows "accounted_for Z tr parse (after_delivery t m w' copies s) e"
proof -
  note own = deliver_settles [of "as_delivery t m" "svc s" Z data, folded w']
  have own: "settles_own t (svc s) w'" using own by (simp add: as_delivery_def)
  note after = messages_after [OF m(1) own] and sel = after_delivery_sel [OF own]
  show ?thesis
  proof (cases "e \<in> processed_ids (committed (mem (svc s)))")
    case True
    then have "e \<in> processed_ids (committed (mem w'))"
      using deliver_keeps_processed [of "svc s" Z "(data, as_delivery t m)"] w' by auto
    then show ?thesis by (simp add: accounted_for_def sel(1))
  next
    case False
    then obtain m0 where m0: "m0 \<in> messages_of s" "carried Z tr parse m0 = Some e"
      using e by (auto simp: accounted_for_def)
    show ?thesis
    proof (cases "m0 \<noteq> m \<or> new_settled (svc s) w' \<noteq> [Ack t]")
      case True
      then have "m0 \<in> messages_of (after_delivery t m w' copies s)"
        using after(1,3) m0(1) by blast
      then show ?thesis using m0(2) by (auto simp: accounted_for_def)
    next
      case False
      then have ack: "new_settled (svc s) w' = [Ack t]" and "carried Z tr parse m = Some e" using m0(2) by auto
      then obtain ev where ev: "accepted_event Z data (as_delivery t m) = Some ev"
        "event_string ''eventId'' ev = e"
        by (auto simp: carried_delivery [where tr = tr and parse = parse and m = m and data = data and t = t, OF m(2)])
      have "e \<in> processed_ids (committed (mem w')) \<or> retry_scheduled (as_delivery t m) (svc s) w'"
        using delivered [of Z "(data, as_delivery t m)" ev "svc s"] ev ack noise
        by (auto simp: w' [symmetric] handled_def unsettled_def acked_def failure_settled_def new_settled_def
            split: if_splits)
      then show ?thesis
      proof
        assume "retry_scheduled (as_delivery t m) (svc s) w'"
        then obtain p where p: "p \<in> set (new_published (svc s) w')" "confirmed_since (svc s) w' p"
          "carried Z tr parse (queued_copy (snd p)) = carried Z tr parse m"
          by (rule copy_carries [where tr = tr and parse = parse and m = m and data = data, OF inj _ m(2)])
        then have "queued_copy (snd p) \<in> messages_of (after_delivery t m w' copies s)"
          using after(2) copies by blast
        then show ?thesis
          using p(3) \<open>carried Z tr parse m = Some e\<close> by (auto simp: accounted_for_def)
      qed (simp add: accounted_for_def sel)
    qed
  qed
qed


lemma deliver_outside:
  "outcomes (deliver Z (data, d) w) = outcomes w \<and> otel_inject (deliver Z (data, d) w) = otel_inject w"
proof (cases "accepted_event Z data d")
  case (Some ev)
  then show ?thesis
    using delivered [of Z "(data, d)" ev w]
    by (auto simp: handled_def acked_def failure_settled_def unsettled_def)
next
  case None
  show ?thesis
  proof (cases "validateEvent Z (delivery_type data d) data")
    case (Inl errs)
    then have "deliver Z (data, d) w = snd (reject_invalid (event_name (delivery_type data d)) data errs d w)"
      by (simp add: deliver_def handleMessage_def Let_def bind_def now_ms_def)
    then show ?thesis
      using wp_reject_invalid [of "event_name (delivery_type data d)" data errs d w]
      by (auto simp: wp_def acked_def quiet_def split: prod.splits sum.splits)
  next
    case (Inr valid)
    with None show ?thesis
      by (auto simp: accepted_event_def deliver_def handleMessage_def Let_def bind_def now_ms_def
          lift_sum_def throw_def split: if_splits sum.splits)
  qed
qed

section \<open>The invariant\<close>

definition work_inv :: "zod \<Rightarrow> transport \<Rightarrow> (string \<Rightarrow> jsval option) \<Rightarrow> work_system \<Rightarrow> bool" where
  "work_inv Z tr parse s \<longleftrightarrow> plain_injector (svc s) \<and> \<not> unique_noise (svc s) \<and>
     (\<forall>e \<in> offered s. accounted_for Z tr parse s e) \<and> (\<forall>m \<in> set (given_up s). logged parse s m) \<and>
     finite (dom (unacked s)) \<and> card (dom (unacked s)) \<le> prefetchCount"

lemma outside_same:
  "outcomes w' = outcomes w \<Longrightarrow> unique_noise w' = unique_noise w"
  "otel_inject w' = otel_inject w \<Longrightarrow> plain_injector w' = plain_injector w"
  by (simp_all add: unique_noise_def outside_errors_def plain_injector_def)

text \<open>The dead letter consumer logs what it gets, whatever the broker answers, and its log only grows.\<close>

lemma dead_letter_logged:
  assumes "handleDlqMessage parse (Some msg) v = (r, v')"
  shows "dlq_log (mem v') = dlq_log (mem v) @ [json_of (dlq_record parse msg)]"
  using assms by (auto simp: handleDlqMessage_def io_defs Let_def split: outcome.splits if_splits)

text \<open>A step that leaves the service alone and keeps the messages keeps the accounts.\<close>

lemma accounted_mono:
  assumes "accounted_for Z tr parse s e" "messages_of s \<subseteq> messages_of s'"
    and "processed_ids (committed (mem (svc s))) \<subseteq> processed_ids (committed (mem (svc s')))"
  shows "accounted_for Z tr parse s' e"
  using assms unfolding accounted_for_def by blast

lemma in_flight_le:
  assumes "finite (dom (unacked s))" "card (dom (unacked s)) \<le> n" "dom f \<subseteq> dom (unacked s)"
  shows "finite (dom f)" "card (dom f) \<le> n"
  using assms card_mono [of "dom (unacked s)" "dom f"] by (auto intro: finite_subset)

lemma work_inv_step:
  assumes "work_step Z tr parse s s'" "work_inv Z tr parse s"
  shows "work_inv Z tr parse s'"
  using assms
proof (induction rule: work_step.induct)
  case (offer s m)
  let ?s = "s\<lparr>ready := ready s @ [m], offered := offered s \<union> set_option (carried Z tr parse m)\<rparr>"
  have "accounted_for Z tr parse ?s e" if "accounted_for Z tr parse s e" for e
    by (rule accounted_mono [OF that]) (auto simp: messages_of_def held_def)
  moreover have "accounted_for Z tr parse ?s e" if "carried Z tr parse m = Some e" for e
    using that by (auto simp: accounted_for_def messages_of_def held_def)
  ultimately show ?case using offer by (auto simp: work_inv_def logged_def)
next
  case (deliver_next s m ms t)
  let ?s = "s\<lparr>ready := ms, unacked := (unacked s)(t \<mapsto> (m, False))\<rparr>"
  have "ran (unacked ?s) = insert (m, False) (ran (unacked s))"
    using deliver_next(2) by (simp add: ran_map_upd)
  then have "accounted_for Z tr parse ?s e" if "accounted_for Z tr parse s e" for e
    by (intro accounted_mono [OF that]) (auto simp: messages_of_def held_def deliver_next(1))
  moreover have "card (dom (unacked ?s)) \<le> prefetchCount"
    using deliver_next by (simp add: work_inv_def card_insert_if)
  ultimately show ?case using deliver_next by (simp add: work_inv_def logged_def)
next
  case (handled s t m data w' copies)
  have w': "w' = deliver Z (data, as_delivery t m) (svc s)"
    using handled(3) by (simp add: deliver_def)
  have own: "settles_own t (svc s) w'"
    using deliver_settles [of "as_delivery t m" "svc s" Z data] by (simp add: w' as_delivery_def)
  note sel = after_delivery_sel [OF own, of m copies]
  have inv: "plain_injector (svc s)" "\<not> unique_noise (svc s)" using handled(6) by (simp_all add: work_inv_def)
  have "dom (unacked (after_delivery t m w' copies s)) \<subseteq> dom (unacked s)"
    using sel(5) handled(1) by auto
  note flight = in_flight_le [OF _ _ this, of prefetchCount]
  have "accounted_for Z tr parse (after_delivery t m w' copies s) e" if "e \<in> offered s" for e
  proof (rule handled_keeps [where s = s and t = t and m = m and w' = w' and Z = Z and parse = parse and data = data and tr = tr,
        OF inv handled(1,2) w'])
    show "p \<in> set copies" if "p \<in> set (new_published (svc s) w')" "confirmed_since (svc s) w' p" for p
      using handled(5) that .
    show "accounted_for Z tr parse s e" using handled(6) that by (simp add: work_inv_def)
  qed
  moreover have "plain_injector w' \<and> \<not> unique_noise w'"
    using deliver_outside [of Z data "as_delivery t m" "svc s"] outside_same inv w' by metis
  ultimately show ?case
    using flight handled(6) by (simp add: work_inv_def sel(1-4) logged_def)
next
  case (unhandled s t m)
  let ?s = "s\<lparr>unacked := (unacked s)(t := None), dlq := dlq s @ [m]\<rparr>"
  have "accounted_for Z tr parse ?s e" if "accounted_for Z tr parse s e" for e
    using ran_upd_minus [of "unacked s", OF unhandled(1)]
    by (intro accounted_mono [OF that]) (auto simp: messages_of_def held_def)
  moreover have "dom (unacked ?s) \<subseteq> dom (unacked s)" by auto
  ultimately show ?case
    using unhandled(3) in_flight_le [of s prefetchCount "unacked ?s"] by (simp add: work_inv_def logged_def)
next
  case (other_handled s t m h data u)
  let ?s = "s\<lparr>unacked := (unacked s)(t := u)\<rparr>"
  have none: "carried Z tr parse m = None" using other_handled(2,3) by (simp add: carried_def)
  have "accounted_for Z tr parse ?s e" if e: "accounted_for Z tr parse s e" for e
  proof -
    have "fst ` ran (unacked s) - {m} \<subseteq> fst ` ran (unacked ?s)"
      using ran_upd_minus [of "unacked s", OF other_handled(1)] ran_upd_other [where f = "unacked s" and y = "(m, True)", OF other_handled(1)]
        other_handled(4) by (cases u) simp_all
    then have "messages_of s - {m} \<subseteq> messages_of ?s" by (auto simp: messages_of_def held_def)
    then show ?thesis using e none unfolding accounted_for_def by auto
  qed
  moreover have "dom (unacked ?s) \<subseteq> dom (unacked s)" using other_handled(1,4) by auto
  ultimately show ?case
    using other_handled(5) in_flight_le [of s prefetchCount "unacked ?s"] by (simp add: work_inv_def logged_def)
next
  case (expired s xs m ys)
  let ?s = "s\<lparr>delayed := xs @ ys, ready := ready s @ [m]\<rparr>"
  have "accounted_for Z tr parse ?s e" if "accounted_for Z tr parse s e" for e
    by (rule accounted_mono [OF that]) (auto simp: messages_of_def held_def expired(1))
  then show ?case using expired by (simp add: work_inv_def logged_def)
next
  case (channel_closed s t m b)
  let ?s = "s\<lparr>unacked := (unacked s)(t := None), ready := m # ready s\<rparr>"
  have "accounted_for Z tr parse ?s e" if "accounted_for Z tr parse s e" for e
    using ran_upd_minus [of "unacked s", OF channel_closed(1)]
    by (intro accounted_mono [OF that]) (auto simp: messages_of_def held_def)
  moreover have "dom (unacked ?s) \<subseteq> dom (unacked s)" by auto
  ultimately show ?case
    using channel_closed(2) in_flight_le [of s prefetchCount "unacked ?s"] by (simp add: work_inv_def logged_def)
next
  case (dead_consumed s m ms t key hs r v' gone)
  let ?s = "if gone then s\<lparr>dlq := ms, given_up := given_up s @ [m], dlq_svc := v'\<rparr> else s\<lparr>dlq_svc := v'\<rparr>"
  have log: "dlq_log (mem v') = dlq_log (mem (dlq_svc s)) @ [json_of (dlq_record parse (as_dead t key hs m))]"
    by (rule dead_letter_logged [OF dead_consumed(2)])
  have "accounted_for Z tr parse ?s e" if "accounted_for Z tr parse s e" for e
    by (rule accounted_mono [OF that]) (auto simp: messages_of_def held_def dead_consumed(1))
  moreover have "logged parse ?s m'" if "logged parse s m' \<or> m' = m" for m'
    using that log by (auto simp: logged_def)
  ultimately show ?case using dead_consumed(4) by (auto simp: work_inv_def)
next
  case (elsewhere w' s)
  have "accounted_for Z tr parse (s\<lparr>svc := w'\<rparr>) e" if "accounted_for Z tr parse s e" for e
    using elsewhere(3) by (intro accounted_mono [OF that]) (auto simp: messages_of_def held_def)
  then show ?case using elsewhere outside_same [of w' "svc s"] by (simp add: work_inv_def logged_def)
qed


interpretation queues: step_system "work_step Z tr parse" "work_inv Z tr parse" for Z tr parse
  by unfold_locales (rule work_inv_step)

section \<open>Properties\<close>

definition work_start :: "messaging_mem world \<Rightarrow> dlq_mem world \<Rightarrow> work_system" where
  "work_start w v = \<lparr>svc = w, ready = [], unacked = Map.empty, delayed = [], dlq = [], dlq_svc = v, given_up = [],
     offered = {}\<rparr>"

text \<open>
  C4: No event is lost. In every schedule of publishes, deliveries, handler runs with whatever failures,
  deliveries without a handler, expiries of retry copies, closed channels, runs of the dead letter consumer and changes
  made elsewhere, an event that was put on the work queue in a message the consumer accepts is processed,
  or a message with it is ready, unsettled, waiting for its retry, dead-lettered, or was taken from the dead letter
  queue; what was taken from there was logged with its body before; and at most ten deliveries are unsettled. Assumed:
  the outside produces no error that reads as a unique violation, and the propagator sets no version header.
\<close>

theorem no_event_lost:
  assumes "(work_step Z tr parse)\<^sup>*\<^sup>* (work_start w v) s" "plain_injector w" "\<not> unique_noise w"
  shows "(\<forall>e \<in> offered s. e \<in> processed_ids (committed (mem (svc s))) \<or>
      (\<exists>m \<in> messages_of s. carried Z tr parse m = Some e)) \<and> (\<forall>m \<in> set (given_up s). logged parse s m) \<and>
      card (dom (unacked s)) \<le> prefetchCount"
proof -
  have "work_inv Z tr parse (work_start w v)"
    using assms(2,3) by (simp add: work_inv_def work_start_def)
  with assms(1) have "work_inv Z tr parse s" by (rule queues.schedule_keeps)
  then show ?thesis by (simp add: work_inv_def accounted_for_def)
qed

text \<open>
  A transport that hands every body to \<open>handleMessage\<close>, a message that was delivered and whose handler has
  not run yet.
\<close>

definition handing_over :: transport where
  "handing_over body = Some (HandleMessage, body)"

definition example_queued :: queued where
  "example_queued = \<lparr>q_content = ''m'', q_headers = None\<rparr>"

definition dlq_start :: "dlq_mem world" where
  "dlq_start = start_world \<lparr>dlq_connection = True, dlq_channel = True, dlq_prefetch = 1,
     dlq_consuming = [q_DLQ QUEUES], dlq_log = [], dlq_spans = [], dlq_metrics = [], dlq_acked = []\<rparr>"

definition one_delivered :: work_system where
  "one_delivered = (work_start (start_world (new_service no_tables)) dlq_start)
     \<lparr>unacked := [1 \<mapsto> (example_queued, False)], offered := {''e''}\<rparr>"

lemma example_carried: "carried accepting_zod handing_over (\<lambda>_. Some example_event) example_queued = Some ''e''"
proof -
  have "accepted_event accepting_zod example_event (as_delivery 0 example_queued) =
      accepted_event accepting_zod example_event example_delivery"
    by (rule accepted_event_headers) (simp add: as_delivery_def example_queued_def example_delivery_def headers_of_def)
  then show ?thesis
    using example_accepted example_strings by (simp add: carried_def handing_over_def body_of_def)
qed

lemma one_delivered_reachable:
  "(work_step accepting_zod handing_over (\<lambda>_. Some example_event))\<^sup>*\<^sup>*
     (work_start (start_world (new_service no_tables)) dlq_start) one_delivered"
proof -
  let ?s = "work_start (start_world (new_service no_tables)) dlq_start" and ?p = "\<lambda>_. Some example_event"
  let ?s1 = "?s\<lparr>ready := [example_queued], offered := {''e''}\<rparr>"
  have "work_step accepting_zod handing_over ?p ?s ?s1"
    using offer [of accepting_zod handing_over ?p ?s example_queued]
    by (simp add: example_carried work_start_def)
  moreover have "work_step accepting_zod handing_over ?p ?s1 one_delivered"
    using deliver_next [of ?s1 example_queued "[]" 1 accepting_zod handing_over ?p]
    by (simp add: work_start_def prefetchCount_def one_delivered_def)
  ultimately show ?thesis by (meson converse_rtranclp_into_rtranclp rtranclp.rtrancl_refl)
qed

theorem no_event_lost_witness:
  "\<exists>m \<in> messages_of one_delivered. carried accepting_zod handing_over (\<lambda>_. Some example_event) m = Some ''e''"
proof -
  have "plain_injector (start_world (new_service no_tables))" "\<not> unique_noise (start_world (new_service no_tables))"
    by (simp_all add: plain_injector_def unique_noise_def outside_errors_def)
  from no_event_lost [OF one_delivered_reachable this] show ?thesis
    by (simp add: one_delivered_def work_start_def new_service_def no_tables_def processed_ids_def)
qed

end
