(* ===== verification/Channel_Sharing.thy ===== *)
theory Channel_Sharing
  imports Amqp_Client
begin

text \<open>
  Concurrent callers of \<open>getChannel\<close> in \<open>apps/messaging/src/reliability/retry-publisher.service.ts\<close>: the
  consumer handles up to ten deliveries at once, and each of them may ask for the channel of its retry
  copy (a relay asks for its own once at a time, which \<open>Amqp_Client\<close> covers). Each step is a turn of the
  event loop: a call up to its first \<open>await\<close>, a stage of a connection attempt, an event of a connection, a
  caller resumed. A connection is named by its number, an attempt by its position. A caller resumes at any
  time after its attempt settled, which allows more orders than the event loop does.
\<close>

section \<open>Callers and attempts\<close>

text \<open>\<open>Opening c\<close>: connected as \<open>c\<close>, its confirm channel not open yet.\<close>

datatype attempt = Dialing | Opening nat | Resolved | Rejected

datatype caller = Waiting nat | Answered "nat option" | Thrown

text \<open>\<open>current\<close> is the attempt whose promise the field \<open>connecting\<close> holds.\<close>

record sharing =
  sh_channel :: "nat option"
  sh_connection :: "nat option"
  current :: "nat option"
  attempts_made :: "attempt list"
  listening :: "nat set"
  connections :: nat
  resets :: nat
  callers :: "nat \<rightharpoonup> caller"

definition no_sharing :: sharing where
  "no_sharing = \<lparr>sh_channel = None, sh_connection = None, current = None, attempts_made = [],
     listening = {}, connections = 0, resets = 0, callers = Map.empty\<rparr>"

definition set_caller :: "nat \<Rightarrow> caller \<Rightarrow> sharing \<Rightarrow> sharing" where
  "set_caller i c s = s\<lparr>callers := (callers s)(i \<mapsto> c)\<rparr>"

definition set_attempt :: "nat \<Rightarrow> attempt \<Rightarrow> sharing \<Rightarrow> sharing" where
  "set_attempt p a s = s\<lparr>attempts_made := (attempts_made s)[p := a]\<rparr>"

text \<open>
  \<open>lost\<close> is one firing of the handler that both the \<open>error\<close> and the \<open>close\<close> event of a connection have, and
  \<open>resets\<close> counts the firings: a connection that is lost usually fires both.
  The code sets \<open>this.channel\<close> before it registers the handlers on \<open>this.connection\<close>, the field and not
  the connection it opened: when the field was reset meanwhile, the attempt throws (\<open>unheard\<close>).
\<close>

inductive share_step :: "sharing \<Rightarrow> sharing \<Rightarrow> bool" where
  cached: "callers s i = None \<Longrightarrow> sh_channel s = Some c \<Longrightarrow> share_step s (set_caller i (Answered (Some c)) s)"
| joined: "callers s i = None \<Longrightarrow> sh_channel s = None \<Longrightarrow> current s = Some p \<Longrightarrow>
    share_step s (set_caller i (Waiting p) s)"
| dialled: "callers s i = None \<Longrightarrow> sh_channel s = None \<Longrightarrow> current s = None \<Longrightarrow>
    share_step s (set_caller i (Waiting (length (attempts_made s)))
      (s\<lparr>current := Some (length (attempts_made s)), attempts_made := attempts_made s @ [Dialing]\<rparr>))"
| connected: "p < length (attempts_made s) \<Longrightarrow> attempts_made s ! p = Dialing \<Longrightarrow>
    share_step s (set_attempt p (Opening (connections s))
      (s\<lparr>sh_connection := Some (connections s), connections := Suc (connections s)\<rparr>))"
| connect_failed: "p < length (attempts_made s) \<Longrightarrow> attempts_made s ! p = Dialing \<Longrightarrow>
    share_step s (set_attempt p Rejected s)"
| opened: "p < length (attempts_made s) \<Longrightarrow> attempts_made s ! p = Opening c \<Longrightarrow>
    sh_connection s = Some d \<Longrightarrow>
    share_step s (set_attempt p Resolved (s\<lparr>sh_channel := Some c, listening := insert d (listening s)\<rparr>))"
| unheard: "p < length (attempts_made s) \<Longrightarrow> attempts_made s ! p = Opening c \<Longrightarrow> sh_connection s = None \<Longrightarrow>
    share_step s (set_attempt p Rejected (s\<lparr>sh_channel := Some c\<rparr>))"
| open_failed: "p < length (attempts_made s) \<Longrightarrow> attempts_made s ! p = Opening c \<Longrightarrow>
    share_step s (set_attempt p Rejected s)"
| lost: "c \<in> listening s \<Longrightarrow>
    share_step s (s\<lparr>sh_channel := None, sh_connection := None, current := None, resets := Suc (resets s)\<rparr>)"
| resumed: "callers s i = Some (Waiting p) \<Longrightarrow> p < length (attempts_made s) \<Longrightarrow> attempts_made s ! p = Resolved \<Longrightarrow>
    share_step s (set_caller i (Answered (sh_channel s)) s)"
| thrown: "callers s i = Some (Waiting p) \<Longrightarrow> p < length (attempts_made s) \<Longrightarrow> attempts_made s ! p = Rejected \<Longrightarrow>
    share_step s (set_caller i Thrown s)"
| left: "callers s i = Some (Answered x) \<or> callers s i = Some Thrown \<Longrightarrow>
    share_step s (s\<lparr>callers := (callers s)(i := None)\<rparr>)"

lemma sharing_sel [simp]:
  "sh_channel (set_caller i c s) = sh_channel s" "sh_connection (set_caller i c s) = sh_connection s"
  "current (set_caller i c s) = current s" "attempts_made (set_caller i c s) = attempts_made s"
  "listening (set_caller i c s) = listening s" "connections (set_caller i c s) = connections s"
  "resets (set_caller i c s) = resets s" "callers (set_caller i c s) = (callers s)(i \<mapsto> c)"
  "sh_channel (set_attempt p a s) = sh_channel s" "sh_connection (set_attempt p a s) = sh_connection s"
  "current (set_attempt p a s) = current s" "attempts_made (set_attempt p a s) = (attempts_made s)[p := a]"
  "listening (set_attempt p a s) = listening s" "connections (set_attempt p a s) = connections s"
  "resets (set_attempt p a s) = resets s" "callers (set_attempt p a s) = callers s"
  by (simp_all add: set_caller_def set_attempt_def)

section \<open>One attempt at a time\<close>

text \<open>How many attempts have connected or may still connect for each connection there is.\<close>

definition pending_dials :: "sharing \<Rightarrow> nat" where
  "pending_dials s = length (filter (\<lambda>a. a = Dialing) (attempts_made s))"

definition share_inv :: "sharing \<Rightarrow> bool" where
  "share_inv s \<longleftrightarrow> length (attempts_made s) \<le> resets s + (if current s = None then 0 else 1) \<and>
     connections s + pending_dials s \<le> length (attempts_made s) \<and>
     (\<forall>p. current s = Some p \<longrightarrow> p < length (attempts_made s)) \<and>
     (\<forall>i p. callers s i = Some (Waiting p) \<longrightarrow> p < length (attempts_made s)) \<and>
     (resets s = 0 \<longrightarrow>
        (\<forall>p < length (attempts_made s). attempts_made s ! p = Resolved \<longrightarrow> sh_channel s \<noteq> None) \<and>
        (\<forall>p c. p < length (attempts_made s) \<longrightarrow> attempts_made s ! p = Opening c \<longrightarrow> sh_connection s \<noteq> None) \<and>
        (sh_channel s \<noteq> None \<longrightarrow> attempts_made s \<noteq> [] \<and> attempts_made s ! 0 = Resolved) \<and>
        (\<forall>i x. callers s i = Some (Answered x) \<longrightarrow> x = sh_channel s \<and> x \<noteq> None))"

lemma share_invI:
  assumes "length (attempts_made s) \<le> resets s + (if current s = None then 0 else 1)"
    and "connections s + pending_dials s \<le> length (attempts_made s)"
    and "\<And>p. current s = Some p \<Longrightarrow> p < length (attempts_made s)"
    and "\<And>i p. callers s i = Some (Waiting p) \<Longrightarrow> p < length (attempts_made s)"
    and "\<And>p. resets s = 0 \<Longrightarrow> p < length (attempts_made s) \<Longrightarrow> attempts_made s ! p = Resolved \<Longrightarrow> sh_channel s \<noteq> None"
    and "\<And>p c. resets s = 0 \<Longrightarrow> p < length (attempts_made s) \<Longrightarrow> attempts_made s ! p = Opening c \<Longrightarrow>
        sh_connection s \<noteq> None"
    and "resets s = 0 \<Longrightarrow> sh_channel s \<noteq> None \<Longrightarrow> attempts_made s \<noteq> [] \<and> attempts_made s ! 0 = Resolved"
    and "\<And>i x. resets s = 0 \<Longrightarrow> callers s i = Some (Answered x) \<Longrightarrow> x = sh_channel s \<and> x \<noteq> None"
  shows "share_inv s"
  using assms unfolding share_inv_def by blast

lemma share_inv_counts: "share_inv s \<Longrightarrow> connections s + pending_dials s \<le> length (attempts_made s)"
  by (simp add: share_inv_def)

lemma pending_update:
  "p < length xs \<Longrightarrow> xs ! p = Dialing \<Longrightarrow> a \<noteq> Dialing \<Longrightarrow>
     Suc (length (filter (\<lambda>a. a = Dialing) (xs[p := a]))) = length (filter (\<lambda>a. a = Dialing) xs)"
proof (induction xs arbitrary: p)
  case (Cons x xs)
  then show ?case by (cases p) auto
qed simp

lemma pending_same:
  "p < length xs \<Longrightarrow> xs ! p \<noteq> Dialing \<Longrightarrow> a \<noteq> Dialing \<Longrightarrow>
     filter (\<lambda>a. a = Dialing) (xs[p := a]) = filter (\<lambda>a. a = Dialing) xs"
proof (induction xs arbitrary: p)
  case (Cons x xs)
  then show ?case by (cases p) auto
qed simp

lemma single_attempt:
  assumes "share_inv s" "resets s = 0" "p < length (attempts_made s)"
  shows "p = 0" "length (attempts_made s) = 1"
  using assms by (auto simp: share_inv_def split: if_splits)

text \<open>
  An attempt that goes on, fails or succeeds: before a connection was lost it is the only one, so that nobody
  has been answered yet.
\<close>

lemma share_inv_attempt:
  assumes inv: "share_inv s" and p: "p < length (attempts_made s)" "attempts_made s ! p \<noteq> Resolved"
    and made: "attempts_made s' = (attempts_made s)[p := a]"
    and same: "current s' = current s" "callers s' = callers s" "resets s' = resets s"
    and dials: "connections s' + pending_dials s' \<le> length (attempts_made s)"
    and connection: "\<And>c. a = Opening c \<Longrightarrow> sh_connection s' \<noteq> None"
    and channel: "resets s = 0 \<Longrightarrow> sh_channel s = None \<Longrightarrow> (sh_channel s' \<noteq> None) = (a = Resolved)"
  shows "share_inv s'"
proof -
  have alone: "attempts_made s' = [a]" "sh_channel s = None" if "resets s = 0"
  proof -
    have "p = 0" "length (attempts_made s) = 1" using single_attempt [OF inv that p(1)] by simp_all
    then show "attempts_made s' = [a]" using made by (cases "attempts_made s") auto
    show "sh_channel s = None" using inv that p \<open>p = 0\<close> by (auto simp: share_inv_def)
  qed
  then have unanswered: "callers s i \<noteq> Some (Answered x)" if "resets s = 0" for i x
    using inv that by (auto simp: share_inv_def)
  show ?thesis
  proof (rule share_invI)
    show "x = sh_channel s' \<and> x \<noteq> None" if "resets s' = 0" "callers s' i = Some (Answered x)" for i x
      using unanswered same that by simp
    show "sh_channel s' \<noteq> None"
      if "resets s' = 0" "q < length (attempts_made s')" "attempts_made s' ! q = Resolved" for q
      using alone that same channel by simp
    show "sh_connection s' \<noteq> None"
      if "resets s' = 0" "q < length (attempts_made s')" "attempts_made s' ! q = Opening c" for q c
      using alone that same connection by simp
    show "attempts_made s' \<noteq> [] \<and> attempts_made s' ! 0 = Resolved"
      if "resets s' = 0" "sh_channel s' \<noteq> None"
      using alone that same channel by simp
  qed (use inv made same dials in \<open>simp_all add: share_inv_def\<close>)
qed

text \<open>A caller that waits for an attempt there is, or is answered with the channel, changes nothing else.\<close>

lemma share_inv_caller:
  assumes "share_inv s"
    and "case c of Waiting p \<Rightarrow> p < length (attempts_made s)
      | Answered x \<Rightarrow> resets s = 0 \<longrightarrow> x = sh_channel s \<and> x \<noteq> None | Thrown \<Rightarrow> True"
  shows "share_inv (set_caller i c s)"
  using assms by (cases c; simp add: share_inv_def pending_dials_def)

lemma share_inv_step: "share_step s s' \<Longrightarrow> share_inv s \<Longrightarrow> share_inv s'"
proof (induction rule: share_step.induct)
  case (dialled s i)
  let ?s = "set_caller i (Waiting (length (attempts_made s)))
      (s\<lparr>current := Some (length (attempts_made s)), attempts_made := attempts_made s @ [Dialing]\<rparr>)"
  note inv = dialled(4)
  have len: "length (attempts_made s) \<le> resets s" "connections s + pending_dials s \<le> length (attempts_made s)"
    and waiting: "\<And>i p. callers s i = Some (Waiting p) \<Longrightarrow> p < length (attempts_made s)"
    and answered: "\<And>i x. resets s = 0 \<Longrightarrow> callers s i = Some (Answered x) \<Longrightarrow> x = sh_channel s \<and> x \<noteq> None"
    using inv dialled(3) by (auto simp: share_inv_def)
  have "x \<noteq> Answered y" if "resets s = 0" "callers s j = Some x" for j x y
    using answered [OF that(1), of j y] that(2) dialled(2) by auto
  moreover have "attempts_made s = []" if "resets s = 0" using len(1) that by simp
  ultimately show ?case
  proof (intro share_invI)
    show "connections ?s + pending_dials ?s \<le> length (attempts_made ?s)"
      using len(2) by (simp add: pending_dials_def)
    show "p < length (attempts_made ?s)" if "callers ?s j = Some (Waiting p)" for j p
      using that waiting by (auto simp: less_Suc_eq split: if_splits)
  qed (use len(1) dialled(2) in \<open>auto split: if_splits\<close>)
next
  case (connected p s)
  then show ?case
    using pending_update [of p "attempts_made s" "Opening (connections s)"] share_inv_counts [of s]
    by - (rule share_inv_attempt [of s p _ "Opening (connections s)"]; simp add: pending_dials_def)
next
  case (connect_failed p s)
  then show ?case
    using pending_update [of p "attempts_made s" Rejected] share_inv_counts [of s]
    by - (rule share_inv_attempt [of s p _ Rejected]; simp add: pending_dials_def)
next
  case (opened p s c d)
  then show ?case
    using pending_same [of p "attempts_made s" Resolved] share_inv_counts [of s]
    by - (rule share_inv_attempt [of s p _ Resolved]; simp add: pending_dials_def)
next
  case (unheard p s c)
  then have "resets s \<noteq> 0" by (auto simp: share_inv_def)
  with unheard show ?case
    using pending_same [of p "attempts_made s" Rejected] share_inv_counts [of s]
    by - (rule share_inv_attempt [of s p _ Rejected]; simp add: pending_dials_def)
next
  case (open_failed p s c)
  then show ?case
    using pending_same [of p "attempts_made s" Rejected] share_inv_counts [of s]
    by - (rule share_inv_attempt [of s p _ Rejected]; simp add: pending_dials_def)
next
  case (cached s i c)
  then show ?case by - (rule share_inv_caller; auto simp: share_inv_def)
next
  case (joined s i p)
  then show ?case by - (rule share_inv_caller; auto simp: share_inv_def)
next
  case (lost c s)
  then show ?case by (simp add: share_inv_def pending_dials_def split: if_splits)
next
  case (resumed s i p)
  then show ?case by - (rule share_inv_caller; auto simp: share_inv_def)
next
  case (thrown s i p)
  then show ?case by - (rule share_inv_caller; simp_all)
next
  case (left s i x)
  then show ?case by (simp add: share_inv_def pending_dials_def)
qed

interpretation channel_users: step_system share_step share_inv
  by unfold_locales (rule share_inv_step)

text \<open>
  C36: Concurrent callers share one connection. However many callers ask for the channel and in whatever
  order the turns run, there is at most one connection attempt, and at most one connection, more than the
  times the \<open>error\<close> and \<open>close\<close> handlers of a connection fired (usually twice for a connection that is lost);
  and as long as none fired every answered caller has got the one channel, never \<open>undefined\<close>.
\<close>

theorem callers_share_channel:
  assumes "share_step\<^sup>*\<^sup>* no_sharing s"
  shows "length (attempts_made s) \<le> resets s + 1 \<and> connections s \<le> resets s + 1 \<and>
    (resets s = 0 \<longrightarrow> (\<forall>i x. callers s i = Some (Answered x) \<longrightarrow> x = sh_channel s \<and> x \<noteq> None))"
proof -
  have "share_inv no_sharing" by (simp add: share_inv_def no_sharing_def pending_dials_def)
  with assms have "share_inv s" by (rule channel_users.schedule_keeps)
  then show ?thesis by (auto simp: share_inv_def split: if_splits)
qed

text \<open>Two callers, one connection: the second joins the attempt of the first and both are answered.\<close>

lemma callers_share_channel_witness:
  "\<exists>s. share_step\<^sup>*\<^sup>* no_sharing s \<and> connections s = 1 \<and> attempts_made s = [Resolved] \<and>
     callers s 0 = Some (Answered (Some 0)) \<and> callers s 1 = Some (Answered (Some 0)) \<and>
     length (attempts_made s) \<le> resets s + 1"
proof -
  define s1 where "s1 = set_caller 0 (Waiting 0) (no_sharing\<lparr>current := Some 0, attempts_made := [Dialing]\<rparr>)"
  define s2 where "s2 = set_caller 1 (Waiting 0) s1"
  define s3 where "s3 = set_attempt 0 (Opening 0) (s2\<lparr>sh_connection := Some 0, connections := 1\<rparr>)"
  define s4 where "s4 = set_attempt 0 Resolved (s3\<lparr>sh_channel := Some 0, listening := {0}\<rparr>)"
  define s5 where "s5 = set_caller 0 (Answered (Some 0)) s4"
  define s6 where "s6 = set_caller 1 (Answered (Some 0)) s5"
  note defs = s1_def s2_def s3_def s4_def s5_def s6_def no_sharing_def
  have "share_step no_sharing s1" using dialled [of no_sharing 0] by (simp add: defs)
  then have "share_step\<^sup>*\<^sup>* no_sharing s1" by (rule r_into_rtranclp)
  moreover have "share_step s1 s2" unfolding s2_def by (rule joined) (simp_all add: defs)
  ultimately have "share_step\<^sup>*\<^sup>* no_sharing s2" by (rule rtranclp.rtrancl_into_rtrancl)
  moreover have "share_step s2 s3" using connected [of 0 s2] by (simp add: defs)
  ultimately have "share_step\<^sup>*\<^sup>* no_sharing s3" by (rule rtranclp.rtrancl_into_rtrancl)
  moreover have "share_step s3 s4" using opened [of 0 s3 0 0] by (simp add: defs)
  ultimately have "share_step\<^sup>*\<^sup>* no_sharing s4" by (rule rtranclp.rtrancl_into_rtrancl)
  moreover have "share_step s4 s5" using resumed [of s4 0 0] by (simp add: defs)
  ultimately have "share_step\<^sup>*\<^sup>* no_sharing s5" by (rule rtranclp.rtrancl_into_rtrancl)
  moreover have "share_step s5 s6" using resumed [of s5 1 0] by (simp add: defs)
  ultimately have "share_step\<^sup>*\<^sup>* no_sharing s6" by (rule rtranclp.rtrancl_into_rtrancl)
  then show ?thesis using callers_share_channel [of s6] by (intro exI [of _ s6]) (simp add: defs)
qed

end
