(* ===== verification/Load_Payloads.thy ===== *)
theory Load_Payloads
  imports Contracts Complex_Main
begin

unbundle bit_operations_syntax

text \<open>
  The events that the k6 load tests publish, \<open>perf/k6/lib/payloads.js\<close>. The draws of \<open>Math.random\<close>,
  real numbers, and the environment of the run are part of the memory of the virtual user.
\<close>

section \<open>A virtual user\<close>

record k6_base =
  random_draw :: "nat \<Rightarrow> real"
  drawn :: nat
  k6_env :: "string \<Rightarrow> string option"

definition math_random :: "('a k6_base_scheme, real) io" where
  "math_random = bind (gets (\<lambda>m. random_draw m (drawn m)))
     (\<lambda>r. andThen (modify (\<lambda>m. m\<lparr>drawn := Suc (drawn m)\<rparr>)) (ret r))"

text \<open>\<open>Math.random\<close> is documented to lie in \<open>[0, 1)\<close>.\<close>

definition random_documented :: "'a k6_base_scheme world \<Rightarrow> bool" where
  "random_documented w \<longleftrightarrow> (\<forall>n. 0 \<le> random_draw (mem w) n \<and> random_draw (mem w) n < 1)"

text \<open>\<open>__ENV.X || d\<close>: an empty variable counts as unset.\<close>

definition env_or :: "string \<Rightarrow> string \<Rightarrow> ('a k6_base_scheme, string) io" where
  "env_or name d = gets (\<lambda>m. case k6_env m name of Some v \<Rightarrow> if v = [] then d else v | None \<Rightarrow> d)"

section \<open>Identifiers and choices\<close>

definition randomElement :: "'b list \<Rightarrow> ('a k6_base_scheme, 'b) io" where
  "randomElement arr = bind math_random (\<lambda>u. ret (arr ! nat \<lfloor>u * real (length arr)\<rfloor>))"

definition hex_digits :: string where
  "hex_digits = ''0123456789abcdef''"

definition id_template :: string where
  "id_template = ''xxxxxxxx-xxxx-4xxx-yxxx-xxxxxxxxxxxx''"

definition id_digit :: "char \<Rightarrow> real \<Rightarrow> char" where
  "id_digit c u = (let r = \<lfloor>u * 16\<rfloor>; v = (if c = CHR ''x'' then r else (r AND 3) OR 8)
     in hex_digits ! nat v)"

fun fill_template :: "string \<Rightarrow> ('a k6_base_scheme, string) io" where
  "fill_template [] = ret []"
| "fill_template (c # cs) =
     (if c = CHR ''x'' \<or> c = CHR ''y''
      then bind math_random (\<lambda>u. bind (fill_template cs) (\<lambda>rest. ret (id_digit c u # rest)))
      else bind (fill_template cs) (\<lambda>rest. ret (c # rest)))"

definition generateId :: "('a k6_base_scheme, string) io" where
  "generateId = fill_template id_template"

section \<open>The events\<close>

definition SUBJECTS :: "string list" where
  "SUBJECTS = [''user.account.created'', ''order.placed'', ''payment.processed'',
     ''inventory.reserved'', ''notification.scheduled'']"

definition PRIORITIES :: "string list" where
  "PRIORITIES = [''low'', ''normal'', ''high'']"

text \<open>\<open>...overrides.payload\<close>: nothing when the overrides have no payload.\<close>

definition override_payload :: "(string \<times> jsval) list \<Rightarrow> (string \<times> jsval) list" where
  "override_payload overrides = props (get_prop ''payload'' (JObj overrides))"

definition load_envelope :: "string \<Rightarrow> string \<Rightarrow> string \<Rightarrow> (string \<times> jsval) list \<Rightarrow>
    (string \<times> jsval) list \<Rightarrow> jsval" where
  "load_envelope version correlationId timestamp payload overrides = JObj (spread
     [(''eventType'', JStr ''CreateMessageEvent''), (''schemaVersion'', JStr version),
      (''correlationId'', JStr correlationId), (''timestamp'', JStr timestamp),
      (''payload'', JObj (spread payload (override_payload overrides)))] overrides)"

definition load_body :: "int \<Rightarrow> string" where
  "load_body now = ''Load test message '' @ show_int now"

definition createMessageV1 :: "(int \<Rightarrow> string) \<Rightarrow> (string \<times> jsval) list \<Rightarrow> ('a k6_base_scheme, jsval) io" where
  "createMessageV1 toISO overrides = bind generateId (\<lambda>correlationId. bind now_ms (\<lambda>t.
     bind (randomElement SUBJECTS) (\<lambda>subject. bind now_ms (\<lambda>now. bind generateId (\<lambda>recipientId.
       ret (load_envelope ''v1'' correlationId (toISO t)
         [(''subject'', JStr subject), (''body'', JStr (load_body now)),
          (''recipientId'', JStr recipientId)] overrides))))))"

definition createMessageV2 :: "(int \<Rightarrow> string) \<Rightarrow> (string \<times> jsval) list \<Rightarrow> ('a k6_base_scheme, jsval) io" where
  "createMessageV2 toISO overrides = bind generateId (\<lambda>correlationId. bind now_ms (\<lambda>t.
     bind (randomElement SUBJECTS) (\<lambda>subject. bind now_ms (\<lambda>now. bind generateId (\<lambda>recipientId.
     bind (env_or ''RUN_ID'' ''local'') (\<lambda>run. bind (randomElement PRIORITIES) (\<lambda>priority.
       ret (load_envelope ''v2'' correlationId (toISO t)
         [(''subject'', JStr subject), (''body'', JStr (load_body now)),
          (''recipientId'', JStr recipientId),
          (''metadata'', JObj [(''tags'', JArr [JStr ''load-test'', JStr (''run-'' @ run)]),
             (''priority'', JStr priority)])] overrides))))))))"

definition createInvalidPayload :: "(int \<Rightarrow> string) \<Rightarrow> ('a k6_base_scheme, jsval) io" where
  "createInvalidPayload toISO = bind generateId (\<lambda>correlationId. bind now_ms (\<lambda>t. ret (JObj
     [(''eventType'', JStr ''CreateMessageEvent''), (''schemaVersion'', JStr ''v2''),
      (''correlationId'', JStr correlationId), (''timestamp'', JStr (toISO t)),
      (''payload'', JObj [(''body'', JStr ''intentionally invalid payload for load test''),
         (''recipientId'', JStr ''not-a-uuid'')])])))"

definition tagged_override :: "string list \<Rightarrow> (string \<times> jsval) list" where
  "tagged_override tags = [(''payload'', JObj [(''tags'', JArr (map JStr tags))])]"

definition createTransientFailurePayload :: "(int \<Rightarrow> string) \<Rightarrow> ('a k6_base_scheme, jsval) io" where
  "createTransientFailurePayload toISO = createMessageV2 toISO (tagged_override [''force-transient-failure''])"

section \<open>Facts\<close>

lemma wp_math_random:
  "wp math_random Q E w = Q (random_draw (mem w) (drawn (mem w))) (w\<lparr>mem := (mem w)\<lparr>drawn := Suc (drawn (mem w))\<rparr>\<rparr>)"
  by (simp add: math_random_def wp_eqs)

lemma random_documented_next:
  "random_documented (w\<lparr>mem := (mem w)\<lparr>drawn := n\<rparr>\<rparr>) = random_documented w"
  by (simp add: random_documented_def)

text \<open>A draw picks an element: the index is never out of range.\<close>

lemma wp_randomElement:
  assumes "random_documented w" "arr \<noteq> []"
  shows "wp (randomElement arr) (\<lambda>x w'. x \<in> set arr \<and> random_documented w') (\<lambda>_ _. False) w"
proof -
  let ?u = "random_draw (mem w) (drawn (mem w))"
  have u: "0 \<le> ?u" "?u < 1" using assms(1) by (simp_all add: random_documented_def)
  then have "?u * real (length arr) < 1 * real (length arr)"
    using assms(2) by (intro mult_strict_right_mono) auto
  then have "nat \<lfloor>?u * real (length arr)\<rfloor> < length arr"
    using u(1) assms(2) by (simp add: nat_less_iff floor_less_iff)
  then show ?thesis
    using assms(1) by (simp add: randomElement_def wp_eqs wp_math_random random_documented_next)
qed


definition fills :: "char \<Rightarrow> char \<Rightarrow> bool" where
  "fills c d \<longleftrightarrow> (if c = CHR ''x'' then d \<in> set hex_digits
     else if c = CHR ''y'' then d \<in> set ''89ab'' else d = c)"

lemma id_digit_fills:
  assumes "0 \<le> u" "u < 1" "c = CHR ''x'' \<or> c = CHR ''y''"
  shows "fills c (id_digit c u)"
proof -
  have "0 \<le> \<lfloor>u * 16\<rfloor>" "\<lfloor>u * 16\<rfloor> < 16"
    using assms(1,2) by (simp_all add: floor_less_iff)
  then obtain n where n: "\<lfloor>u * 16\<rfloor> = int n" "n < 16"
    by (metis nonneg_int_cases of_nat_less_numeral_iff)
  moreover have "[0..<16] = [0, 1, 2, 3, 4, 5, 6, 7, 8, 9, 10, 11, 12, 13, 14, 15 :: nat]"
    by (simp add: upt_rec)
  ultimately have "n \<in> set [0, 1, 2, 3, 4, 5, 6, 7, 8, 9, 10, 11, 12, 13, 14, 15 :: nat]"
    by (metis atLeastLessThan_iff atLeastLessThan_upt zero_le)
  then show ?thesis
    using assms(3) n(1) by (auto simp: fills_def id_digit_def Let_def hex_digits_def)
qed

lemma wp_fill_template:
  fixes w :: "'a k6_base_scheme world"
  assumes "random_documented w"
  shows "wp (fill_template cs) (\<lambda>s w'. list_all2 fills cs s \<and> random_documented w') (\<lambda>_ _. False) w"
  using assms
proof (induction cs arbitrary: w)
  case Nil
  then show ?case by (simp add: wp_eqs)
next
  case (Cons c cs)
  have tail: "wp (bind (fill_template cs) (\<lambda>rest. ret (d # rest)))
      (\<lambda>s w'. list_all2 fills (c # cs) s \<and> random_documented w') (\<lambda>_ _. False) v"
    if "random_documented v" "fills c d" for d and v :: "'a k6_base_scheme world"
    unfolding wp_bind by (rule wp_mono [OF Cons.IH [OF that(1)]]) (use that(2) in \<open>simp_all add: wp_ret\<close>)
  show ?case
  proof (cases "c = CHR ''x'' \<or> c = CHR ''y''")
    case True
    then have "fills c (id_digit c (random_draw (mem w) (drawn (mem w))))"
      using Cons.prems by (intro id_digit_fills) (simp_all add: random_documented_def)
    then show ?thesis
      using True Cons.prems by (auto simp: wp_bind [of math_random] wp_math_random random_documented_next
          intro!: tail)
  next
    case False
    then have "fills c c" by (simp add: fills_def)
    from tail [OF Cons.prems this] False show ?thesis by simp
  qed
qed

text \<open>
  \<open>generateId\<close> yields a UUID of version 4: the template with each \<open>x\<close> replaced by a hexadecimal
  digit and the \<open>y\<close> by one of \<open>8\<close>, \<open>9\<close>, \<open>a\<close>, \<open>b\<close>, all else kept.
\<close>

theorem generateId_uuid:
  assumes "random_documented w"
  shows "wp generateId (\<lambda>s _. list_all2 fills ''xxxxxxxx-xxxx-4xxx-yxxx-xxxxxxxxxxxx'' s) (\<lambda>_ _. False) w"
  unfolding generateId_def id_template_def
  by (rule wp_mono [OF wp_fill_template [OF assms]]) auto


theorem generateId_uuid_witness:
  "\<exists>s. list_all2 fills ''xxxxxxxx-xxxx-4xxx-yxxx-xxxxxxxxxxxx'' s \<and>
     fst (generateId (start_world \<lparr>random_draw = \<lambda>_. 1 / 2, drawn = 0, k6_env = \<lambda>_. None\<rparr>)) = Inr s"
  using generateId_uuid [of "start_world \<lparr>random_draw = \<lambda>_. 1 / 2, drawn = 0, k6_env = \<lambda>_. None\<rparr>"]
  by (auto simp: random_documented_def wp_def split: prod.splits sum.splits)

section \<open>The events and the contracts\<close>

definition contract_rejects :: "zod \<Rightarrow> jsval \<Rightarrow> bool" where
  "contract_rejects Z ev \<longleftrightarrow> (\<forall>t. \<exists>e es. validateEvent Z t ev = Inl (e # es))"

text \<open>Both payload schemas require \<open>content\<close>.\<close>

lemma lacks_content:
  assumes "zod_documented Z" "get_prop ''content'' (get_prop ''payload'' ev) = JUndef"
  shows "contract_rejects Z ev"
proof -
  have "doc Z (ZObject fs) pl = None"
    if "(''content'', ZString 1 None) \<in> set fs" "distinct (map fst fs)" "get_prop ''content'' pl = JUndef"
    for fs pl
    using documented_member [OF _ that(2,1)] that(3) by (cases "doc Z (ZObject fs) pl") fastforce+
  from this [of "[(''subject'', _), (''content'', _), (''recipient'', _)]"]
    this [of "[(''subject'', _), (''content'', _), (''recipient'', _), (''priority'', _), (''metadata'', _)]"]
  have "doc Z createMessageEventV1PayloadSchema (get_prop ''payload'' ev) = None"
    "doc Z createMessageEventV2PayloadSchema (get_prop ''payload'' ev) = None"
    using assms(2)
    unfolding createMessageEventV1PayloadSchema_def createMessageEventV2PayloadSchema_def
    by simp_all
  then have none: "doc Z (EventRegistry t) ev = None" for t
    using v1_valid [of Z ev] v2_valid [of Z ev] by (cases t) (fastforce simp: not_None_eq)+
  have "\<exists>e es. validateEvent Z t ev = Inl (e # es)" for t
  proof (cases "zparse Z (EventRegistry t) ev")
    case (Inl issues)
    then have "issues \<noteq> []" using zparse_invalid [OF assms(1)] by blast
    then show ?thesis by (cases issues) (simp_all add: validateEvent_def Inl)
  next
    case (Inr v)
    then show ?thesis using zparse_valid [OF assms(1)] none by fastforce
  qed
  then show ?thesis by (simp add: contract_rejects_def)
qed

lemma wp_fill_total:
  fixes w :: "'a k6_base_scheme world"
  shows "wp (fill_template cs) (\<lambda>_ _. True) (\<lambda>_ _. False) w"
proof (induction cs arbitrary: w)
  case (Cons c cs)
  have "wp (bind (fill_template cs) (\<lambda>rest. ret (d # rest))) (\<lambda>_ _. True) (\<lambda>_ _. False) v"
    for d and v :: "'a k6_base_scheme world"
    unfolding wp_bind by (rule wp_mono [OF Cons.IH]) (simp_all add: wp_ret)
  then show ?case by (simp add: wp_bind [of math_random] wp_math_random)
qed (simp add: wp_ret)

lemmas wp_generateId = wp_fill_total [of id_template, folded generateId_def]

lemma wp_randomElement_total: "wp (randomElement arr) (\<lambda>_ _. True) (\<lambda>_ _. False) w"
  by (simp add: randomElement_def wp_eqs wp_math_random)

text \<open>The overrides that the scenarios pass: none, or a payload.\<close>

definition plain_overrides :: "(string \<times> jsval) list \<Rightarrow> bool" where
  "plain_overrides overrides \<longleftrightarrow> overrides = [] \<or>
     (\<exists>x. overrides = [(''payload'', x)] \<and> get_prop ''content'' x = JUndef)"

lemma envelope_payload:
  "get_prop ''payload'' (load_envelope v c t p []) = JObj (spread p [])"
  "get_prop ''payload'' (load_envelope v c t p [(''payload'', x)]) = x"
  by (simp_all add: load_envelope_def get_prop_def map_of_spread override_payload_def)

lemma envelope_lacks_content:
  assumes "plain_overrides ov" "map_of p ''content'' = None"
  shows "get_prop ''content'' (get_prop ''payload'' (load_envelope v c t p ov)) = JUndef"
proof (cases "ov = []")
  case True
  then show ?thesis using assms(2) by (simp add: envelope_payload) (simp add: get_prop_def spread_def)
next
  case False
  then show ?thesis using assms(1) by (auto simp: plain_overrides_def envelope_payload)
qed

definition lacks_content_event :: "jsval \<Rightarrow> bool" where
  "lacks_content_event ev \<longleftrightarrow> get_prop ''content'' (get_prop ''payload'' ev) = JUndef"

lemma wp_createMessageV1:
  assumes "\<And>c t s b r. P (load_envelope ''v1'' c t [(''subject'', s), (''body'', b), (''recipientId'', r)] ov)"
  shows "wp (createMessageV1 toISO ov) (\<lambda>ev _. P ev) (\<lambda>_ _. False) w"
  unfolding createMessageV1_def wp_bind wp_now_ms
  by (intro wp_mono [OF wp_generateId] wp_mono [OF wp_randomElement_total]) (auto simp: wp_ret assms)

lemma wp_createMessageV2:
  assumes "\<And>c t s b r m. P (load_envelope ''v2'' c t [(''subject'', s), (''body'', b), (''recipientId'', r), (''metadata'', m)] ov)"
  shows "wp (createMessageV2 toISO ov) (\<lambda>ev _. P ev) (\<lambda>_ _. False) w"
  unfolding createMessageV2_def wp_bind wp_now_ms env_or_def wp_gets
  by (intro wp_mono [OF wp_generateId] wp_mono [OF wp_randomElement_total]) (auto simp: wp_ret assms)


lemma load_event_lacks_content:
  assumes "plain_overrides ov"
  shows "wp (createMessageV1 toISO ov) (\<lambda>ev _. lacks_content_event ev) (\<lambda>_ _. False) w"
    and "wp (createMessageV2 toISO ov) (\<lambda>ev _. lacks_content_event ev) (\<lambda>_ _. False) w"
  by (rule wp_createMessageV1 wp_createMessageV2,
      simp add: lacks_content_event_def envelope_lacks_content [OF assms])+

text \<open>
  C39: No event of the load tests satisfies a contract, although the file says that they match the schemas:
  their payload has \<open>body\<close> where both versions require \<open>content\<close>. An event with such a payload is
  refused whatever its other members are, under both registered event types.
\<close>

theorem load_events_rejected:
  assumes "zod_documented Z" "plain_overrides overrides" "get_prop ''payload'' sent = get_prop ''payload'' ev"
    and "fst (createMessageV1 toISO overrides w) = Inr ev \<or> fst (createMessageV2 toISO overrides w) = Inr ev"
  shows "contract_rejects Z sent"
proof -
  have "lacks_content_event ev"
    using assms(4) wp_result [OF load_event_lacks_content(1) [OF assms(2)]]
      wp_result [OF load_event_lacks_content(2) [OF assms(2)]]
    by (metis prod.collapse)
  then show ?thesis
    using assms(1,3) by (intro lacks_content) (simp_all add: lacks_content_event_def)
qed

definition sample_user :: k6_base where
  "sample_user = \<lparr>random_draw = \<lambda>_. 1 / 2, drawn = 0, k6_env = \<lambda>_. None\<rparr>"

theorem load_events_rejected_witness:
  "\<exists>ev. fst (createMessageV2 show_int [] (start_world sample_user)) = Inr ev \<and> contract_rejects sample_zod ev"
proof -
  obtain ev where ev: "fst (createMessageV2 show_int [] (start_world sample_user)) = Inr ev"
    using load_event_lacks_content(2) [of "[]" show_int "start_world sample_user"]
    by (auto simp: plain_overrides_def wp_def split: prod.splits sum.splits)
  with load_events_rejected [OF sample_zod_documented _ refl, of "[]" show_int "start_world sample_user" ev]
  show ?thesis by (auto simp: plain_overrides_def)
qed

text \<open>
  A payload override replaces the payload instead of adding to it, since the overrides are spread
  over the whole event afterwards: the event of \<open>createTransientFailurePayload\<close>, said to pass validation,
  has a payload with the tags only, without subject, body, recipient and metadata.
\<close>

theorem override_replaces_payload:
  "wp (createTransientFailurePayload toISO)
     (\<lambda>ev _. get_prop ''payload'' ev = JObj [(''tags'', JArr [JStr ''force-transient-failure''])]) (\<lambda>_ _. False) w"
  unfolding createTransientFailurePayload_def tagged_override_def
  by (rule wp_createMessageV2) (simp add: envelope_payload)

end
