(* ===== verification/Load_Tests.thy ===== *)
theory Load_Tests
  imports Memory_Orders Load_Payloads "HOL-Library.Sublist"
begin

text \<open>
  The k6 load tests: \<open>perf/k6/lib/metrics.js\<close>, \<open>perf/k6/lib/checks.js\<close> and the scenarios of
  \<open>perf/k6/scenarios\<close>. The k6 runtime is not under \<open>src\<close>: what an HTTP request answers is a parameter of
  the world, and what a script hands to k6 (samples, checks, requests) is recorded in order.
\<close>

section \<open>Metrics\<close>

datatype k6_metric = EventsPublished | EventsAccepted | EventsRejected | EventsFailed
  | GatewayLatency | HealthLatency | E2eDeliveryTime | E2eDeliveryRate
  | OutboxPendingGauge | OutboxBacklogGrowth | RetryRate | DlqTotal | IdempotencyHits | ConfirmFailures
  | RelayThroughput | RelayLatencyP99

datatype k6_kind = K6Counter | K6Gauge | K6Rate | K6Trend bool

text \<open>Kind and name of each metric; a trend says whether its values are times.\<close>

fun k6_declared :: "k6_metric \<Rightarrow> k6_kind \<times> string" where
  "k6_declared EventsPublished = (K6Counter, ''cdmp_events_published'')"
| "k6_declared EventsAccepted = (K6Counter, ''cdmp_events_accepted'')"
| "k6_declared EventsRejected = (K6Counter, ''cdmp_events_rejected'')"
| "k6_declared EventsFailed = (K6Counter, ''cdmp_events_failed'')"
| "k6_declared GatewayLatency = (K6Trend True, ''cdmp_gateway_latency_ms'')"
| "k6_declared HealthLatency = (K6Trend True, ''cdmp_health_latency_ms'')"
| "k6_declared E2eDeliveryTime = (K6Trend True, ''cdmp_e2e_delivery_ms'')"
| "k6_declared E2eDeliveryRate = (K6Rate, ''cdmp_e2e_delivery_success'')"
| "k6_declared OutboxPendingGauge = (K6Gauge, ''cdmp_outbox_pending_current'')"
| "k6_declared OutboxBacklogGrowth = (K6Trend False, ''cdmp_outbox_backlog_growth_rate'')"
| "k6_declared RetryRate = (K6Trend False, ''cdmp_retry_rate'')"
| "k6_declared DlqTotal = (K6Counter, ''cdmp_dlq_events_observed'')"
| "k6_declared IdempotencyHits = (K6Counter, ''cdmp_idempotency_duplicates'')"
| "k6_declared ConfirmFailures = (K6Counter, ''cdmp_confirm_failures_observed'')"
| "k6_declared RelayThroughput = (K6Gauge, ''cdmp_relay_throughput_per_sec'')"
| "k6_declared RelayLatencyP99 = (K6Gauge, ''cdmp_relay_latency_p99_ms'')"

section \<open>Numbers\<close>

text \<open>A number of a script: \<open>NaN\<close> or a real, rounding and the infinities left out.\<close>

datatype number = NaN | Num real

fun num_less :: "number \<Rightarrow> number \<Rightarrow> bool" where
  "num_less (Num a) (Num b) = (a < b)"
| "num_less _ _ = False"

text \<open>\<open>n || 0\<close> on a number or \<open>null\<close>, and a comparison in which \<open>null\<close> counts as 0.\<close>

fun or_zero :: "number option \<Rightarrow> real" where
  "or_zero (Some (Num a)) = a"
| "or_zero _ = 0"

definition null_greater :: "number option \<Rightarrow> real \<Rightarrow> bool" where
  "null_greater v x = num_less (Num x) (case v of None \<Rightarrow> Num 0 | Some n \<Rightarrow> n)"

text \<open>\<open>parseFloat\<close>: the longest decimal numeral at the start of the text.\<close>

definition split_sign :: "string \<Rightarrow> bool \<times> string" where
  "split_sign s = (case s of c # r \<Rightarrow> if c = CHR ''-'' then (True, r) else if c = CHR ''+'' then (False, r) else (False, s)
     | [] \<Rightarrow> (False, []))"

definition exponent_of :: "string \<Rightarrow> int" where
  "exponent_of s = (case s of
       c # r \<Rightarrow> if c = CHR ''e'' \<or> c = CHR ''E''
         then (let (neg, t) = split_sign r; e = digits_value (takeWhile is_digit t) in if neg then - e else e)
         else 0
     | [] \<Rightarrow> 0)"

definition js_parseFloat :: "string \<Rightarrow> number" where
  "js_parseFloat s =
     (let (neg, t) = split_sign (dropWhile is_js_space s);
          ds = takeWhile is_digit t; rest = dropWhile is_digit t;
          fs = (case rest of c # r \<Rightarrow> if c = CHR ''.'' then takeWhile is_digit r else [] | [] \<Rightarrow> []);
          tail = (case rest of c # r \<Rightarrow> if c = CHR ''.'' then dropWhile is_digit r else rest | [] \<Rightarrow> []);
          m = real_of_int (digits_value (ds @ fs)) * 10 powi (exponent_of tail - int (length fs))
      in if ds @ fs = [] then NaN else Num (if neg then - m else m))"

section \<open>The memory of a virtual user\<close>

text \<open>
  An answer: the status, 0 when the request failed, and what \<open>JSON.parse\<close> makes of the body, \<open>None\<close> when
  it throws.
\<close>

record k6_response =
  res_status :: int
  res_json :: "jsval option"

record k6_request =
  req_method :: string
  req_url :: string
  req_body :: "jsval option"
  req_headers :: labels

text \<open>The variables that the scenario files declare at module level.\<close>

record module_vars =
  iterationCount :: int
  saturationLevel :: "number option"
  saturationTime :: "int option"
  previousPending :: real
  peakPending :: real
  peakTime :: "int option"
  drainStartPending :: "real option"
  lastRetryCount :: real
  throughputSamples :: "string \<Rightarrow> real list"
  fencingSamples :: "string \<Rightarrow> real list"

record k6_user = k6_base +
  answers :: "nat \<Rightarrow> k6_request \<Rightarrow> k6_response"
  requests :: "k6_request list"
  samples :: "(k6_metric \<times> number \<times> labels) list"
  check_results :: "(string \<times> bool) list"
  warnings :: "string list"
  vars :: module_vars

type_synonym 'a k6 = "(k6_user, 'a) io"

definition new_vars :: module_vars where
  "new_vars = \<lparr>iterationCount = 0, saturationLevel = None, saturationTime = None, previousPending = 0,
     peakPending = 0, peakTime = None, drainStartPending = None, lastRetryCount = 0,
     throughputSamples = \<lambda>_. [], fencingSamples = \<lambda>_. []\<rparr>"

definition k6_http :: "k6_request \<Rightarrow> k6_response k6" where
  "k6_http r = (\<lambda>w. (Inr (answers (mem w) (calls w) r),
     w\<lparr>calls := Suc (calls w), mem := (mem w)\<lparr>requests := requests (mem w) @ [r]\<rparr>\<rparr>))"

definition add_sample :: "k6_metric \<Rightarrow> number \<Rightarrow> labels \<Rightarrow> unit k6" where
  "add_sample m v ls = modify (\<lambda>u. u\<lparr>samples := samples u @ [(m, v, ls)]\<rparr>)"

definition k6_check :: "(string \<times> bool) list \<Rightarrow> bool k6" where
  "k6_check cs = andThen (modify (\<lambda>u. u\<lparr>check_results := check_results u @ cs\<rparr>)) (ret (\<forall>(_, ok) \<in> set cs. ok))"

definition warn :: "string \<Rightarrow> unit k6" where
  "warn t = modify (\<lambda>u. u\<lparr>warnings := warnings u @ [t]\<rparr>)"

definition set_vars :: "(module_vars \<Rightarrow> module_vars) \<Rightarrow> unit k6" where
  "set_vars f = modify (\<lambda>u. u\<lparr>vars := f (vars u)\<rparr>)"

section \<open>Queries\<close>

text \<open>The PromQL expressions of the scripts, and the text that they are.\<close>

datatype promql = Series string labels | Increase promql string | RateOf promql string
  | Quantile string promql | Quotient promql promql

fun promql_text :: "promql \<Rightarrow> string" where
  "promql_text (Series n ls) = n @ (if ls = [] then [] else ''{'' @
     join_with '','' (map (\<lambda>(k, v). k @ ''='' @ [char_of (34 :: nat)] @ v @ [char_of (34 :: nat)]) ls) @ ''}'')"
| "promql_text (Increase q d) = ''increase('' @ promql_text q @ ''['' @ d @ ''])''"
| "promql_text (RateOf q d) = ''rate('' @ promql_text q @ ''['' @ d @ ''])''"
| "promql_text (Quantile p q) = ''histogram_quantile('' @ p @ '', '' @ promql_text q @ '')''"
| "promql_text (Quotient p q) = promql_text p @ '' / '' @ promql_text q"

fun promql_series :: "promql \<Rightarrow> (string \<times> labels) list" where
  "promql_series (Series n ls) = [(n, ls)]"
| "promql_series (Increase q _) = promql_series q"
| "promql_series (RateOf q _) = promql_series q"
| "promql_series (Quantile _ q) = promql_series q"
| "promql_series (Quotient p q) = promql_series p @ promql_series q"

definition uri_unreserved :: "char \<Rightarrow> bool" where
  "uri_unreserved c \<longleftrightarrow> (let n = (of_char c :: nat) in
     (48 \<le> n \<and> n \<le> 57) \<or> (65 \<le> n \<and> n \<le> 90) \<or> (97 \<le> n \<and> n \<le> 122) \<or> n \<in> {33, 39, 40, 41, 42, 45, 46, 95, 126})"

text \<open>\<open>encodeURIComponent\<close> on ASCII text.\<close>

definition encodeURIComponent :: "string \<Rightarrow> string" where
  "encodeURIComponent s = concat (map (\<lambda>c. if uri_unreserved c then [c]
     else (let n = (of_char c :: nat); h = ''0123456789ABCDEF'' in [CHR ''%'', h ! (n div 16), h ! (n mod 16)])) s)"

section \<open>Shared checks\<close>

definition base_url :: "string k6" where
  "base_url = env_or ''BASE_URL'' ''http://localhost:3000''"

definition prom_url :: "string k6" where
  "prom_url = env_or ''PROMETHEUS_URL'' ''http://localhost:9090''"

definition http_get :: "string \<Rightarrow> k6_response k6" where
  "http_get url = k6_http \<lparr>req_method = ''GET'', req_url = url, req_body = None, req_headers = []\<rparr>"

definition http_post :: "string \<Rightarrow> jsval \<Rightarrow> labels \<Rightarrow> k6_response k6" where
  "http_post url body headers = k6_http \<lparr>req_method = ''POST'', req_url = url, req_body = Some (json_of body),
     req_headers = headers\<rparr>"

text \<open>\<open>JSON.parse(r.body).eventId !== undefined\<close>, \<open>false\<close> when that throws.\<close>

definition has_eventId :: "k6_response \<Rightarrow> bool" where
  "has_eventId r \<longleftrightarrow> (case res_json r of
       Some v \<Rightarrow> v \<noteq> JNull \<and> get_prop ''eventId'' v \<noteq> JUndef
     | None \<Rightarrow> False)"

definition status_counter :: "int \<Rightarrow> k6_metric" where
  "status_counter s = (if s = 202 then EventsAccepted else if s \<ge> 400 \<and> s < 500 then EventsRejected
     else EventsFailed)"

definition publishEvent :: "jsval \<Rightarrow> string \<Rightarrow> (k6_response \<times> bool) k6" where
  "publishEvent payload scenario = bind now_ms (\<lambda>start. bind base_url (\<lambda>base.
     bind (http_post (base @ ''/api/messages'') payload
        [(''Content-Type'', ''application/json''), (''x-scenario'', scenario)]) (\<lambda>res.
     bind now_ms (\<lambda>now.
     andThen (add_sample GatewayLatency (Num (real_of_int (now - start))) [(''scenario'', scenario)])
     (bind (k6_check [(''gateway status is 202'', res_status res = 202),
         (''gateway response has eventId'', has_eventId res)]) (\<lambda>passed.
     andThen (add_sample (status_counter (res_status res)) (Num 1) [(''scenario'', scenario)])
       (ret (res, passed))))))))"

text \<open>
  \<open>result[0].value[1]\<close> of a Prometheus answer: \<open>None\<close> when the chain ends in \<open>null\<close>, \<open>undefined\<close>, an empty
  array or an error.
\<close>

definition first_value :: "jsval \<Rightarrow> jsval option" where
  "first_value data = (case get_prop ''result'' (get_prop ''data'' data) of
       JArr (r # _) \<Rightarrow> (case get_prop ''value'' r of
           JUndef \<Rightarrow> None
         | JNull \<Rightarrow> None
         | JArr vs \<Rightarrow> Some (if 1 < length vs then vs ! 1 else JUndef)
         | JStr s \<Rightarrow> Some (if 1 < length s then JStr [s ! 1] else JUndef)
         | v \<Rightarrow> Some (get_prop ''1'' v))
     | _ \<Rightarrow> None)"

definition query_request :: "string \<Rightarrow> promql \<Rightarrow> k6_request" where
  "query_request url q = \<lparr>req_method = ''GET'',
     req_url = url @ ''/api/v1/query?query='' @ encodeURIComponent (promql_text q),
     req_body = None, req_headers = []\<rparr>"

definition query_value :: "k6_response \<Rightarrow> number option" where
  "query_value res = (if res_status res \<noteq> 200 then None
     else case res_json res of
       None \<Rightarrow> None
     | Some data \<Rightarrow> map_option (\<lambda>v. js_parseFloat (js_String v)) (first_value data))"

definition queryPrometheus :: "promql \<Rightarrow> number option k6" where
  "queryPrometheus q = bind prom_url (\<lambda>url. bind (k6_http (query_request url q)) (\<lambda>res. ret (query_value res)))"

record snapshot =
  snap_pending :: "number option"
  snap_dlq :: "number option"
  snap_relay :: "number option"
  snap_p99 :: "number option"
  snap_confirms :: "number option"

definition pending_query :: promql where
  "pending_query = Series ''outbox_pending_events'' [(''source'', ''gateway'')]"

definition relay_query :: promql where
  "relay_query = RateOf (Series ''outbox_published_total'' [(''source'', ''gateway'')]) ''30s''"

definition snapshot_queries :: "promql list" where
  "snapshot_queries = [pending_query, Increase (Series ''dlq_messages_total'' []) ''1m'', relay_query,
     Quantile ''0.99'' (RateOf (Series ''outbox_relay_latency_ms_bucket'' []) ''30s''),
     Increase (Series ''publisher_confirm_failures_total'' []) ''1m'']"

text \<open>\<open>relayLatencyP99\<close> is not among the names that \<open>checks.js\<close> imports: reading it throws.\<close>

definition add_if :: "number option \<Rightarrow> (number \<Rightarrow> unit k6) \<Rightarrow> unit k6" where
  "add_if v f = (case v of None \<Rightarrow> ret () | Some n \<Rightarrow> f n)"

definition not_imported :: "string \<Rightarrow> 'a k6" where
  "not_imported name = throw (JErr ''ReferenceError'' [(''message'', JStr (name @ '' is not defined''))])"

definition snapshotSystemMetrics :: "string \<Rightarrow> snapshot k6" where
  "snapshotSystemMetrics scenario =
     bind (queryPrometheus (snapshot_queries ! 0)) (\<lambda>pending.
     bind (queryPrometheus (snapshot_queries ! 1)) (\<lambda>dlq.
     bind (queryPrometheus (snapshot_queries ! 2)) (\<lambda>relay.
     bind (queryPrometheus (snapshot_queries ! 3)) (\<lambda>p99.
     bind (queryPrometheus (snapshot_queries ! 4)) (\<lambda>confirms.
     andThen (add_if pending (\<lambda>n. add_sample OutboxPendingGauge n [(''scenario'', scenario)]))
     (andThen (when_do (null_greater dlq 0) (add_if dlq (\<lambda>n. add_sample DlqTotal n [(''scenario'', scenario)])))
     (andThen (add_if p99 (\<lambda>_. not_imported ''relayLatencyP99''))
       (ret \<lparr>snap_pending = pending, snap_dlq = dlq, snap_relay = relay, snap_p99 = p99,
          snap_confirms = confirms\<rparr>))))))))"

definition dlq_depth_query :: promql where
  "dlq_depth_query = Series ''rabbitmq_queue_messages'' [(''queue'', ''messaging.dlq'')]"

definition assertSystemHealthy :: "unit k6" where
  "assertSystemHealthy = bind base_url (\<lambda>base.
     bind (http_get (base @ ''/health'')) (\<lambda>health.
     andThen (k6_check [(''system health check passes'', res_status health = 200)])
     (bind (queryPrometheus pending_query) (\<lambda>pending.
     andThen (k6_check [(''outbox is not already backed up'',
        case pending of None \<Rightarrow> True | Some n \<Rightarrow> num_less n (Num 50))])
     (bind (queryPrometheus dlq_depth_query) (\<lambda>dlq.
     andThen (k6_check [(''DLQ is empty before test'', case dlq of None \<Rightarrow> True | Some n \<Rightarrow> n = Num 0)])
       (ret ())))))))"

text \<open>The setup of every scenario but the fourth: the check, then the start time for the teardown.\<close>

definition k6_setup :: "int k6" where
  "k6_setup = andThen assertSystemHealthy now_ms"

section \<open>The scenarios\<close>

text \<open>
  One iteration of each scenario. \<open>sleep\<close> only spends a draw. The name of the running scenario is read from
  the environment of the whole run. Lines that only log numbers are left out, and so are the timeouts and
  tags of requests; a warning with numbers in it is recorded by its heading.
\<close>

definition think :: "unit k6" where
  "think = andThen math_random (ret ())"

definition scenario_name :: "string option k6" where
  "scenario_name = gets (\<lambda>u. k6_env u ''K6_SCENARIO_NAME'')"

definition publish_load :: "(int \<Rightarrow> string) \<Rightarrow> (string \<times> jsval) list \<Rightarrow> string \<Rightarrow> labels \<Rightarrow> unit k6" where
  "publish_load toISO overrides scenario ls = bind (createMessageV2 toISO overrides) (\<lambda>ev.
     andThen (publishEvent ev scenario) (add_sample EventsPublished (Num 1) ls))"

text \<open>\<open>01-baseline-throughput.js\<close>.\<close>

definition baseline_iteration :: "(int \<Rightarrow> string) \<Rightarrow> unit k6" where
  "baseline_iteration toISO = bind (env_or ''K6_SCENARIO_NAME'' ''baseline'') (\<lambda>scenario.
     andThen (publish_load toISO [] scenario [(''scenario'', scenario)])
     (bind math_random (\<lambda>u.
     andThen (when_do (u < 0.1) (andThen (snapshotSystemMetrics scenario) (ret ()))) think)))"

definition baseline_teardown :: "unit k6" where
  "baseline_teardown = bind (snapshotSystemMetrics ''teardown'') (\<lambda>m.
     andThen (when_do (null_greater (snap_pending m) 200) (warn ''[01-baseline] WARNING: outbox backlog > 200 at teardown. Relay may not drain within 60s.''))
       (when_do (null_greater (snap_dlq m) 0) (warn ''[01-baseline] FAILURE: DLQ is non-empty. Investigate with RB-001.'')))"

text \<open>\<open>02-ramp-to-peak.js\<close>; \<open>saturationLevel === null\<close> also after a query that answered nothing.\<close>

definition note_saturation :: "real \<Rightarrow> unit k6" where
  "note_saturation currentPending = bind (gets (saturationLevel \<circ> vars)) (\<lambda>level.
     when_do (currentPending > 200 \<and> level = None)
       (bind (queryPrometheus (RateOf (Series ''cdmp_events_published'' []) ''30s'')) (\<lambda>currentRate.
        bind now_ms (\<lambda>now.
        andThen (set_vars (\<lambda>v. v\<lparr>saturationLevel := currentRate, saturationTime := Some now\<rparr>))
          (warn ''[02-ramp] SATURATION DETECTED'')))))"

definition ramp_iteration :: "(int \<Rightarrow> string) \<Rightarrow> unit k6" where
  "ramp_iteration toISO = andThen (set_vars (\<lambda>v. v\<lparr>iterationCount := iterationCount v + 1\<rparr>))
     (andThen (publish_load toISO [] ''ramp'' [])
     (andThen (bind (gets (iterationCount \<circ> vars)) (\<lambda>n. when_do (n mod 50 = 0)
        (bind (snapshotSystemMetrics ''ramp'') (\<lambda>m. let currentPending = or_zero (snap_pending m) in
         bind (gets (previousPending \<circ> vars)) (\<lambda>prev.
         andThen (add_sample OutboxBacklogGrowth (Num (currentPending - prev)) [])
         (andThen (set_vars (\<lambda>v. v\<lparr>previousPending := currentPending\<rparr>))
           (note_saturation currentPending)))))))
     think))"

text \<open>\<open>03-outbox-backlog.js\<close>.\<close>

definition OVERLOAD_RATE :: int where
  "OVERLOAD_RATE = 600"

definition RECOVERY_RATE :: int where
  "RECOVERY_RATE = 100"

definition name_includes :: "string option \<Rightarrow> string \<Rightarrow> bool" where
  "name_includes name s \<longleftrightarrow> (case name of Some n \<Rightarrow> sublist s n | None \<Rightarrow> False)"

definition backlog_phase :: "string option \<Rightarrow> string" where
  "backlog_phase name = (if name_includes name ''drain'' then ''drain''
     else if name_includes name ''recovery'' then ''recovery'' else ''overload'')"

definition backlog_drain :: "unit k6" where
  "backlog_drain = bind (snapshotSystemMetrics ''drain'') (\<lambda>m. let pending = or_zero (snap_pending m) in
     andThen (add_sample OutboxPendingGauge (Num pending) [(''phase'', ''drain'')])
       (set_vars (\<lambda>v. if drainStartPending v = None \<and> pending > 0
          then v\<lparr>drainStartPending := Some pending\<rparr> else v)))"

definition backlog_sample :: "string \<Rightarrow> unit k6" where
  "backlog_sample phase = bind (snapshotSystemMetrics phase) (\<lambda>m. let pending = or_zero (snap_pending m) in
     andThen (add_sample OutboxPendingGauge (Num pending) [(''phase'', phase)])
     (andThen (add_sample OutboxBacklogGrowth (Num pending) [(''phase'', phase)])
     (bind now_ms (\<lambda>now. set_vars (\<lambda>v. if phase = ''overload'' \<and> pending > peakPending v
        then v\<lparr>peakPending := pending, peakTime := Some now\<rparr> else v)))))"

definition backlog_iteration :: "(int \<Rightarrow> string) \<Rightarrow> unit k6" where
  "backlog_iteration toISO = bind scenario_name (\<lambda>name. let phase = backlog_phase name in
     if phase = ''drain'' then backlog_drain
     else andThen (publish_load toISO [] phase [(''phase'', phase)])
       (bind math_random (\<lambda>u. andThen (when_do (u < 0.05) (backlog_sample phase)) think)))"


text \<open>
  \<open>04-retry-amplification.js\<close>. The hook for failing consumers, \<open>setup_consumer_failure\<close>, is never called.
\<close>

definition retry_phase :: "string option \<Rightarrow> string" where
  "retry_phase name = (case name of None \<Rightarrow> ''baseline''
     | Some n \<Rightarrow> let s = filter (\<lambda>c. (97 \<le> (of_char c :: nat) \<and> (of_char c :: nat) \<le> 122) \<or> c = CHR ''_'') n
               in if s = [] then ''baseline'' else s)"

definition retry_overrides :: "string \<Rightarrow> (string \<times> jsval) list" where
  "retry_overrides phase = (if phase = ''consumer_failure''
     then tagged_override [''force-transient-failure'', ''load-test''] else tagged_override [''load-test''])"

definition retry_queries :: "promql list" where
  "retry_queries = [Series ''retry_count_total'' [],
     Increase (Series ''idempotency_duplicates_prevented_total'' []) ''30s'',
     Increase (Series ''messages_redelivered_total'' []) ''30s'',
     Quotient (RateOf (Series ''retry_count_total'' []) ''30s'') (RateOf (Series ''messages_processed_total'' []) ''30s'')]"

definition retry_snapshot :: "string \<Rightarrow> int \<Rightarrow> unit k6" where
  "retry_snapshot phase n = bind (snapshotSystemMetrics phase) (\<lambda>m.
     bind (queryPrometheus (retry_queries ! 0)) (\<lambda>total. let currentRetryTotal = or_zero total in
     bind (gets (lastRetryCount \<circ> vars)) (\<lambda>last.
     andThen (set_vars (\<lambda>v. v\<lparr>lastRetryCount := currentRetryTotal\<rparr>))
     (andThen (add_sample RetryRate (Num (currentRetryTotal - last)) [(''phase'', phase)])
     (bind (queryPrometheus (retry_queries ! 1)) (\<lambda>hits. let idemHits = or_zero hits in
     bind (queryPrometheus (retry_queries ! 2)) (\<lambda>redeliveries.
     andThen (when_do (idemHits > 0) (add_sample IdempotencyHits (Num idemHits) [(''phase'', phase)]))
       (when_do (phase = ''consumer_failure'' \<and> n mod 300 = 0)
          (andThen (queryPrometheus (retry_queries ! 3)) (ret ()))))))))))"

definition retry_iteration :: "(int \<Rightarrow> string) \<Rightarrow> unit k6" where
  "retry_iteration toISO = andThen (set_vars (\<lambda>v. v\<lparr>iterationCount := iterationCount v + 1\<rparr>))
     (bind scenario_name (\<lambda>name. let phase = retry_phase name in
      andThen (publish_load toISO (retry_overrides phase) phase [(''phase'', phase)])
      (bind (gets (iterationCount \<circ> vars)) (\<lambda>n.
       andThen (when_do (n mod 30 = 0) (retry_snapshot phase n)) think))))"

definition retry_setup :: "int k6" where
  "retry_setup = andThen assertSystemHealthy (bind base_url (\<lambda>base.
     bind (http_get (base @ ''/internal/test-hooks/status'')) (\<lambda>hookCheck.
     andThen (when_do (res_status hookCheck \<noteq> 200) (warn ''[04-retry] Test hook endpoint not available. Consumer failures will be simulated via tagged payloads only.''))
       now_ms)))"

text \<open>The teardown; its figure is how many retries there were for a hundred published events.\<close>

definition retry_teardown :: "number k6" where
  "retry_teardown = bind base_url (\<lambda>base.
     andThen (http_post (base @ ''/internal/test-hooks/consumer-fail-rate'') (JObj [(''rate'', JNum 0)])
        [(''Content-Type'', ''application/json'')])
     (andThen (snapshotSystemMetrics ''teardown'')
     (bind (queryPrometheus (retry_queries ! 0)) (\<lambda>retries.
      bind (queryPrometheus (Series ''outbox_published_total'' [])) (\<lambda>published.
      ret (if or_zero published > 0
           then Num (real_of_int \<lfloor>or_zero retries / or_zero published * 100 * 10 + 1 / 2\<rfloor> / 10) else NaN))))))"

text \<open>\<open>05-relay-scalability.js\<close>.\<close>

definition relay_stage :: "string option \<Rightarrow> string" where
  "relay_stage name = (if name_includes name ''stage_a'' then ''a''
     else if name_includes name ''stage_b'' then ''b'' else ''c'')"

definition fenced_query :: promql where
  "fenced_query = RateOf (Series ''outbox_fenced_publishes_total'' []) ''30s''"

definition relay_iteration :: "(int \<Rightarrow> string) \<Rightarrow> unit k6" where
  "relay_iteration toISO = andThen (set_vars (\<lambda>v. v\<lparr>iterationCount := iterationCount v + 1\<rparr>))
     (bind scenario_name (\<lambda>name. let stage = relay_stage name in
      andThen (publish_load toISO [] (''stage_'' @ stage) [(''stage'', stage)])
      (bind (gets (iterationCount \<circ> vars)) (\<lambda>n.
       andThen (when_do (n mod 100 = 0)
         (andThen (snapshotSystemMetrics (''stage_'' @ stage))
         (bind (queryPrometheus relay_query) (\<lambda>throughput.
          bind (queryPrometheus fenced_query) (\<lambda>fencing.
          andThen (add_sample RelayThroughput (Num (or_zero throughput)) [(''stage'', stage)])
            (set_vars (\<lambda>v. v\<lparr>
               throughputSamples := (throughputSamples v)(stage := throughputSamples v stage @ [or_zero throughput]),
               fencingSamples := (fencingSamples v)(stage := fencingSamples v stage @ [or_zero fencing])\<rparr>)))))))
       think))))"

text \<open>
  \<open>summarizeScalability\<close>. \<open>toFixed(1)\<close> rounds to tenths, the larger neighbour at a tie; an efficiency that
  is \<open>'N/A'\<close> compares like \<open>NaN\<close>.
\<close>

definition avgThroughput :: "real list \<Rightarrow> real" where
  "avgThroughput xs = (if xs = [] then 0 else sum_list xs / real (length xs))"

definition toFixed1 :: "real \<Rightarrow> real" where
  "toFixed1 x = real_of_int \<lfloor>x * 10 + 1 / 2\<rfloor> / 10"

definition scaling_efficiency :: "real \<Rightarrow> real \<Rightarrow> nat \<Rightarrow> number" where
  "scaling_efficiency one many n = (if one > 0 then Num (toFixed1 (many / (one * real n) * 100)) else NaN)"

definition js_round :: "real \<Rightarrow> int" where
  "js_round x = \<lfloor>x + 1 / 2\<rfloor>"

record scalability =
  avg_throughputs :: "int list"
  efficiency_b :: number
  efficiency_c :: number
  bottleneck_shifted :: bool

definition summarizeScalability :: "module_vars \<Rightarrow> scalability" where
  "summarizeScalability v =
     (let stageA = avgThroughput (throughputSamples v ''a'');
          stageB = avgThroughput (throughputSamples v ''b'');
          stageC = avgThroughput (throughputSamples v ''c'');
          effC = scaling_efficiency stageA stageC 4
      in \<lparr>avg_throughputs = [js_round stageA, js_round stageB, js_round stageC],
          efficiency_b = scaling_efficiency stageA stageB 2, efficiency_c = effC,
          bottleneck_shifted = num_less effC (Num 70)\<rparr>)"

section \<open>The options\<close>

text \<open>Durations and start times in seconds; a target rate is per time unit.\<close>

datatype executor =
    ConstantArrivalRate nat nat nat
  | RampingArrivalRate nat "(nat \<times> nat) list"

record load_phase =
  lp_name :: string
  lp_executor :: executor
  lp_start :: nat
  lp_vus :: "nat \<times> nat"
  lp_tags :: labels

definition const_phase :: "string \<Rightarrow> nat \<Rightarrow> nat \<Rightarrow> nat \<Rightarrow> nat \<Rightarrow> nat \<times> nat \<Rightarrow> labels \<Rightarrow> load_phase" where
  "const_phase n rate unit dur start vus tags =
     \<lparr>lp_name = n, lp_executor = ConstantArrivalRate rate unit dur, lp_start = start, lp_vus = vus, lp_tags = tags\<rparr>"

definition baseline_phases :: "load_phase list" where
  "baseline_phases = [const_phase ''low_baseline'' 50 1 420 0 (20, 50) [(''level'', ''low'')],
     const_phase ''medium_baseline'' 200 1 300 420 (50, 120) [(''level'', ''medium'')],
     const_phase ''high_baseline'' 500 1 300 720 (100, 300) [(''level'', ''high'')],
     const_phase ''cool_down'' 50 1 300 1020 (20, 50) [(''level'', ''cool_down'')]]"

definition ramp_phases :: "load_phase list" where
  "ramp_phases = [\<lparr>lp_name = ''ramp_to_peak'', lp_executor = RampingArrivalRate 10
     [(120, 50), (180, 200), (180, 500), (180, 800), (180, 1200), (180, 1600), (180, 2000), (600, 2000)],
     lp_start = 0, lp_vus = (100, 1000), lp_tags = []\<rparr>]"

definition backlog_phases :: "load_phase list" where
  "backlog_phases = [const_phase ''overload'' (nat OVERLOAD_RATE) 1 300 0 (150, 400) [(''phase'', ''overload'')],
     const_phase ''drain_observe'' 1 5 600 300 (1, 2) [(''phase'', ''drain'')],
     const_phase ''recovery'' (nat RECOVERY_RATE) 1 300 900 (30, 80) [(''phase'', ''recovery'')]]"

definition NORMAL_RATE :: nat where
  "NORMAL_RATE = 100"

definition retry_phases :: "load_phase list" where
  "retry_phases = [const_phase ''normal_baseline'' NORMAL_RATE 1 300 0 (30, 60) [(''phase'', ''baseline'')],
     const_phase ''consumer_failure'' NORMAL_RATE 1 300 300 (30, 60) [(''phase'', ''failure'')],
     const_phase ''recovery_window'' NORMAL_RATE 1 300 600 (30, 60) [(''phase'', ''recovery'')],
     const_phase ''steady_state'' NORMAL_RATE 1 300 900 (30, 60) [(''phase'', ''steady_state'')]]"

definition relay_phases :: "load_phase list" where
  "relay_phases = [const_phase ''stage_a_1_relay'' 300 1 300 0 (80, 200) [(''stage'', ''a''), (''relays'', ''1'')],
     const_phase ''stage_b_2_relays'' 600 1 300 360 (150, 350) [(''stage'', ''b''), (''relays'', ''2'')],
     const_phase ''stage_c_4_relays'' 1200 1 300 720 (280, 650) [(''stage'', ''c''), (''relays'', ''4'')]]"

text \<open>A threshold: the metric, the tag it is filtered by, the aggregate and its bound; p(99) < 500 and the like.\<close>

datatype k6_aggregate = AggCount | AggRate | AggValue | AggPercentile nat

datatype th_relation = Less | Equal | Greater

record k6_threshold =
  th_metric :: k6_metric
  th_filter :: "(string \<times> string) option"
  th_agg :: k6_aggregate
  th_rel :: th_relation
  th_bound :: real

definition below :: "k6_metric \<Rightarrow> (string \<times> string) option \<Rightarrow> k6_aggregate \<Rightarrow> real \<Rightarrow> k6_threshold" where
  "below m f a b = \<lparr>th_metric = m, th_filter = f, th_agg = a, th_rel = Less, th_bound = b\<rparr>"

definition no_dlq :: k6_threshold where
  "no_dlq = \<lparr>th_metric = DlqTotal, th_filter = None, th_agg = AggCount, th_rel = Equal, th_bound = 0\<rparr>"


definition baseline_thresholds :: "k6_threshold list" where
  "baseline_thresholds =
    [below GatewayLatency (Some (''level'', ''low'')) (AggPercentile 50) 30,
     below GatewayLatency (Some (''level'', ''low'')) (AggPercentile 99) 100,
     below GatewayLatency (Some (''level'', ''medium'')) (AggPercentile 50) 50,
     below GatewayLatency (Some (''level'', ''medium'')) (AggPercentile 99) 200,
     below GatewayLatency (Some (''level'', ''high'')) (AggPercentile 50) 100,
     below GatewayLatency (Some (''level'', ''high'')) (AggPercentile 99) 500,
     below EventsRejected None AggCount 10, below EventsFailed None AggCount 50, no_dlq]"

text \<open>The threshold of the ramp on the built-in request duration is left out.\<close>

definition ramp_thresholds :: "k6_threshold list" where
  "ramp_thresholds = [no_dlq, below EventsFailed None AggRate 0.05,
     below GatewayLatency None (AggPercentile 50) 200, below GatewayLatency None (AggPercentile 95) 800,
     below GatewayLatency None (AggPercentile 99) 2000, below OutboxPendingGauge None AggValue 1000]"

definition backlog_thresholds :: "k6_threshold list" where
  "backlog_thresholds = [no_dlq,
     below GatewayLatency (Some (''phase'', ''overload'')) (AggPercentile 99) 500,
     below EventsFailed None AggCount 20, below OutboxPendingGauge None AggValue 50]"

definition retry_thresholds :: "k6_threshold list" where
  "retry_thresholds = [below DlqTotal None AggCount 10,
     \<lparr>th_metric = IdempotencyHits, th_filter = None, th_agg = AggCount, th_rel = Greater, th_bound = 0\<rparr>,
     below RetryRate (Some (''phase'', ''steady_state'')) AggValue 0.01,
     below GatewayLatency None (AggPercentile 99) 300, below EventsFailed None AggCount 5]"

definition relay_thresholds :: "k6_threshold list" where
  "relay_thresholds = [no_dlq, below GatewayLatency None (AggPercentile 99) 500,
     below EventsFailed None AggCount 10, below OutboxPendingGauge None AggValue 2000]"

section \<open>What a load test counts\<close>

text \<open>The requests with an event, and the samples of a metric.\<close>

definition event_posts :: "k6_user \<Rightarrow> k6_request list" where
  "event_posts u = filter (\<lambda>r. req_method r = ''POST'') (requests u)"

definition count_samples :: "k6_metric list \<Rightarrow> k6_user \<Rightarrow> nat" where
  "count_samples ms u = length (filter (\<lambda>(m, _). m \<in> set ms) (samples u))"

definition accounted :: "k6_user \<Rightarrow> k6_user \<Rightarrow> bool" where
  "accounted u u' \<longleftrightarrow> (\<exists>n. length (event_posts u') = length (event_posts u) + n \<and>
     count_samples [GatewayLatency] u' = count_samples [GatewayLatency] u + n \<and>
     count_samples [EventsAccepted, EventsRejected, EventsFailed] u' =
       count_samples [EventsAccepted, EventsRejected, EventsFailed] u + n)"

interpretation load: memory_order accounted
proof
  show "accounted a a" for a by (simp add: accounted_def)
next
  fix a b c assume "accounted a b" "accounted b c"
  then obtain n m where "length (event_posts b) = length (event_posts a) + n"
      "count_samples [GatewayLatency] b = count_samples [GatewayLatency] a + n"
      "count_samples [EventsAccepted, EventsRejected, EventsFailed] b =
        count_samples [EventsAccepted, EventsRejected, EventsFailed] a + n"
      "length (event_posts c) = length (event_posts b) + m"
      "count_samples [GatewayLatency] c = count_samples [GatewayLatency] b + m"
      "count_samples [EventsAccepted, EventsRejected, EventsFailed] c =
        count_samples [EventsAccepted, EventsRejected, EventsFailed] b + m"
    unfolding accounted_def by blast
  then show "accounted a c" unfolding accounted_def by (intro exI [of _ "n + m"]) simp
qed

lemma accounted_same:
  "requests u' = requests u \<Longrightarrow> samples u' = samples u \<Longrightarrow> accounted u u'"
  by (simp add: accounted_def event_posts_def count_samples_def)

text \<open>Everything but \<open>publishEvent\<close> leaves the books alone.\<close>

lemma keeps_vars [keeps_rules]:
  "keeps accounted math_random" "keeps accounted (set_vars f)" "keeps accounted (warn t)"
  "keeps accounted (k6_check cs)" "keeps accounted base_url" "keeps accounted prom_url"
  "keeps accounted (env_or n d)" "keeps accounted scenario_name"
  unfolding math_random_def set_vars_def warn_def k6_check_def base_url_def prom_url_def env_or_def
    scenario_name_def
  by (intro keeps_rules load.keeps_modify; simp add: accounted_same)+

lemma keeps_http_get [keeps_rules]:
  "keeps accounted (http_get url)" "keeps accounted (k6_http (query_request url q))"
  by (simp_all add: keeps_def http_get_def query_request_def k6_http_def accounted_def event_posts_def
      count_samples_def)

lemma keeps_add_sample [keeps_rules]:
  "m \<notin> {GatewayLatency, EventsAccepted, EventsRejected, EventsFailed} \<Longrightarrow> keeps accounted (add_sample m v ls)"
  unfolding add_sample_def
  by (rule load.keeps_modify) (auto simp: accounted_def event_posts_def count_samples_def)

lemma keeps_add_if [keeps_rules]: "(\<And>n. keeps accounted (f n)) \<Longrightarrow> keeps accounted (add_if v f)"
  unfolding add_if_def by (intro keeps_rules)

lemma keeps_events [keeps_rules]:
  "keeps accounted (createMessageV2 toISO ov)"
  "keeps accounted (not_imported n)" "keeps accounted think"
proof -
  have fill: "keeps accounted (fill_template cs)" for cs
  proof (induction cs)
    case Nil
    show ?case unfolding fill_template.simps by (rule load.keeps_pure)
  next
    case (Cons c cs)
    then show ?case unfolding fill_template.simps by (intro keeps_rules)
  qed
  show "keeps accounted (createMessageV2 toISO ov)"
    unfolding createMessageV2_def generateId_def randomElement_def by (intro keeps_rules fill)
  show "keeps accounted (not_imported n)" "keeps accounted think"
    unfolding not_imported_def think_def by (intro keeps_rules)+
qed

lemma status_counter_cases: "status_counter s \<in> {EventsAccepted, EventsRejected, EventsFailed}"
  by (simp add: status_counter_def)

lemma keeps_publishEvent [keeps_rules]: "keeps accounted (publishEvent p sc)"
proof (rule load.keeps_from_wp)
  fix w
  show "wp (publishEvent p sc) (\<lambda>_ w'. accounted (mem w) (mem w')) (\<lambda>_ w'. accounted (mem w) (mem w')) w"
    by (simp add: wp_snd publishEvent_def io_defs base_url_def env_or_def http_post_def k6_http_def
        add_sample_def k6_check_def accounted_def event_posts_def count_samples_def status_counter_def)
qed


lemma keeps_query [keeps_rules]:
  "keeps accounted (queryPrometheus q)" "keeps accounted (snapshotSystemMetrics sc)"
  unfolding queryPrometheus_def snapshotSystemMetrics_def Let_def
  by (intro keeps_rules; simp)+

lemma keeps_publish_load [keeps_rules]: "keeps accounted (publish_load toISO ov sc ls)"
  unfolding publish_load_def by (intro keeps_rules; simp)

lemma keeps_iterations:
  "keeps accounted (baseline_iteration toISO)" "keeps accounted (ramp_iteration toISO)"
  "keeps accounted (backlog_iteration toISO)" "keeps accounted (retry_iteration toISO)"
  "keeps accounted (relay_iteration toISO)"
  unfolding baseline_iteration_def ramp_iteration_def note_saturation_def backlog_iteration_def
    backlog_drain_def backlog_sample_def retry_iteration_def retry_snapshot_def relay_iteration_def Let_def
  by (intro keeps_rules; simp)+

text \<open>
  C40: The books of a load test balance: in every iteration of every scenario, also one that ends in an
  error, each event posted to the gateway gives one latency sample and is counted once, as accepted, as
  rejected or as failed.
\<close>

theorem load_tests_account:
  "accounted (mem w) (mem (snd (baseline_iteration toISO w))) \<and>
   accounted (mem w) (mem (snd (ramp_iteration toISO w))) \<and>
   accounted (mem w) (mem (snd (backlog_iteration toISO w))) \<and>
   accounted (mem w) (mem (snd (retry_iteration toISO w))) \<and>
   accounted (mem w) (mem (snd (relay_iteration toISO w)))"
  by (intro conjI keepsD [of accounted] keeps_iterations)

section \<open>Phases and thresholds\<close>

fun duration :: "executor \<Rightarrow> nat" where
  "duration (ConstantArrivalRate _ _ d) = d"
| "duration (RampingArrivalRate _ stages) = sum_list (map fst stages)"

definition ends_at :: "load_phase \<Rightarrow> nat" where
  "ends_at p = lp_start p + duration (lp_executor p)"

definition one_after_another :: "load_phase list \<Rightarrow> bool" where
  "one_after_another ps \<longleftrightarrow> sorted_wrt (\<lambda>p q. ends_at p \<le> lp_start q) ps"

text \<open>The aggregates that k6 documents for each kind of metric.\<close>

fun aggregate_of :: "k6_kind \<Rightarrow> k6_aggregate \<Rightarrow> bool" where
  "aggregate_of K6Counter a \<longleftrightarrow> a \<in> {AggCount, AggRate}"
| "aggregate_of K6Gauge a \<longleftrightarrow> a = AggValue"
| "aggregate_of K6Rate a \<longleftrightarrow> a = AggRate"
| "aggregate_of (K6Trend _) a \<longleftrightarrow> a = AggCount \<or> (case a of AggPercentile _ \<Rightarrow> True | _ \<Rightarrow> False)"

definition well_typed :: "k6_threshold \<Rightarrow> bool" where
  "well_typed t \<longleftrightarrow> aggregate_of (fst (k6_declared (th_metric t))) (th_agg t)"

text \<open>
  The phases of each scenario follow one another without overlap and take 22, 30, 20, 20 and 17
  minutes; every threshold uses an aggregate that its metric has, except the one on the retry rate, which
  asks a trend for its value.
\<close>

theorem scenario_plans:
  "list_all one_after_another [baseline_phases, ramp_phases, backlog_phases, retry_phases, relay_phases] \<and>
   map (\<lambda>ps. Max (set (map ends_at ps))) [baseline_phases, ramp_phases, backlog_phases, retry_phases, relay_phases] =
     map (\<lambda>m. 60 * m) [22, 30, 20, 20, 17] \<and>
   filter (\<lambda>t. \<not> well_typed t) (baseline_thresholds @ ramp_thresholds @ backlog_thresholds @ retry_thresholds @
     relay_thresholds) = [below RetryRate (Some (''phase'', ''steady_state'')) AggValue 0.01]"
  by (simp_all add: one_after_another_def ends_at_def baseline_phases_def ramp_phases_def backlog_phases_def
      retry_phases_def relay_phases_def const_phase_def OVERLOAD_RATE_def RECOVERY_RATE_def NORMAL_RATE_def
      baseline_thresholds_def ramp_thresholds_def backlog_thresholds_def retry_thresholds_def
      relay_thresholds_def well_typed_def below_def no_dlq_def)

text \<open>
  The scenarios do not know which of their phases runs: the name they look at belongs to the whole run.
  Without it, and with any name that does not contain \<open>drain\<close>, the drain phase posts events too; the
  relay scenario books every throughput under its third stage, and its summary then finds no bottleneck.
\<close>

theorem phases_not_told_apart:
  assumes "throughputSamples v ''a'' = []"
  shows "backlog_phase None = ''overload'' \<and> relay_stage None = ''c'' \<and>
    retry_phase None = ''baseline'' \<and> \<not> bottleneck_shifted (summarizeScalability v)"
  using assms
  by (simp add: backlog_phase_def relay_stage_def retry_phase_def name_includes_def summarizeScalability_def
      scaling_efficiency_def avgThroughput_def Let_def)

theorem phases_not_told_apart_witness:
  "backlog_phase None = ''overload'' \<and> \<not> bottleneck_shifted (summarizeScalability new_vars)"
  using phases_not_told_apart [of new_vars] by (simp add: new_vars_def)

end
