(* ===== verification/Load_Queries.thy ===== *)
theory Load_Queries
  imports Load_Tests Metrics
begin

text \<open>
  The series that the load tests ask Prometheus for, against the metrics that the services register
  (\<open>libs/common/src/metrics/metrics.service.ts\<close>).
\<close>

definition load_queries :: "promql list" where
  "load_queries = snapshot_queries @ [dlq_depth_query] @ retry_queries @
     [fenced_query, RateOf (Series ''cdmp_events_published'' []) ''30s'', Series ''outbox_published_total'' []]"

text \<open>
  A series that a service exports: a registered counter or gauge by its name, a histogram by the name with
  \<open>_bucket\<close>, \<open>_sum\<close> or \<open>_count\<close>, and only with labels that the metric has.
\<close>

definition exported_names :: "metric_decl \<Rightarrow> string list" where
  "exported_names d = (case md_kind d of
       HistogramMetric _ \<Rightarrow> map ((@) (md_name d)) [''_bucket'', ''_sum'', ''_count'']
     | _ \<Rightarrow> [md_name d])"

definition exported :: "string \<times> labels \<Rightarrow> bool" where
  "exported s \<longleftrightarrow> list_ex (\<lambda>d. fst s \<in> set (exported_names d) \<and> set (map fst (snd s)) \<subseteq> set (md_labelNames d))
     registered_metrics"

lemmas query_defs = load_queries_def snapshot_queries_def pending_query_def relay_query_def dlq_depth_query_def
  retry_queries_def fenced_query_def

text \<open>
  Of the fourteen series that the load tests read, the services export five. The backlog of the
  outbox is not among them: its gauge has the label \<open>service\<close>, the queries ask for \<open>source\<close>.
\<close>

theorem queries_served:
  "length (concat (map promql_series load_queries)) = 14 \<and>
   filter exported (concat (map promql_series load_queries)) =
     [(''dlq_messages_total'', []), (''retry_count_total'', []), (''retry_count_total'', []),
      (''messages_processed_total'', []), (''outbox_fenced_publishes_total'', [])]"
  by (simp add: query_defs exported_def exported_names_def registered_metrics_def)

text \<open>
  Prometheus has no sample for a series that nobody exports: it answers with an empty result, or not at all.
\<close>

definition prometheus_documented :: "k6_user \<Rightarrow> bool" where
  "prometheus_documented u \<longleftrightarrow> (\<forall>n url q. list_all (\<lambda>s. \<not> exported s) (promql_series q) \<longrightarrow>
     query_value (answers u n (query_request url q)) = None)"

lemma unserved_query:
  assumes "prometheus_documented (mem w)" "list_all (\<lambda>s. \<not> exported s) (promql_series q)"
  shows "wp (queryPrometheus q) (\<lambda>v w'. v = None \<and> check_results (mem w') = check_results (mem w) \<and>
      prometheus_documented (mem w')) (\<lambda>_ _. False) w"
proof -
  have "query_value (answers (mem w) n (query_request url q)) = None" for n url
    using assms unfolding prometheus_documented_def by blast
  then show ?thesis
    using assms(1) by (simp add: queryPrometheus_def prom_url_def env_or_def k6_http_def wp_def io_defs
        prometheus_documented_def)
qed

lemma not_exported:
  "list_all (\<lambda>s. \<not> exported s) (promql_series pending_query)"
  "list_all (\<lambda>s. \<not> exported s) (promql_series dlq_depth_query)"
  by (simp_all add: query_defs exported_def exported_names_def registered_metrics_def)

lemma wp_k6_http:
  "wp (k6_http r) Q E w = Q (answers (mem w) (calls w) r)
     (w\<lparr>calls := Suc (calls w), mem := (mem w)\<lparr>requests := requests (mem w) @ [r]\<rparr>\<rparr>)"
  by (simp add: k6_http_def wp_def)

lemma wp_k6_check:
  "wp (k6_check cs) Q E w = Q (\<forall>(_, ok) \<in> set cs. ok)
     (w\<lparr>mem := (mem w)\<lparr>check_results := check_results (mem w) @ cs\<rparr>\<rparr>)"
  by (simp add: k6_check_def wp_eqs)

lemma prometheus_documented_updates [simp]:
  "prometheus_documented (u\<lparr>check_results := c\<rparr>) = prometheus_documented u"
  "prometheus_documented (u\<lparr>requests := rs\<rparr>) = prometheus_documented u"
  by (simp_all add: prometheus_documented_def)

text \<open>
  The check before a test cannot see a backlog: with a Prometheus that has samples for exported series
  only, the checks on the outbox and on the dead letter queue pass whatever the state of the system is.
\<close>

theorem health_check_blind:
  assumes "prometheus_documented (mem w)"
  shows "\<exists>ok. check_results (mem (snd (assertSystemHealthy w))) = check_results (mem w) @
     [(''system health check passes'', ok), (''outbox is not already backed up'', True),
      (''DLQ is empty before test'', True)]"
proof -
  let ?Q = "\<lambda>_ w'. \<exists>ok. check_results (mem w') = check_results (mem w) @
     [(''system health check passes'', ok), (''outbox is not already backed up'', True),
      (''DLQ is empty before test'', True)]"
  have "wp assertSystemHealthy ?Q ?Q w"
    unfolding assertSystemHealthy_def base_url_def env_or_def http_get_def wp_bind wp_gets wp_k6_http wp_andThen
      wp_k6_check
    by (rule wp_mono [OF unserved_query [OF _ not_exported(1)]])
      (auto simp: assms wp_k6_check wp_bind wp_andThen wp_ret intro!: wp_mono [OF unserved_query [OF _ not_exported(2)]])
  then show ?thesis by (simp add: wp_snd)
qed


definition offline_user :: k6_user where
  "offline_user = \<lparr>random_draw = \<lambda>_. 0, drawn = 0, k6_env = \<lambda>_. None,
     answers = \<lambda>_ _. \<lparr>res_status = 0, res_json = None\<rparr>, requests = [], samples = [], check_results = [],
     warnings = [], vars = new_vars\<rparr>"

theorem health_check_blind_witness:
  "\<exists>ok. check_results (mem (snd (assertSystemHealthy (start_world offline_user)))) =
     [(''system health check passes'', ok), (''outbox is not already backed up'', True),
      (''DLQ is empty before test'', True)]"
  using health_check_blind [of "start_world offline_user"]
  by (simp add: prometheus_documented_def offline_user_def query_value_def)

end
