(* ===== verification/Dispatch.thy ===== *)
theory Dispatch
  imports Event_Pipeline Patterns
begin

text \<open>
  What the transport of the messaging service (\<open>Patterns\<close>) does with the messages of the gateway's relay,
  which publishes the bare event (\<open>gateway-outbox-relay.service.ts\<close>).
\<close>

section \<open>Members of a valid event\<close>

lemma valid_has_no:
  assumes "zod_documented Z" "validateEvent Z t raw = Inr ev"
    and "k \<notin> fst ` set v1_members" "k \<notin> fst ` set v2_members"
  shows "get_prop k (json_of ev) = JUndef"
proof -
  have "doc Z (EventRegistry t) raw = Some ev" using assms(2) by (simp add: validateEvent_iff [OF assms(1)])
  then have "get_prop k ev = JUndef"
    using assms(3,4) documented_drops by (cases t) (auto simp only: EventRegistry.simps v1_schema(1) v2_schema(1))
  then show ?thesis by (simp add: json_envelope(1) [OF assms(1,2)])
qed

lemma valid_unhandled:
  assumes "zod_documented Z" "transport_documented tr" "validateEvent Z t raw = Inr ev"
  shows "tr (json_of ev) = None"
proof -
  have "get_prop ''pattern'' (json_of ev) = JUndef"
    by (rule valid_has_no [OF assms(1,3)]) (auto simp: v1_members_def v2_members_def)
  then show ?thesis
    using assms(2) by (cases "tr (json_of ev)") (fastforce simp: transport_documented_def)+
qed

section \<open>Properties\<close>

text \<open>
  C34: Relayed requests find no handler. The event of an accepted request, as the relay publishes it,
  is a message for which the transport finds no handler, \<open>handleMessage\<close> included, whatever the claim
  and the state of the relay: the event contracts have no member \<open>pattern\<close>, and validation drops every
  member that is not in the contract. The delivery is then rejected (\<open>unhandled\<close> in \<open>Work_Queue\<close>).
\<close>

theorem relayed_requests_unhandled:
  assumes "zod_documented Z" "transport_documented tr" "endpoint Z v2 headers g = (Inr resp, g')"
  shows "\<exists>row. committed (mem g') = committed (mem g) @ [row] \<and>
    (\<forall>cr rw. c_payload cr = payload row \<longrightarrow> tr (m_body (the_message gateway_relay cr rw)) = None)"
proof -
  obtain row raw valid where em: "emitted Z v2 (request_correlation headers) g g' row raw valid"
    using wp_result [OF wp_endpoint [OF assms(1)] assms(3)] by blast
  then have valid: "validateEvent Z (endpoint_type v2) raw = Inr valid" by (simp add: emitted_def)
  note valid_unhandled [OF assms(1,2) valid]
  then have "tr (m_body (the_message gateway_relay cr rw)) = None" if "c_payload cr = payload row" for cr rw
    using that emitted_row(3) [OF em] by (simp add: the_message_def row_message_def Let_def)
  then show ?thesis using emitted_row(1) [OF em] by blast
qed

theorem relayed_requests_unhandled_witness:
  "\<exists>resp g' row. endpoint sample_zod True [(''x-correlation-id'', JStr ''c'')] gateway_start = (Inr resp, g') \<and>
     committed (mem g') = [row] \<and>
     example_transport (m_body (the_message gateway_relay (returning row) (start_world sample_relay))) = None"
proof -
  obtain resp g' where a: "endpoint sample_zod True [(''x-correlation-id'', JStr ''c'')] gateway_start = (Inr resp, g')"
    using gateway_start_accepts by (auto split: prod.splits sum.splits)
  from relayed_requests_unhandled [OF sample_zod_documented example_transport_documented a]
  obtain row where "committed (mem g') = committed (mem gateway_start) @ [row]"
    "\<forall>cr rw. c_payload cr = payload row \<longrightarrow> example_transport (m_body (the_message gateway_relay cr rw)) = None"
    by blast
  with a show ?thesis by (auto simp: gateway_start_def new_service_def returning_def)
qed

end
