(* ===== verification/End_To_End.thy ===== *)
theory End_To_End
  imports Dispatch Metrics Relay_System Work_Queue "HOL-Library.Countable"
begin

text \<open>
  The whole path of a command, with everything interleaved: requests at the gateway
  (\<open>apps/gateway/src/app.controller.ts\<close>) commit rows to its outbox, any number of relay instances
  (\<open>gateway-outbox-relay.service.ts\<close>) claim, publish, confirm, crash and race on it, published messages
  are routed over the declared topology (\<open>libs/contracts/src/topology/topology.ts\<close>), and the messaging
  service consumes the work queue (\<open>apps/messaging/src/messaging.controller.ts\<close>) and the dead letter queue
  (\<open>reliability/dlq-consumer.service.ts\<close>). The three parts are
  \<open>endpoint\<close>, \<open>relay_step\<close> and \<open>work_step\<close>; they share the outbox table and the work queue. \<open>relay_step\<close>
  covers the ticks with either result of the driver (\<open>tick_refines_system\<close>).
\<close>

section \<open>The platform\<close>

text \<open>\<open>promised\<close> are the event ids the gateway has answered with.\<close>

record platform =
  outbox :: relay_system
  work :: work_system
  promised :: "string set"

definition answered_id :: "jsval + jsval \<Rightarrow> string set" where
  "answered_id r = (case r of Inr resp \<Rightarrow> set_option (as_string (get_prop ''eventId'' resp)) | Inl _ \<Rightarrow> {})"

text \<open>A relayed message in a queue; \<open>stringify\<close> is the JSON text of a value, as the relay writes it.\<close>

definition relayed_copy :: "(jsval \<Rightarrow> string) \<Rightarrow> amqp_message \<Rightarrow> queued" where
  "relayed_copy stringify msg = \<lparr>q_content = stringify (m_body msg), q_headers = Some (m_headers msg)\<rparr>"

text \<open>A message reaches the work queue when the broker routes it there.\<close>

definition arrive :: "zod \<Rightarrow> transport \<Rightarrow> (string \<Rightarrow> jsval option) \<Rightarrow> (jsval \<Rightarrow> string) \<Rightarrow> routing \<Rightarrow> amqp_message \<Rightarrow>
    work_system \<Rightarrow> work_system" where
  "arrive Z tr parse stringify route msg q = (let m = relayed_copy stringify msg in
     if q_WORK QUEUES \<in> route topology_decls (m_exchange msg) (m_routingKey msg)
     then q\<lparr>ready := ready q @ [m], offered := offered q \<union> set_option (carried Z tr parse m)\<rparr> else q)"

definition confirm_claim :: "string \<Rightarrow> ClaimedRow \<Rightarrow> relay_system \<Rightarrow> relay_system" where
  "confirm_claim inst cr s = s\<lparr>inflight := insert (inst, cr, True) (inflight s - {(inst, cr, False)}),
     delivered_rows := insert cr (delivered_rows s)\<rparr>"

text \<open>
  \<open>request\<close> is a whole request, answered or not, whatever else happened to the gateway's memory; the
  serial key of its row is new. \<open>relaying\<close> is any step of the relays, the reaper, the operator and other
  writers that needs no broker; \<open>reached\<close> a published message that reaches the broker, whose confirmation
  the relay may or may not get, so that the message may come again; \<open>consuming\<close> any step of the queues, of
  the consumer and of the dead letter consumer.
\<close>

inductive platform_step :: "zod \<Rightarrow> transport \<Rightarrow> (string \<Rightarrow> jsval option) \<Rightarrow> (jsval \<Rightarrow> string) \<Rightarrow> routing \<Rightarrow>
    platform \<Rightarrow> platform \<Rightarrow> bool" for Z tr parse stringify route where
  request: "endpoint Z v2 headers g = (r, g') \<Longrightarrow> committed (mem g) = db (outbox s) \<Longrightarrow>
    distinct (map row_id (committed (mem g'))) \<Longrightarrow>
    platform_step Z tr parse stringify route s
      (s\<lparr>outbox := (outbox s)\<lparr>db := committed (mem g')\<rparr>, promised := promised s \<union> answered_id r\<rparr>)"
| relaying: "relay_step (outbox s) ob \<Longrightarrow> delivered_rows ob = delivered_rows (outbox s) \<Longrightarrow>
    platform_step Z tr parse stringify route s (s\<lparr>outbox := ob\<rparr>)"
| reached: "(inst, cr, False) \<in> inflight (outbox s) \<Longrightarrow>
    ob = outbox s \<or> ob = confirm_claim inst cr (outbox s) \<Longrightarrow>
    platform_step Z tr parse stringify route s
      (s\<lparr>outbox := ob, work := arrive Z tr parse stringify route (the_message gateway_relay cr rw) (work s)\<rparr>)"
| consuming: "work_step Z tr parse (work s) q \<Longrightarrow> platform_step Z tr parse stringify route s (s\<lparr>work := q\<rparr>)"

definition platform_start :: "messaging_mem world \<Rightarrow> dlq_mem world \<Rightarrow> platform" where
  "platform_start w v = \<lparr>outbox = initial_system, work = work_start w v, promised = {}\<rparr>"

text \<open>
  What is assumed of the libraries: Zod, the broker's routing, the transport's choice of a handler, and that
  JSON text is read back as the value it was written from.
\<close>

definition libraries_documented :: "zod \<Rightarrow> transport \<Rightarrow> (string \<Rightarrow> jsval option) \<Rightarrow> (jsval \<Rightarrow> string) \<Rightarrow> routing \<Rightarrow>
    bool" where
  "libraries_documented Z tr parse stringify route \<longleftrightarrow> zod_documented Z \<and> amqp_routing route \<and>
     transport_documented tr \<and> (\<forall>v. parse (stringify (json_of v)) = Some (json_of v))"

section \<open>What a row promises\<close>

definition claim_carries :: "zod \<Rightarrow> transport \<Rightarrow> (string \<Rightarrow> jsval option) \<Rightarrow> (jsval \<Rightarrow> string) \<Rightarrow>
    ClaimedRow \<Rightarrow> string \<Rightarrow> bool" where
  "claim_carries Z tr parse stringify cr e \<longleftrightarrow> c_event_type cr \<in> COMMAND_EVENT_TYPES \<and>
     (\<forall>rw. carried Z tr parse (relayed_copy stringify (the_message gateway_relay cr rw)) = Some e)"

definition row_carries :: "zod \<Rightarrow> transport \<Rightarrow> (string \<Rightarrow> jsval option) \<Rightarrow> (jsval \<Rightarrow> string) \<Rightarrow>
    outbox_row \<Rightarrow> string \<Rightarrow> bool" where
  "row_carries Z tr parse stringify r e \<longleftrightarrow>
     (\<forall>cr. c_content cr = content r \<longrightarrow> claim_carries Z tr parse stringify cr e)"

lemma row_carries_content:
  "content r' = content r \<Longrightarrow> row_carries Z tr parse stringify r' e = row_carries Z tr parse stringify r e"
  by (simp add: row_carries_def)

text \<open>The body of a relayed request is the stored event, for which the transport finds no handler.\<close>

lemma emitted_body:
  assumes "libraries_documented Z tr parse stringify route" "emitted Z v2 corr g g' row raw valid"
    and "c_payload cr = payload row"
  shows "body_of parse (relayed_copy stringify (the_message gateway_relay cr rw)) = json_of valid"
    "tr (json_of valid) = None"
  using assms emitted_row(3) [OF assms(2)] valid_unhandled [of Z tr "endpoint_type v2" raw valid]
  by (simp_all add: libraries_documented_def emitted_def body_of_def relayed_copy_def the_message_def
      row_message_def Let_def)

lemma emitted_carries:
  assumes lib: "libraries_documented Z tr parse stringify route" and em: "emitted Z v2 corr g g' row raw valid"
  obtains e where "get_prop ''eventId'' valid = JStr e" "event_id row = Some e"
    "row_carries Z tr parse stringify row e"
proof -
  have zod: "zod_documented Z" and v: "validateEvent Z (endpoint_type v2) raw = Inr valid" "built v2 raw"
    using lib em by (simp_all add: libraries_documented_def emitted_def)
  note row = emitted_row [OF em]
  obtain e where e: "get_prop ''eventId'' valid = JStr e" using valid_members(1) [OF zod v(1)] by blast
  have id: "event_id row = Some e"
    using em e by (simp add: emitted_def gateway_recorded_def outbox_input_def)
  have "claim_carries Z tr parse stringify cr e" if c: "c_content cr = content row" for cr
  proof -
    have cr: "c_event_type cr = event_name (endpoint_type v2)" "c_payload cr = json_of valid"
      using c row(2,3) by (simp_all add: c_content_def content_def)
    have "c_event_type cr \<in> COMMAND_EVENT_TYPES"
      by (simp add: cr endpoint_type_def CreateMessageEvent_def CreateMessageEventNameV2_def COMMAND_EVENT_TYPES_def)
    moreover have "carried Z tr parse (relayed_copy stringify (the_message gateway_relay cr rw)) = Some e" for rw
      using emitted_body [OF lib em cr(2) [folded row(3)]] e json_envelope(1) [OF zod v(1)]
      by (simp add: carried_def)
    ultimately show ?thesis by (simp add: claim_carries_def)
  qed
  then show ?thesis using that e id by (simp add: row_carries_def)
qed

section \<open>The invariant\<close>

text \<open>
  Relays and consumer keep what they keep on their own; a confirmed command is one the work queue was
  offered; and a promised event has a row.
\<close>

definition platform_inv :: "zod \<Rightarrow> transport \<Rightarrow> (string \<Rightarrow> jsval option) \<Rightarrow> (jsval \<Rightarrow> string) \<Rightarrow> routing \<Rightarrow>
    platform \<Rightarrow> bool" where
  "platform_inv Z tr parse stringify route s \<longleftrightarrow> libraries_documented Z tr parse stringify route \<and>
     relay_inv (outbox s) \<and> work_inv Z tr parse (work s) \<and>
     (\<forall>cr \<in> delivered_rows (outbox s). \<forall>e. claim_carries Z tr parse stringify cr e \<longrightarrow> e \<in> offered (work s)) \<and>
     (\<forall>e \<in> promised s. \<exists>r \<in> set (db (outbox s)). event_id r = Some e \<and> row_carries Z tr parse stringify r e)"

text \<open>Rows that stay rows with their content keep the promises.\<close>

lemma promises_kept:
  assumes "map content t' = map content t @ rest"
    and "\<exists>r \<in> set t. event_id r = Some e \<and> row_carries Z tr parse stringify r e"
  shows "\<exists>r \<in> set t'. event_id r = Some e \<and> row_carries Z tr parse stringify r e"
proof -
  obtain r where r: "r \<in> set t" "event_id r = Some e" "row_carries Z tr parse stringify r e"
    using assms(2) by blast
  then have "content r \<in> set (map content t')" unfolding assms(1) by simp
  then obtain r' where r': "r' \<in> set t'" "content r' = content r" by auto
  then have "event_id r' = Some e" using r(2) by (simp add: content_def)
  then show ?thesis using r' r(3) row_carries_content by blast
qed

lemma offered_grows: "work_step Z tr parse q q' \<Longrightarrow> offered q \<subseteq> offered q'"
proof (induction rule: work_step.induct)
  case (handled s t m data w' copies)
  have "settles_own t (svc s) w'"
    using deliver_settles [of "as_delivery t m" "svc s" Z data] handled(3)
    by (simp add: deliver_def as_delivery_def)
  then show ?case by (simp add: after_delivery_sel)
qed auto

lemma arrive_steps:
  "arrive Z tr parse stringify route msg q = q \<or> work_step Z tr parse q (arrive Z tr parse stringify route msg q)"
  unfolding arrive_def Let_def by (auto intro: offer)

lemma arrive_keeps:
  "work_inv Z tr parse q \<Longrightarrow> work_inv Z tr parse (arrive Z tr parse stringify route msg q)"
  "offered q \<subseteq> offered (arrive Z tr parse stringify route msg q)"
  using arrive_steps [of Z tr parse stringify route msg q] work_inv_step offered_grows
  by (metis, metis order_refl)

lemma arrive_offers:
  assumes "libraries_documented Z tr parse stringify route"
    and "claim_carries Z tr parse stringify cr e"
  shows "e \<in> offered (arrive Z tr parse stringify route (the_message gateway_relay cr rw) q)"
proof -
  have "q_WORK QUEUES \<in> route topology_decls (m_exchange (the_message gateway_relay cr rw))
      (m_routingKey (the_message gateway_relay cr rw))"
    using assms route_topology(1) [of route]
    by (simp add: libraries_documented_def claim_carries_def the_message_def row_message_def Let_def
        resolveOutboxRoute_def)
  then show ?thesis using assms(2) by (simp add: arrive_def claim_carries_def)
qed

text \<open>A request adds at most one row, as an insert of the relay system.\<close>

lemma emitted_inserts:
  assumes "emitted Z v2 corr g g' row raw valid" "committed (mem g) = db s"
    and "distinct (map row_id (committed (mem g')))"
  shows "relay_step s (s\<lparr>db := committed (mem g')\<rparr>)"
proof -
  have rows: "committed (mem g') = db s @ [row]" using emitted_row(1) [OF assms(1)] assms(2) by simp
  obtain e due c i now where row: "row = outbox_row_of (outbox_input (endpoint_type v2) corr valid) e due c i now"
    using assms(1) by (auto simp: emitted_def gateway_recorded_def outbox_row_for_def)
  have new: "i \<notin> row_id ` set (db s)" using assms(3) by (auto simp: rows row)
  have "row = (new_outbox_row now i (event_name (endpoint_type v2)) (json_of valid) (as_string corr) (Some e)
      (if c = [] then None else Some c))\<lparr>next_retry_at := due\<rparr>"
    by (simp add: row outbox_row_of_def outbox_input_def new_outbox_row_def)
  then show ?thesis using relay_step.insert_row [OF new] by (metis rows)
qed

lemma request_keeps:
  assumes run: "endpoint Z v2 headers g = (r, g')" and g: "committed (mem g) = db (outbox s)"
    and dist: "distinct (map row_id (committed (mem g')))"
    and inv: "platform_inv Z tr parse stringify route s"
  shows "platform_inv Z tr parse stringify route
    (s\<lparr>outbox := (outbox s)\<lparr>db := committed (mem g')\<rparr>, promised := promised s \<union> answered_id r\<rparr>)"
proof -
  have lib: "libraries_documented Z tr parse stringify route" "zod_documented Z"
    using inv by (simp_all add: platform_inv_def libraries_documented_def)
  let ?corr = "request_correlation headers"
  have grown: "relay_inv ((outbox s)\<lparr>db := committed (mem g')\<rparr>) \<and>
      (\<exists>rest. map content (committed (mem g')) = map content (db (outbox s)) @ rest)"
    if "emitted Z v2 ?corr g g' row raw valid" for row raw valid
  proof -
    note step = emitted_inserts [OF that g dist]
    show ?thesis using relay_inv_step [OF step] relay_step_content [OF step] inv by (simp add: platform_inv_def)
  qed
  show ?thesis
  proof (cases r)
    case (Inl err)
    have "committed (mem g') = committed (mem g) \<or> (\<exists>row raw valid. emitted Z v2 ?corr g g' row raw valid)"
      using wp_error [OF wp_endpoint [OF lib(2)] run [unfolded Inl]] .
    then show ?thesis
    proof
      assume "committed (mem g') = committed (mem g)"
      then show ?thesis using inv g by (simp add: answered_id_def Inl)
    next
      assume "\<exists>row raw valid. emitted Z v2 ?corr g g' row raw valid"
      then obtain rest where grow: "relay_inv ((outbox s)\<lparr>db := committed (mem g')\<rparr>)"
        "map content (committed (mem g')) = map content (db (outbox s)) @ rest" using grown by blast
      show ?thesis
        using inv grow(1) promises_kept [OF grow(2)] by (simp add: platform_inv_def answered_id_def Inl)
    qed
  next
    case (Inr resp)
    obtain row raw valid where em: "emitted Z v2 ?corr g g' row raw valid"
      and resp: "resp = accepted_response (endpoint_type v2) ?corr valid row"
      using wp_result [OF wp_endpoint [OF lib(2)] run [unfolded Inr]] by blast
    obtain e where e: "get_prop ''eventId'' valid = JStr e" "event_id row = Some e"
      "row_carries Z tr parse stringify row e" by (rule emitted_carries [OF lib(1) em])
    have ans: "answered_id r = {e}" by (simp add: answered_id_def Inr resp accepted_response_def get_prop_def e(1) [unfolded get_prop_def])
    obtain rest where grow: "relay_inv ((outbox s)\<lparr>db := committed (mem g')\<rparr>)"
      "map content (committed (mem g')) = map content (db (outbox s)) @ rest" using grown [OF em] by blast
    have "row \<in> set (committed (mem g'))" using emitted_row(1) [OF em] by simp
    then show ?thesis
      using inv grow(1) promises_kept [OF grow(2)] e(2,3) by (auto simp: platform_inv_def ans)
  qed
qed

lemma platform_inv_step:
  assumes "platform_step Z tr parse stringify route s s'" "platform_inv Z tr parse stringify route s"
  shows "platform_inv Z tr parse stringify route s'"
  using assms
proof (induction rule: platform_step.induct)
  case (request v2 headers g r g' s)
  then show ?case by (rule request_keeps)
next
  case (relaying s ob)
  obtain rest where "map content (db ob) = map content (db (outbox s)) @ rest"
    using relay_step_content [OF relaying(1)] by blast
  then show ?case
    using relaying relay_inv_step [OF relaying(1)] promises_kept by (simp add: platform_inv_def)
next
  case (reached inst cr s ob rw)
  let ?q = "arrive Z tr parse stringify route (the_message gateway_relay cr rw) (work s)"
  have lib: "libraries_documented Z tr parse stringify route" using reached(3) by (simp add: platform_inv_def)
  have "relay_inv ob" using reached(1,2,3) relay_inv_confirm [OF _ reached(1)]
    by (auto simp: platform_inv_def confirm_claim_def)
  moreover have "db ob = db (outbox s)" "delivered_rows ob \<subseteq> insert cr (delivered_rows (outbox s))"
    using reached(2) by (auto simp: confirm_claim_def)
  ultimately show ?case
    using reached(3) arrive_keeps arrive_offers [OF lib] unfolding platform_inv_def
    by simp (metis insert_iff subsetD)
next
  case (consuming s q)
  then show ?case
    using work_inv_step [OF consuming(1)] offered_grows [OF consuming(1)] by (auto simp: platform_inv_def)
qed

interpretation platforms: step_system "platform_step Z tr parse stringify route"
    "platform_inv Z tr parse stringify route" for Z tr parse stringify route
  by unfold_locales (rule platform_inv_step)

lemma platform_inv_start:
  assumes "libraries_documented Z tr parse stringify route" "plain_injector w" "\<not> unique_noise w"
  shows "platform_inv Z tr parse stringify route (platform_start w v)"
  using assms by (simp add: platform_inv_def platform_start_def initial_system_def relay_inv_def
      sql.tokens_ok_def work_inv_def work_start_def)

text \<open>
  Where a promised event is, when it has not been processed: still in the outbox, in a message that some
  queue or the consumer holds, or in one that the dead letter consumer logged and acknowledged.
\<close>

definition unprocessed_at :: "zod \<Rightarrow> transport \<Rightarrow> (string \<Rightarrow> jsval option) \<Rightarrow> platform \<Rightarrow> string \<Rightarrow> bool" where
  "unprocessed_at Z tr parse s e \<longleftrightarrow> (\<exists>r \<in> set (db (outbox s)). event_id r = Some e \<and> status r \<noteq> Sent) \<or>
     (\<exists>m \<in> held (work s). carried Z tr parse m = Some e) \<or>
     (\<exists>m \<in> set (given_up (work s)). carried Z tr parse m = Some e \<and> logged parse (work s) m)"

lemma promised_kept:
  assumes inv: "platform_inv Z tr parse stringify route s" and e: "e \<in> promised s"
  shows "e \<in> processed_ids (committed (mem (svc (work s)))) \<or> unprocessed_at Z tr parse s e"
proof -
  obtain r where r: "r \<in> set (db (outbox s))" "event_id r = Some e" "row_carries Z tr parse stringify r e"
    using inv e by (auto simp: platform_inv_def)
  show ?thesis
  proof (cases "status r = Sent")
    case True
    then obtain cr where "cr \<in> delivered_rows (outbox s)" "c_content cr = content r"
      using inv r(1) by (auto simp: platform_inv_def relay_inv_def row_ok_def)
    then have "e \<in> offered (work s)" using inv r(3) by (auto simp: platform_inv_def row_carries_def)
    then have "accounted_for Z tr parse (work s) e" using inv by (simp add: platform_inv_def work_inv_def)
    moreover have "\<forall>m \<in> set (given_up (work s)). logged parse (work s) m"
      using inv by (simp add: platform_inv_def work_inv_def)
    ultimately show ?thesis by (auto simp: accounted_for_def messages_of_def unprocessed_at_def)
  qed (use r in \<open>auto simp: unprocessed_at_def\<close>)
qed

lemma length_filter_key:
  "distinct (map f xs) \<Longrightarrow> length (filter (\<lambda>x. f x = k) xs) = (if k \<in> f ` set xs then 1 else 0)"
  by (induction xs) (auto simp: filter_empty_conv)

section \<open>One effect per event\<close>

text \<open>Whatever a delivery meets, its handler keeps the tables of the consumer in step.\<close>

interpretation single_effect: event_order
  "\<lambda>a b. once_per_event (committed a) \<longrightarrow> once_per_event (committed b)"
  by unfold_locales (auto simp: once_per_event_def written_once_def outbox_row_for_def
      message_persisted_input_def processed_ids_def)

lemma deliver_keeps_once:
  "once_per_event (committed (mem w)) \<Longrightarrow> once_per_event (committed (mem (deliver Z (data, d) w)))"
  using single_effect.keeps_handleMessage [THEN keepsD, of w Z data d] by (simp add: deliver_def)

abbreviation consumer_tables :: "platform \<Rightarrow> service_tables" where
  "consumer_tables s \<equiv> committed (mem (svc (work s)))"

text \<open>
  A step of the platform in which what other writers do to the consumer's database keeps its tables in
  step; the legacy handler, which writes messages without an event, does not.
\<close>

definition orderly_step :: "zod \<Rightarrow> transport \<Rightarrow> (string \<Rightarrow> jsval option) \<Rightarrow> (jsval \<Rightarrow> string) \<Rightarrow> routing \<Rightarrow>
    platform \<Rightarrow> platform \<Rightarrow> bool" where
  "orderly_step Z tr parse stringify route s s' \<longleftrightarrow> platform_step Z tr parse stringify route s s' \<and>
     ((\<exists>t m data. svc (work s') = deliver Z (data, as_delivery t m) (svc (work s))) \<or>
      (once_per_event (consumer_tables s) \<longrightarrow> once_per_event (consumer_tables s')))"

interpretation orderly: step_system "orderly_step Z tr parse stringify route"
    "\<lambda>s. platform_inv Z tr parse stringify route s \<and> once_per_event (consumer_tables s)"
  for Z tr parse stringify route
  by unfold_locales (auto simp: orderly_step_def deliver_keeps_once intro: platform_inv_step)

section \<open>Properties\<close>

text \<open>
  C1: Every accepted request is accounted for. In every schedule of requests, relay instances with crashes,
  lost answers and races, publishes whose confirmation is lost, consumer runs with whatever failures, retries
  and closed channels, and runs of the dead letter consumer: an event the gateway has answered with has been
  processed, or is in a row of its outbox that is not marked sent (pending, or failed and up to the
  operator), or in a message in the work, retry or dead letter queue, or in a message that the dead letter
  consumer acknowledged after it wrote a log record of it with the body. It does not say that the event
  will be processed: with the transport as documented a relayed request takes the branch \<open>unhandled\<close>
  (\<open>relayed_requests_unhandled\<close> in \<open>Dispatch\<close>), and its log record is the last trace of it.
\<close>

theorem requests_accounted_for:
  assumes "(platform_step Z tr parse stringify route)\<^sup>*\<^sup>* (platform_start w v) s"
    and "libraries_documented Z tr parse stringify route" "plain_injector w" "\<not> unique_noise w"
    and "e \<in> promised s"
  shows "e \<in> processed_ids (consumer_tables s) \<or>
    (\<exists>r \<in> set (db (outbox s)). event_id r = Some e \<and> status r \<noteq> Sent) \<or>
    (\<exists>m \<in> held (work s). carried Z tr parse m = Some e) \<or>
    (\<exists>m \<in> set (given_up (work s)). carried Z tr parse m = Some e \<and> logged parse (work s) m)"
proof -
  have "platform_inv Z tr parse stringify route (platform_start w v)"
    using assms(2-4) by (rule platform_inv_start)
  with assms(1) have "platform_inv Z tr parse stringify route s" by (rule platforms.schedule_keeps)
  from promised_kept [OF this assms(5)] show ?thesis by (simp add: unprocessed_at_def)
qed

text \<open>Libraries as documented: any value has a text of its own.\<close>

instance jsval :: countable
  by countable_datatype

definition example_stringify :: "jsval \<Rightarrow> string" where
  "example_stringify v = replicate (to_nat v) (CHR ''1'')"

definition example_parse :: "string \<Rightarrow> jsval option" where
  "example_parse s = Some (from_nat (length s))"

lemma example_libraries:
  "libraries_documented sample_zod example_transport example_parse example_stringify amqp_route"
  by (simp add: libraries_documented_def sample_zod_documented amqp_route_ok example_transport_documented
      example_stringify_def example_parse_def)

text \<open>A request whose row is claimed, published, confirmed and marked sent.\<close>

lemma sent_run:
  assumes "status row = Pending"
  defines "cr \<equiv> returning (lock_row (next_retry_at row) ''a'' row)"
    and "s1 \<equiv> initial_system\<lparr>db := [row]\<rparr>"
  obtains s2 s3 where "relay_step s1 s2" "delivered_rows s2 = {}" "(''a'', cr, False) \<in> inflight s2"
    "relay_step (confirm_claim ''a'' cr s2) s3" "delivered_rows s3 = {cr}" "map status (db s3) = [Sent]"
proof -
  let ?now = "next_retry_at row"
  have "sql_claim ?now (\<lambda>_. False) 1 ''a'' (db s1) = ([cr], [lock_row ?now ''a'' row])"
    by (simp add: s1_def cr_def sql_claim_def Let_def select_claim_ids_def claimable_def matching_def assms(1))
  note claim = relay_step.claim [OF this]
  let ?s2 = "s1\<lparr>db := [lock_row ?now ''a'' row], inflight := {(''a'', cr, False)}, claims := [claim_token cr]\<rparr>"
  let ?s3 = "(confirm_claim ''a'' cr ?s2)\<lparr>db := sent_table cr ?now (db ?s2), inflight := {}\<rparr>"
  have c: "relay_step s1 ?s2" using claim by (simp add: s1_def initial_system_def)
  have s: "relay_step (confirm_claim ''a'' cr ?s2) ?s3"
    using relay_step.sent [of "''a''" cr "confirm_claim ''a'' cr ?s2" ?now] by (simp add: confirm_claim_def)
  show ?thesis
    by (rule that [OF c _ _ s])
      (simp_all add: s1_def initial_system_def confirm_claim_def sent_table_def sql_mark_sent_def cas_def cr_def)
qed

lemma example_start:
  "plain_injector (start_world (new_service no_tables))" "\<not> unique_noise (start_world (new_service no_tables))"
  "once_per_event (committed (mem (start_world (new_service no_tables))))"
  by (simp_all add: plain_injector_def unique_noise_def outside_errors_def new_service_def no_tables_def once_per_event_def)

text \<open>
  A whole run: a request, its row claimed, published, confirmed and marked sent, its message routed to the
  work queue, delivered and rejected for want of a handler, and taken from the dead letter queue.
\<close>

abbreviation "example_step \<equiv> orderly_step sample_zod example_transport example_parse example_stringify amqp_route"

lemma taken_run:
  assumes "ready q = [m]" "unacked q = Map.empty" "dlq q = []" "given_up q = []" "example_transport (body_of example_parse m) = None"
  obtains q1 q2 q3 where "work_step sample_zod example_transport example_parse q q1"
    "work_step sample_zod example_transport example_parse q1 q2"
    "work_step sample_zod example_transport example_parse q2 q3"
    "svc q1 = svc q" "svc q2 = svc q" "svc q3 = svc q"
    "ready q3 = []" "unacked q3 = Map.empty" "dlq q3 = []" "delayed q3 = delayed q"
proof -
  let ?step = "work_step sample_zod example_transport example_parse"
  let ?q1 = "q\<lparr>ready := [], unacked := [1 \<mapsto> (m, False)]\<rparr>"
  let ?q2 = "?q1\<lparr>unacked := Map.empty, dlq := [m]\<rparr>"
  obtain r v' where d: "handleDlqMessage example_parse (Some (as_dead 1 ''k'' None m)) (dlq_svc ?q2) = (r, v')" by fastforce
  let ?q3 = "?q2\<lparr>dlq := [], given_up := [m], dlq_svc := v'\<rparr>"
  have "?step q ?q1"
    using deliver_next [of q m "[]" 1] assms by (simp add: prefetchCount_def)
  moreover have "?step ?q1 ?q2"
    using unhandled [of ?q1 1 m example_transport example_parse sample_zod] assms by simp
  moreover have "?step ?q2 ?q3"
    using dead_consumed [of ?q2 m "[]" example_parse 1 "''k''" None r v' True] d assms by simp
  ultimately show ?thesis by (rule that) simp_all
qed

lemma orderly_consuming:
  assumes "work_step Z tr parse (work s) q" "svc q = svc (work s)"
  shows "orderly_step Z tr parse stringify route s (s\<lparr>work := q\<rparr>)"
  using consuming [OF assms(1)] assms(2) by (simp add: orderly_step_def)

lemma example_run:
  obtains s e where "example_step\<^sup>*\<^sup>* (platform_start (start_world (new_service no_tables)) dlq_start) s" "promised s = {e}"
    "map status (db (outbox s)) = [Sent]" "svc (work s) = start_world (new_service no_tables)" "held (work s) = {}"
proof -
  let ?w = "start_world (new_service no_tables)" and ?hs = "[(''x-correlation-id'', JStr ''c'')]"
  obtain resp g' where a: "endpoint sample_zod True ?hs gateway_start = (Inr resp, g')"
    using gateway_start_accepts by (auto split: prod.splits sum.splits)
  from wp_result [OF wp_endpoint [OF sample_zod_documented] a] obtain row raw valid where
    em: "emitted sample_zod True (request_correlation ?hs) gateway_start g' row raw valid"
    and resp: "resp = accepted_response (endpoint_type True) (request_correlation ?hs) valid row" by blast
  from emitted_carries [OF example_libraries em] obtain e where e: "get_prop ''eventId'' valid = JStr e" by metis
  have rows: "committed (mem gateway_start) = []" "committed (mem g') = [row]"
    using emitted_row(1) [OF em] by (simp_all add: gateway_start_def new_service_def)
  have pending: "status row = Pending" and type: "event_type row = CreateMessageEventNameV2"
    using em by (auto simp: emitted_def gateway_recorded_def outbox_row_for_def outbox_input_def endpoint_type_def)
  have ans: "answered_id (Inr resp) = {e}"
    using e by (simp add: answered_id_def resp accepted_response_def get_prop_def)
  let ?cr = "returning (lock_row (next_retry_at row) ''a'' row)" and ?rw = "start_world sample_relay"
  let ?s0 = "platform_start ?w dlq_start"
  let ?s1 = "?s0\<lparr>outbox := initial_system\<lparr>db := [row]\<rparr>, promised := {e}\<rparr>"
  from sent_run [OF pending] obtain o2 o3 where steps: "relay_step (initial_system\<lparr>db := [row]\<rparr>) o2"
    "delivered_rows o2 = {}" "(''a'', ?cr, False) \<in> inflight o2" "relay_step (confirm_claim ''a'' ?cr o2) o3"
    "delivered_rows o3 = {?cr}" "map status (db o3) = [Sent]" .
  let ?m = "relayed_copy example_stringify (the_message gateway_relay ?cr ?rw)"
  let ?q = "arrive sample_zod example_transport example_parse example_stringify amqp_route
    (the_message gateway_relay ?cr ?rw) (work_start ?w dlq_start)"
  have "q_WORK QUEUES \<in> amqp_route topology_decls (m_exchange (the_message gateway_relay ?cr ?rw))
      (m_routingKey (the_message gateway_relay ?cr ?rw))"
    using route_topology(1) [OF amqp_route_ok] type
    by (simp add: the_message_def row_message_def Let_def resolveOutboxRoute_def returning_def lock_row_def
        COMMAND_EVENT_TYPES_def CreateMessageEventNameV2_def)
  then have q: "ready ?q = [?m]" "unacked ?q = Map.empty" "dlq ?q = []" "given_up ?q = []" "delayed ?q = []" "svc ?q = ?w"
    by (simp_all add: arrive_def Let_def work_start_def)
  have "example_transport (body_of example_parse ?m) = None"
    using emitted_body(1) [OF example_libraries em, of ?cr ?rw] emitted_body(2) [OF example_libraries em, of ?cr] by (simp add: returning_def lock_row_def)
  from taken_run [OF q(1-4) this] obtain q1 q2 q3 where
    w: "work_step sample_zod example_transport example_parse ?q q1"
      "work_step sample_zod example_transport example_parse q1 q2"
      "work_step sample_zod example_transport example_parse q2 q3"
    and svc: "svc q1 = svc ?q" "svc q2 = svc ?q" "svc q3 = svc ?q"
    and taken: "ready q3 = []" "unacked q3 = Map.empty" "dlq q3 = []" "delayed q3 = delayed ?q" .
  let ?s2 = "?s1\<lparr>outbox := o2\<rparr>"
  let ?s3 = "?s2\<lparr>outbox := confirm_claim ''a'' ?cr o2, work := ?q\<rparr>"
  let ?s4 = "?s3\<lparr>outbox := o3\<rparr>"
  have "example_step ?s0 ?s1"
    using request [OF a, of ?s0 example_transport example_parse example_stringify amqp_route] rows ans
    by (simp add: platform_start_def initial_system_def orderly_step_def)
  moreover have "example_step ?s1 ?s2"
    using relaying [of ?s1 o2 sample_zod example_transport example_parse example_stringify amqp_route] steps(1,2)
    by (simp add: initial_system_def orderly_step_def)
  moreover have "example_step ?s2 ?s3"
    using reached [of "''a''" ?cr ?s2 "confirm_claim ''a'' ?cr o2" sample_zod example_transport example_parse
        example_stringify amqp_route ?rw] steps(3) q(6)
    by (simp add: platform_start_def orderly_step_def work_start_def)
  moreover have "example_step ?s3 ?s4"
    using relaying [of ?s3 o3 sample_zod example_transport example_parse example_stringify amqp_route] steps(2,4,5)
    by (simp add: confirm_claim_def orderly_step_def)
  moreover have "example_step ?s4 (?s4\<lparr>work := q1\<rparr>)"
    by (rule orderly_consuming) (use w svc in simp_all)
  moreover have "example_step (?s4\<lparr>work := q1\<rparr>) (?s4\<lparr>work := q1, work := q2\<rparr>)"
    by (rule orderly_consuming) (use w svc in simp_all)
  moreover have "example_step (?s4\<lparr>work := q1, work := q2\<rparr>) (?s4\<lparr>work := q1, work := q2, work := q3\<rparr>)"
    by (rule orderly_consuming) (use w svc in simp_all)
  ultimately have run: "example_step\<^sup>*\<^sup>* ?s0 (?s4\<lparr>work := q1, work := q2, work := q3\<rparr>)"
    by (meson rtranclp.rtrancl_into_rtrancl rtranclp.rtrancl_refl)
  show ?thesis
    by (rule that [OF run]) (use steps(6) taken svc q in \<open>simp_all add: held_def\<close>)
qed

lemma orderly_platform: "(orderly_step Z tr parse stringify route)\<^sup>*\<^sup>* s s' \<Longrightarrow>
    (platform_step Z tr parse stringify route)\<^sup>*\<^sup>* s s'"
  by (induction rule: rtranclp_induct) (auto simp: orderly_step_def intro: rtranclp.rtrancl_into_rtrancl)

theorem requests_accounted_for_witness:
  "\<exists>s e. (platform_step sample_zod example_transport example_parse example_stringify amqp_route)\<^sup>*\<^sup>*
       (platform_start (start_world (new_service no_tables)) dlq_start) s \<and> promised s = {e} \<and>
     map status (db (outbox s)) = [Sent] \<and>
     (\<exists>m \<in> set (given_up (work s)). carried sample_zod example_transport example_parse m = Some e \<and>
        logged example_parse (work s) m)"
proof -
  obtain s e where run: "example_step\<^sup>*\<^sup>* (platform_start (start_world (new_service no_tables)) dlq_start) s"
    and s: "promised s = {e}" "map status (db (outbox s)) = [Sent]" "svc (work s) = start_world (new_service no_tables)"
      "held (work s) = {}"
    by (rule example_run)
  have "status r = Sent" if "r \<in> set (db (outbox s))" for r using s(2) that by (auto simp: map_eq_Cons_conv)
  moreover have "processed_ids (consumer_tables s) = {}"
    by (simp add: s(3) new_service_def no_tables_def processed_ids_def)
  ultimately have "\<exists>m \<in> set (given_up (work s)). carried sample_zod example_transport example_parse m = Some e \<and>
      logged example_parse (work s) m"
    using requests_accounted_for [OF orderly_platform [OF run] example_libraries example_start(1,2), of e] s(1,4) by simp
  then show ?thesis
    by (intro exI [of _ s] exI [of _ e] conjI orderly_platform [OF run] s(1,2))
qed

definition effects :: "platform \<Rightarrow> string \<Rightarrow> nat" where
  "effects s e = length (filter (\<lambda>p. pe_eventId p = e) (processed_events (consumer_tables s)))"

text \<open>
  C2: Events have one effect. The relays may publish an event any number of times and the queues may
  deliver it any number of times: in every schedule in which other writers keep the consumer's tables in
  step, every event is processed at most once, and there are as many messages, and as many rows in the
  consumer's outbox, as processed events. An event the gateway has answered with has exactly one effect, or
  it is in a row that is not sent, in a message in the work, retry or dead letter queue, or in one that the
  dead letter consumer logged and acknowledged.
\<close>

theorem events_effected_once:
  assumes "(orderly_step Z tr parse stringify route)\<^sup>*\<^sup>* (platform_start w v) s"
    and "libraries_documented Z tr parse stringify route" "plain_injector w" "\<not> unique_noise w"
    and "once_per_event (committed (mem w))"
  shows "(\<forall>e. effects s e \<le> 1) \<and>
    length (messages (consumer_tables s)) = length (processed_events (consumer_tables s)) \<and>
    length (outbox_events (consumer_tables s)) = length (processed_events (consumer_tables s)) \<and>
    (\<forall>e \<in> promised s. effects s e = 1 \<or>
      (\<exists>r \<in> set (db (outbox s)). event_id r = Some e \<and> status r \<noteq> Sent) \<or>
      (\<exists>m \<in> held (work s). carried Z tr parse m = Some e) \<or>
      (\<exists>m \<in> set (given_up (work s)). carried Z tr parse m = Some e \<and> logged parse (work s) m))"
proof -
  have "platform_inv Z tr parse stringify route (platform_start w v) \<and>
      once_per_event (consumer_tables (platform_start w v))"
    using assms(2-5) platform_inv_start by (simp add: platform_start_def work_start_def)
  with assms(1) have inv: "platform_inv Z tr parse stringify route s \<and> once_per_event (consumer_tables s)"
    by (rule orderly.schedule_keeps)
  let ?ps = "processed_events (consumer_tables s)"
  have "distinct (map pe_eventId ?ps)" using inv by (simp add: once_per_event_def)
  then have one: "effects s e = (if e \<in> pe_eventId ` set ?ps then 1 else 0)" for e
    unfolding effects_def by (rule length_filter_key)
  have "length (outbox_events (consumer_tables s)) = length ?ps"
    using inv by (auto simp: once_per_event_def dest: arg_cong [where f = length])
  moreover have "length (messages (consumer_tables s)) = length ?ps" using inv by (simp add: once_per_event_def)
  moreover have "effects s e = 1 \<or> unprocessed_at Z tr parse s e" if "e \<in> promised s" for e
    using promised_kept [OF conjunct1 [OF inv] that] one by (auto simp: processed_ids_def)
  ultimately show ?thesis using one unfolding unprocessed_at_def by simp
qed

theorem events_effected_once_witness:
  "\<exists>s e. example_step\<^sup>*\<^sup>* (platform_start (start_world (new_service no_tables)) dlq_start) s \<and> promised s = {e} \<and>
     length (messages (consumer_tables s)) = length (processed_events (consumer_tables s)) \<and>
     (\<exists>m \<in> set (given_up (work s)). carried sample_zod example_transport example_parse m = Some e \<and>
        logged example_parse (work s) m)"
proof -
  obtain s e where run: "example_step\<^sup>*\<^sup>* (platform_start (start_world (new_service no_tables)) dlq_start) s"
    and s: "promised s = {e}" "map status (db (outbox s)) = [Sent]" "svc (work s) = start_world (new_service no_tables)"
      "held (work s) = {}"
    by (rule example_run)
  note once = events_effected_once [OF run example_libraries example_start]
  have "status r = Sent" if "r \<in> set (db (outbox s))" for r using s(2) that by (auto simp: map_eq_Cons_conv)
  moreover have "processed_events (consumer_tables s) = []" by (simp add: s(3) new_service_def no_tables_def)
  ultimately have "\<exists>m \<in> set (given_up (work s)). carried sample_zod example_transport example_parse m = Some e \<and>
      logged example_parse (work s) m"
    using once s(1,4) by (simp add: effects_def)
  then show ?thesis by (intro exI [of _ s] exI [of _ e] conjI run s(1) once [THEN conjunct2, THEN conjunct1])
qed

end
