(* ===== verification/Spec2Isabelle.thy ===== *)
theory Spec2Isabelle
  imports Relay_System Outbox_Admin Messaging_Controller Gateway_Controller Messages_Service
    Dlq_Consumer Migrations Bounded_Runs Delivery_Runs Event_Pipeline Logging Health Metrics Wiring
    Startup Consumer_System Work_Queue Channel_Sharing Load_Queries
    Dispatch End_To_End
begin

text \<open>
  Verification library of the contract-driven messaging platform: a gateway that turns HTTP requests
  into events, a messaging service that consumes them, and the transactional outboxes, fencing tokens,
  retries and dead letters that tie the two together over RabbitMQ and PostgreSQL.

  \<^bold>\<open>The program.\<close> A request to the gateway (\<open>apps/gateway/src/app.controller.ts\<close>) builds an event,
  validates it against its contract (\<open>libs/contracts/src/events\<close>) and commits it to
  \<open>gateway_outbox_events\<close>. The gateway's relay (\<open>gateway-outbox-relay.service.ts\<close>) claims due rows,
  publishes them on the exchange that \<open>resolveOutboxRoute\<close> names and marks them sent once the broker has
  confirmed them; several relay instances share the table. The messaging service
  (\<open>apps/messaging/src/messaging.controller.ts\<close>) consumes the work queue: it validates the event again,
  upcasts version 1 to version 2, counts the attempt durably, writes the message, the idempotency row and
  an outbox row in one transaction, and settles the delivery; a failure is classified and becomes a
  delayed retry copy, a dead letter or a requeue. Its own relay publishes the outbox rows as domain
  events on a fanout exchange. A dead letter consumer records and acknowledges what was given up; an
  operator behind an API key replays failed outbox rows.

  \<^bold>\<open>How code becomes definitions.\<close> A class is a record of its fields, a method a definition of the same
  name in the effect layer of \<open>Prelude\<close>: a function from a world (the state, the clock, the identifiers
  and the answers to external calls still to come) to a value or a thrown JavaScript value, and a new
  world. An external call (an SQL statement, a broker operation) is answered by the world: done, refused
  (back-pressure: a publish returns false, other calls are done), failed (no effect, an error) or lost (it
  took effect and its answer is an error). A theorem that does not fix the answers holds for every combination of
  failures. \<open>await\<close> is sequencing, \<open>try\<close>, \<open>catch\<close> and \<open>finally\<close> are combinators, and the rules of
  \<open>wp\<close> carry the proofs. Values the code calls \<open>unknown\<close> are the datatype \<open>jsval\<close>. JavaScript numbers that
  hold counts or milliseconds are integers.

  \<^bold>\<open>Theories.\<close>
  \<^item> \<open>Prelude\<close>: JavaScript values, metrics, the effect layer, its weakest preconditions, list lemmas, step
    relations.
  \<^item> \<open>Topology\<close>: \<open>libs/contracts/src/topology/topology.ts\<close> and \<open>topology.service.ts\<close>; where a message can
    end up under any routing that obeys AMQP's rules.
  \<^item> \<open>Retry_Policy\<close>, \<open>Tracing\<close>, \<open>Lifecycle\<close>: the retry policy of the outboxes, trace headers, the event
    lifecycle tracer (\<open>libs/contracts\<close>, \<open>libs/common\<close>).
  \<^item> \<open>Contracts\<close>, \<open>Wire_Format\<close>: schemas as data, validation, versions, builders and the upcaster of
    \<open>libs/contracts/src/events\<close>; stability of validated events under JSON.
  \<^item> \<open>Amqp_Client\<close>, \<open>Retry_Publisher\<close>: the lazily connected confirm channel and the retry copy.
  \<^item> \<open>Channel_Sharing\<close>: concurrent deliveries that ask the retry publisher for its channel, as the
    relation \<open>share_step\<close>.
  \<^item> \<open>Outbox_Table\<close>, \<open>Outbox_Relay\<close>, \<open>Relay_System\<close>: the outbox table and its statements; every method of
    the two relays (one class, instantiated as \<open>messaging_relay\<close> and \<open>gateway_relay\<close>); all interleavings
    of any number of instances, reapers, operators and writers as the relation \<open>relay_step\<close>.
  \<^item> \<open>Outbox_Admin\<close>: the API key guard and the operator's services and controllers of both services.
  \<^item> \<open>Service_Db\<close>, \<open>Outbox_Tx\<close>, \<open>Idempotency\<close>: tables and transactions; the transactional writes of
    \<open>outbox-transaction.service.ts\<close>, \<open>messaging.service.ts\<close> and \<open>gateway-outbox.service.ts\<close>; the
    idempotency ledger and the attempt counter.
  \<^item> \<open>Consumer_System\<close>: any number of runs of the idempotent transaction interleaved statement by statement
    on one database, with the blocking unique index of PostgreSQL, as the relation \<open>consumer_step\<close>.
  \<^item> \<open>Work_Queue\<close>: the consumer's handler against its queues, as the relation \<open>work_step\<close>: publishes,
    deliveries, whole handler runs, deliveries without a handler, expiry of retry copies, closed channels, runs of
    the dead letter consumer, changes made elsewhere.
  \<^item> \<open>Error_Class\<close>, \<open>Messaging_Controller\<close>, \<open>Dlq_Consumer\<close>: error classification, the consumer of the
    work queue, the consumer of the dead letter queue.
  \<^item> \<open>Gateway_Controller\<close>, \<open>Messages_Service\<close>: the gateway's endpoints and the query side.
  \<^item> \<open>Migrations\<close>: every migration of both services, run on a schema.
  \<^item> \<open>Observability\<close>, \<open>Logging\<close>, \<open>Health\<close>, \<open>Legacy_Outbox\<close>: logger, middleware, interceptor and span
    wrapper; the options of the loggers and the rest of the tracing service; the health probes; the
    superseded outbox loop.
  \<^item> \<open>Wiring\<close>, \<open>Startup\<close>: the modules with their providers and database connections; the bootstrap functions,
    the order of start-up requests at the broker, the shutdown listeners.
  \<^item> \<open>Load_Payloads\<close>, \<open>Load_Tests\<close>, \<open>Load_Queries\<close>: the k6 load tests of \<open>perf/k6\<close>: the events they build, against
    the contracts; checks, iterations, phases and thresholds; their queries, against the metrics registry.
  \<^item> \<open>Patterns\<close>, \<open>Dispatch\<close>: the patterns the consumer's handlers are registered for, the transport that finds
    one, and what it does with the gateway's events.
  \<^item> \<open>End_To_End\<close>: requests, relay instances, the routing of what they publish, the consumer and the dead letter consumer as
    one relation \<open>platform_step\<close>, which shares the outbox table and the work queue between \<open>relay_step\<close> and \<open>work_step\<close>.
  \<^item> \<open>Memory_Orders\<close>, \<open>Delivery_Runs\<close>, \<open>Bounded_Runs\<close>, \<open>Event_Pipeline\<close>, \<open>Metrics\<close> (with the registry of
    \<open>libs/common/src/metrics\<close>) and this theory: properties that span components.

  \<^bold>\<open>Interfaces.\<close> \<open>step_system\<close> (\<open>Prelude\<close>) is a step relation with
  a condition every step keeps; interpreted on the relays, the consumer runs, the queues, the callers of the
  channel and the platform. \<open>fenced_store\<close> (\<open>Relay_System\<close>) is what fencing needs of
  the row store: a claim raises the tokens of the rows it takes by one and nothing else moves a token;
  interpreted on the SQL statements. \<open>budgeted_handler\<close> (\<open>Delivery_Runs\<close>) is what
  bounds retries: an attempt is counted before it can be retried; interpreted on the consumer.
  \<open>transaction_bracket\<close> (\<open>Outbox_Tx\<close>) is what the handlers of a transaction rely on:
  rolling back and releasing leave the committed state alone; interpreted on the query runner.
  \<open>memory_order\<close> (\<open>Memory_Orders\<close>) is a preorder every run goes up in; its extensions
  in \<open>Metrics\<close>, \<open>client_order\<close>, \<open>service_order\<close>,
  \<open>event_order\<close> and \<open>messaging_order\<close> say which parts of a service's memory it looks
  at, and carry it through the handlers; interpreted on the reports of each service, on the success counter
  against the message table, on the effect of an event and on the books of a load test.

  \<^bold>\<open>What is shown.\<close> End to end: in every schedule an event that the gateway has answered
  with is processed, or in a row of its outbox that is not sent, or in the work, retry or dead letter queue, or the
  dead letter consumer has logged and acknowledged it, which is how relayed requests end with the
  transport as documented; and every event has at most
  one effect as long as other writers keep the consumer's tables in step. Safety of the consumer: a delivery is
  settled at most once and acknowledged only when the event is accounted for; in every schedule of the queues an
  offered event is processed, still held by a queue, or logged by the dead letter consumer; under any schedule of redeliveries
  and failures an event has one effect, also when runs are interleaved; concurrent deliveries share one
  connection for their retry copies; waiting runs never deadlock, and the sequential handler refines the
  interleaved relation. Safety of the relays: a sent row was confirmed with its content, fencing tokens are
  unique, a stale claim changes nothing, the detailed tick refines the step relation; with the driver's documented
  result of an update a tick sends nothing (\<open>tick_sends_nothing\<close>), with the one the source annotates
  it delivers its batch (\<open>tick_delivers\<close>). Routing: no domain event
  reaches the work queue. Composition: the event that an accepted request stores is one that the consumer's
  handler accepts (\<open>stored_event_accepted\<close>), but the transport finds no handler for it as the relay
  publishes it (\<open>relayed_requests_unhandled\<close>). Boundedness: the number of external calls of every handler and
  endpoint, of a tick (one and six per row of its batch), of the retries of an event (four in all).
  Contracts: validation accepts exactly the contract written out, version dispatch, upcast and JSON round trip. Schemas:
  migrations are undone by their reverse, and both outbox tables agree. Metrics: every report is one the
  registry accepts, and a success is counted only for a persisted message. Wiring: every dependency is provided,
  once. Load tests: every event is counted once; no event they send satisfies a contract. Faults of the code
  that modelling showed are theorems too: each says exactly what goes wrong and when
  (\<open>immediate_reclaim\<close>, \<open>lost_answer_reopens_row\<close>,
  \<open>unrecorded_failure_strands_batch\<close>, \<open>failed_connect_is_final\<close>,
  \<open>persisted_yet_dead_lettered\<close>, \<open>unrecorded_attempt_unsettled\<close>,
  \<open>back_pressure_still_publishes\<close>, \<open>paging_loses_ties\<close>,
  \<open>no_start_order_works\<close>, \<open>dlq_consumer_needs_the_queue\<close>,
  \<open>shutdown_cuts_hooks_off\<close>, \<open>timed_out_probes_leak\<close>,
  \<open>failed_save_marks_sent\<close>, \<open>relayed_requests_unhandled\<close>,
  \<open>load_events_rejected\<close>, \<open>health_check_blind\<close>,
  \<open>override_replaces_payload\<close>, \<open>tick_sends_nothing\<close>, \<open>replay_answers_pair\<close>).

  \<^bold>\<open>Bounds and fuel.\<close> No definition uses fuel: the code's loops run over finite lists
  (batches, rows, migrations, schema members) and its polling timers are single ticks here. Constants (batch 25,
  five attempts, 2 to 30 seconds, the lock's 60 seconds) are the code's defaults; configured values are
  arguments. The cap of four retries is \<open>MAX_ATTEMPTS\<close> less one.

  \<^bold>\<open>What is assumed.\<close> Code outside the repository is a parameter with its documented
  behaviour, always a visible hypothesis: Zod (\<open>zod_documented\<close>: parsing follows the schema,
  defaults are filled in, unknown members dropped), RabbitMQ's routing and declarations
  (\<open>amqp_routing\<close>, \<open>amqp_broker\<close>), the exports of the framework's modules
  (\<open>documented_exports\<close>), the trace propagator (where a theorem needs it: it sets no schema version
  header), TypeORM's \<open>take\<close> (\<open>takes_positive\<close>), terminus and the URL parser
  (\<open>health_lib\<close>), the RMQ transport of the framework (\<open>transport_documented\<close>), what
  TypeORM resolves an \<open>UPDATE ... RETURNING\<close> to (\<open>driver_result\<close>: the pair of rows and count, as
  documented, or the rows, as annotated; a theorem that needs one of them says so), JSON
  text (\<open>libraries_documented\<close>), and how RabbitMQ holds unsettled deliveries
  (\<open>work_step\<close>). Each has an instance in a witness. One SQL statement is atomic; a transaction sees
  its own writes and installs them on COMMIT. The detailed handlers run to their end before the next one starts;
  relay instances and consumer runs are interleaved statement by statement in \<open>Relay_System\<close> and
  \<open>Consumer_System\<close>, whose relations the detailed operations refine. k6 and Prometheus are
  parameters (\<open>random_documented\<close>, \<open>prometheus_documented\<close>).

  \<^bold>\<open>Not modelled.\<close> What the framework does with the modules and bootstrap options (routing of HTTP
  requests, deserialisation of messages, the order in which hooks of one module run), the inside of Pino,
  Winston, prom-client, the OpenTelemetry SDK and k6. Log calls and span attributes inside the services
  are left out of their models: they return nothing the code uses, and \<open>Observability\<close> shows that the
  wrappers around a handler do not change what it does. Column lengths exist in \<open>Migrations\<close> only.
\<close>

section \<open>Producer and consumer\<close>

text \<open>
  C9: Producer and consumer agree on the contract. The event that an accepted request leaves in the
  outbox is one that the consumer's handler accepts, in either version: when \<open>handleMessage\<close> is called with it
  as its data and a delivery that names no version, every call is answered and the event was not processed before,
  the handler acknowledges, and the message table holds a message with the text of the request.
  This is about the two ends and their contract, not about the way between them: the relay publishes the event
  in a form for which the transport does not call the handler (\<open>relayed_requests_unhandled\<close> in \<open>Dispatch\<close>).
\<close>

theorem stored_event_accepted:
  assumes zod: "zod_documented Z" and accepted: "endpoint Z v2 headers g = (Inr resp, g')"
    and d: "coerceToSchemaVersion (readSchemaVersionHeader d) = None"
    and w: "outcomes w = (\<lambda>_. Done)" "\<not> lc_enabled (mem w)"
      "\<not> event_id_taken (fresh w (uuids w)) (outbox_events (committed (mem w)))"
  shows "\<exists>row e. committed (mem g') = committed (mem g) @ [row] \<and> event_id row = Some e \<and>
    (e \<notin> processed_ids (committed (mem w)) \<longrightarrow>
      (\<exists>m w'. handleMessage Z (payload row) d w = (Inr (PersistedMessage m), w') \<and>
         m \<in> set (messages (committed (mem w'))) \<and> msg_title m = endpoint_subject v2 \<and>
         msg_content m = ''Hello RabbitMQ!'' \<and> settled (mem w') = settled (mem w) @ [Ack (deliveryTag d)]))"
proof -
  obtain row raw valid where em: "emitted Z v2 (request_correlation headers) g g' row raw valid"
    using wp_result [OF wp_endpoint [OF zod] accepted] by blast
  then have v: "validateEvent Z (endpoint_type v2) raw = Inr valid" "built v2 raw"
    by (simp_all add: emitted_def)
  note row = emitted_row [OF em]
  obtain e where e: "get_prop ''eventId'' valid = JStr e" using valid_members(1) [OF zod v(1)] by blast
  from consumed_event [OF zod v d] obtain ev where
    ev: "accepted_event Z (json_of valid) d = Some ev" "event_string ''eventId'' ev = e"
      "payload_string ''subject'' ev = Some (endpoint_subject v2)" "payload_string ''content'' ev = Some ''Hello RabbitMQ!''"
    using e by (auto simp: event_string_def)
  have "\<exists>m w'. handleMessage Z (payload row) d w = (Inr (PersistedMessage m), w') \<and>
      m \<in> set (messages (committed (mem w'))) \<and> msg_title m = endpoint_subject v2 \<and>
      msg_content m = ''Hello RabbitMQ!'' \<and> settled (mem w') = settled (mem w) @ [Ack (deliveryTag d)]"
    if "e \<notin> processed_ids (committed (mem w))"
  proof -
    have "event_string ''eventId'' ev \<notin> processed_ids (committed (mem w))" using that ev(2) by simp
    from handleMessage_done [OF ev(1) w(1,2) this w(3)] ev(3,4) row(3) show ?thesis by (metis or_else_simps(2))
  qed
  moreover have "event_id row = Some e" using row(4) e by simp
  ultimately show ?thesis using row(1) by blast
qed

theorem stored_event_accepted_witness:
  "\<exists>resp g' row m w'.
     endpoint sample_zod True [(''x-correlation-id'', JStr ''c'')] gateway_start = (Inr resp, g') \<and>
     committed (mem g') = [row] \<and>
     handleMessage sample_zod (payload row) example_delivery (start_world (new_service no_tables)) =
       (Inr (PersistedMessage m), w') \<and>
     msg_title m = ''System test message (v2)''"
proof -
  obtain resp g' where a: "endpoint sample_zod True [(''x-correlation-id'', JStr ''c'')] gateway_start = (Inr resp, g')"
    using gateway_start_accepts by (auto split: prod.splits sum.splits)
  let ?w = "start_world (new_service no_tables)"
  have start: "outcomes ?w = (\<lambda>_. Done)" "\<not> lc_enabled (mem ?w)"
    "\<not> event_id_taken (fresh ?w (uuids ?w)) (outbox_events (committed (mem ?w)))"
    "processed_ids (committed (mem ?w)) = {}" "committed (mem gateway_start) = []"
    by (simp_all add: new_service_def no_tables_def event_id_taken_def processed_ids_def gateway_start_def)
  have d: "coerceToSchemaVersion (readSchemaVersionHeader example_delivery) = None"
    by (simp add: readSchemaVersionHeader_def headers_of_def example_delivery_def coerceToSchemaVersion_def get_prop_def)
  from stored_event_accepted [OF sample_zod_documented a d start(1,2,3)] start(4,5) a show ?thesis
    by (fastforce simp: endpoint_subject_def)
qed

end
